(* ===== verification/Prelude.thy ===== *)
theory Prelude
  imports "HOL-Library.Word"
begin

text \<open>
  Shared vocabulary of the development: machine integers, panics, bit fields of a register
  word, little-endian byte strings and borrowed slices.  Everything a component theory needs
  from Rust's core library is defined here once, with the lemmas that carry the component
  proofs.
\<close>

unbundle bit_operations_syntax

section \<open>Machine integers\<close>

type_synonym u8 = "8 word"
type_synonym u16 = "16 word"
type_synonym u32 = "32 word"
type_synonym u64 = "64 word"

text \<open>A byte slice \<open>&[u8]\<close>.\<close>

type_synonym bytes = "u8 list"

named_theorems mask_words
  \<open>the right-aligned masks of the source, as \<open>mask n\<close>\<close>

named_theorems field_shapes
  \<open>every accessor and builder of a bit field, as \<open>get_field\<close> or \<open>put_field\<close>\<close>

named_theorems codec_simps
  \<open>decoding what an enum's encoder produced\<close>

section \<open>Panics\<close>

text \<open>
  A Rust operation that can panic returns a value of \<open>panic + 'a\<close>.  Overflowing arithmetic
  and overlong shifts panic, as they do in the debug profile; a theorem that such a function
  returns \<open>Inr\<close> therefore also says that debug and release builds agree.
\<close>

datatype panic =
    IndexOutOfBounds
  | AddOverflow
  | SubOverflow
  | ShiftOverflow
  | AssertFailed
  | Unreachable

type_synonym 'a run = "panic + 'a"

definition run_bind :: "'a run \<Rightarrow> ('a \<Rightarrow> 'b run) \<Rightarrow> 'b run" where
  "run_bind m f = (case m of Inl p \<Rightarrow> Inl p | Inr x \<Rightarrow> f x)"

lemma run_bind_simps [simp]:
  "run_bind (Inl p) f = Inl p"
  "run_bind (Inr x) f = f x"
  by (simp_all add: run_bind_def)

text \<open>\<open>xs[i]\<close>, \<open>a + b\<close>, \<open>a - b\<close> and \<open>1 << k\<close> as the debug profile runs them.\<close>

definition index_chk :: "'a list \<Rightarrow> nat \<Rightarrow> 'a run" where
  "index_chk xs i = (if i < length xs then Inr (xs ! i) else Inl IndexOutOfBounds)"

definition add_chk :: "'a::len word \<Rightarrow> 'a word \<Rightarrow> 'a word run" where
  "add_chk a b = (if unat a + unat b < 2 ^ LENGTH('a) then Inr (a + b) else Inl AddOverflow)"

definition sub_chk :: "'a::len word \<Rightarrow> 'a word \<Rightarrow> 'a word run" where
  "sub_chk a b = (if b \<le> a then Inr (a - b) else Inl SubOverflow)"

definition shl_chk :: "'a::len word \<Rightarrow> nat \<Rightarrow> 'a word run" where
  "shl_chk a k = (if k < LENGTH('a) then Inr (push_bit k a) else Inl ShiftOverflow)"

lemma index_chk_in [simp]: "i < length xs \<Longrightarrow> index_chk xs i = Inr (xs ! i)"
  by (simp add: index_chk_def)

lemma index_chk_out [simp]: "length xs \<le> i \<Longrightarrow> index_chk xs i = Inl IndexOutOfBounds"
  by (simp add: index_chk_def)

text \<open>\<open>&xs[a..b]\<close>\<close>

definition slice_chk :: "'a list \<Rightarrow> nat \<Rightarrow> nat \<Rightarrow> 'a list run" where
  "slice_chk xs a b = (if a \<le> b \<and> b \<le> length xs then Inr (take (b - a) (drop a xs)) else Inl IndexOutOfBounds)"

lemma slice_chk_in [simp]: "a \<le> b \<Longrightarrow> b \<le> length xs \<Longrightarrow> slice_chk xs a b = Inr (take (b - a) (drop a xs))"
  by (simp add: slice_chk_def)

lemma add_chk_in: "unat a + unat b < 2 ^ LENGTH('a) \<Longrightarrow> add_chk a b = Inr (a + b)"
  for a b :: "'a::len word"
  by (simp add: add_chk_def)

lemma unat_bound: "unat w < 2 ^ LENGTH('a)" for w :: "'a::len word"
  by (rule unsigned_less)

lemma unat_of_nat_in: "n < 2 ^ LENGTH('a) \<Longrightarrow> unat (of_nat n :: 'a::len word) = n"
  by (simp add: unsigned_of_nat take_bit_nat_eq_self_iff)

lemma unat_ucast_up:
  "LENGTH('a) \<le> LENGTH('b) \<Longrightarrow> unat (ucast x :: 'b::len word) = unat x" for x :: "'a::len word"
proof -
  assume "LENGTH('a) \<le> LENGTH('b)"
  then have "unat x < 2 ^ LENGTH('b)"
    using unat_bound [of x] by (meson less_le_trans one_le_numeral power_increasing)
  then show ?thesis by (simp add: unsigned_ucast_eq take_bit_nat_eq_self_iff)
qed

lemma unat_add_chk: "add_chk a b = Inr c \<Longrightarrow> unat c = unat a + unat b"
  for a b :: "'a::len word"
  by (auto simp: add_chk_def unat_word_ariths split: if_splits)

section \<open>Bit fields of a register word\<close>

text \<open>
  \<open>get_field lo w v\<close> is the \<open>w\<close>-bit field of \<open>v\<close> that starts at bit \<open>lo\<close>, right
  aligned; \<open>put_field lo w x v\<close> overwrites that field with the low \<open>w\<close> bits of \<open>x\<close>.
  The source writes both out with masks and shifts; each component shows that its accessors
  are of this shape, and reads the laws off the lemmas below.
\<close>

definition get_field :: "nat \<Rightarrow> nat \<Rightarrow> 'a::len word \<Rightarrow> 'a word" where
  "get_field lo w v = take_bit w (drop_bit lo v)"

definition put_field :: "nat \<Rightarrow> nat \<Rightarrow> 'a::len word \<Rightarrow> 'a word \<Rightarrow> 'a word" where
  "put_field lo w x v = (v AND NOT (push_bit lo (mask w))) OR push_bit lo (take_bit w x)"

lemma bit_get_field [bit_simps]:
  "bit (get_field lo w v) n \<longleftrightarrow> n < w \<and> bit v (lo + n)"
  by (simp add: get_field_def bit_simps)

lemma bit_put_field [bit_simps]:
  "bit (put_field lo w x v) n \<longleftrightarrow>
     (if lo \<le> n \<and> n < lo + w then n < LENGTH('a) \<and> bit x (n - lo) else bit v n)"
  for x v :: "'a::len word"
  by (auto simp: put_field_def bit_simps dest: bit_imp_le_length)

lemma get_put_same [simp]:
  "lo + w \<le> LENGTH('a) \<Longrightarrow> get_field lo w (put_field lo w x v) = take_bit w x"
  for x v :: "'a::len word"
  by (rule bit_word_eqI) (auto simp: bit_simps)

lemma get_put_other [simp]:
  "lo' + w' \<le> lo \<or> lo + w \<le> lo' \<Longrightarrow> get_field lo' w' (put_field lo w x v) = get_field lo' w' v"
  for x v :: "'a::len word"
  by (rule bit_word_eqI) (auto simp: bit_simps)

lemma bit_put_other [simp]:
  "n < lo \<or> lo + w \<le> n \<Longrightarrow> bit (put_field lo w x v) n \<longleftrightarrow> bit v n"
  for x v :: "'a::len word"
  by (auto simp: bit_simps)

lemma bit_put_same [simp]:
  "lo < LENGTH('a) \<Longrightarrow> 0 < w \<Longrightarrow> bit (put_field lo w x v) lo \<longleftrightarrow> bit x 0"
  for x v :: "'a::len word"
  by (auto simp: bit_simps)

lemma put_put_same [simp]: "put_field lo w y (put_field lo w x v) = put_field lo w y v"
  for x v :: "'a::len word"
  by (rule bit_word_eqI) (auto simp: bit_simps)

lemma put_get_same [simp]: "put_field lo w (get_field lo w v) v = v"
  for v :: "'a::len word"
  by (rule bit_word_eqI) (auto simp: bit_simps)

lemma put_field_take_bit [simp]: "put_field lo w (take_bit w x) v = put_field lo w x v"
  for x v :: "'a::len word"
  by (rule bit_word_eqI) (auto simp: bit_simps)

lemma get_field_zero [simp]: "get_field lo w 0 = 0"
  by (simp add: get_field_def)

lemma take_bit_get_field [simp]: "take_bit w (get_field lo w v) = get_field lo w v"
  by (simp add: get_field_def)

lemma bit_of_bool_word [simp]: "bit (of_bool b :: 'a::len word) n \<longleftrightarrow> b \<and> n = 0"
  by (cases b) (auto simp: bit_1_iff)

lemma take_bit_full [simp]: "LENGTH('a) \<le> n \<Longrightarrow> take_bit n v = v" for v :: "'a::len word"
  by (rule bit_word_eqI) (auto simp: bit_simps)

lemma put_field_bit [simp]:
  "put_field k (Suc 0) (of_bool (bit v k)) v = v"
  for v :: "'a::len word"
  by (rule bit_word_eqI) (auto simp: bit_simps less_Suc_eq dest: le_antisym)

text \<open>Equations between fields, bit by bit.\<close>

lemma take_bit_zero_iff: "take_bit k v = 0 \<longleftrightarrow> (\<forall>n < k. \<not> bit v n)" for v :: "'a::len word"
  by (auto simp: bit_eq_iff bit_simps dest: bit_imp_le_length)

lemma drop_bit_eq_iff: "drop_bit k v = x \<longleftrightarrow> (\<forall>n \<ge> k. bit v n \<longleftrightarrow> bit x (n - k))" for v x :: "'a::len word"
proof
  assume *: "\<forall>n \<ge> k. bit v n \<longleftrightarrow> bit x (n - k)"
  show "drop_bit k v = x"
    using * by (intro bit_word_eqI) (simp add: bit_simps)
qed (auto simp: bit_simps)

lemma get_field_zero_iff:
  "get_field lo w v = 0 \<longleftrightarrow> (\<forall>n. lo \<le> n \<longrightarrow> n < lo + w \<longrightarrow> \<not> bit v n)" for v :: "'a::len word"
proof
  assume *: "\<forall>n. lo \<le> n \<longrightarrow> n < lo + w \<longrightarrow> \<not> bit v n"
  show "get_field lo w v = 0" by (rule bit_word_eqI) (simp add: bit_simps *)
next
  assume *: "get_field lo w v = 0"
  have "\<not> bit v n" if "lo \<le> n" "n < lo + w" for n
    using arg_cong [OF *, of "\<lambda>u. bit u (n - lo)"] that by (auto simp: bit_simps)
  then show "\<forall>n. lo \<le> n \<longrightarrow> n < lo + w \<longrightarrow> \<not> bit v n" by blast
qed

text \<open>The two forms a builder has in the source: mask the field out and OR the value in.\<close>

lemma put_shapes:
  "(v AND NOT (push_bit lo (mask w))) OR push_bit lo (x AND mask w) = put_field lo w x v"
  "(v AND NOT (push_bit lo (mask w))) OR push_bit lo (ucast (y AND mask w)) = put_field lo w (ucast y) v"
  "(v AND NOT (push_bit k 1)) OR push_bit k (ucast (of_bool b :: u8)) = put_field k 1 (of_bool b) v"
  for v x :: "'a::len word" and y :: "'b::len word"
  by (rule bit_word_eqI, auto simp: put_field_def bit_simps dest: bit_imp_le_length)+

lemma put_shapes_wide:
  "LENGTH('b) \<le> w \<Longrightarrow>
   (v AND NOT (push_bit lo (mask w))) OR push_bit lo (ucast y) = put_field lo w (ucast y) v"
  "LENGTH('b) \<le> w \<Longrightarrow> (v AND NOT (mask w)) OR ucast y = put_field 0 w (ucast y) v"
  "(v AND NOT (mask w)) OR ucast (z AND mask w) = put_field 0 w (ucast z) v"
  "(v AND NOT (mask w)) OR (x AND mask w) = put_field 0 w x v"
  "(v AND NOT 1) OR ucast (of_bool b :: u8) = put_field 0 1 (of_bool b) v"
  "(v AND NOT 2) OR push_bit 1 (ucast (of_bool b :: u8)) = put_field 1 1 (of_bool b) v"
  for v x :: "'a::len word" and y :: "'b::len word" and z :: "'c::len word"
proof -
  have two: "(2 :: 'a word) = push_bit 1 1" by simp
  show "(v AND NOT 2) OR push_bit 1 (ucast (of_bool b :: u8)) = put_field 1 1 (of_bool b) v"
    unfolding two by (rule put_shapes)
qed (rule bit_word_eqI, auto simp: put_field_def bit_simps dest: bit_imp_le_length)+

text \<open>An encoder ORs its fields together in ascending order; each OR writes a field that is still zero.\<close>

lemma drop_put [simp]:
  "lo + w \<le> k \<Longrightarrow> drop_bit k (put_field lo w x v) = drop_bit k v" for v x :: "'a::len word"
  by (rule bit_word_eqI) (auto simp: bit_simps)

lemma or_fields [field_shapes]:
  "drop_bit lo v = 0 \<Longrightarrow> v OR push_bit lo (ucast (y AND mask w)) = put_field lo w (ucast y) v"
  "drop_bit lo v = 0 \<Longrightarrow> v OR push_bit lo (ucast h) = put_field lo 16 (ucast h) v"
  "drop_bit lo v = 0 \<Longrightarrow> v OR push_bit lo (ucast d) = put_field lo 32 (ucast d) v"
  "drop_bit lo v = 0 \<Longrightarrow> v OR push_bit lo (ucast (of_bool b :: u8)) = put_field lo 1 (of_bool b) v"
  for v :: "'a::len word" and y :: u8 and h :: u16 and d :: u32
  by (rule bit_word_eqI, auto simp: bit_simps drop_bit_eq_iff dest: bit_imp_le_length)+

text \<open>
  The same for encoders that list their fields in any order: each operand becomes a write into a zero
  word, and the ORs, associated to the left first, merge writes of disjoint fields.
\<close>

lemma or_put_zero:
  "get_field lo w v = 0 \<Longrightarrow> v OR put_field lo w x 0 = put_field lo w x v" for v x :: "'a::len word"
  by (rule bit_word_eqI) (auto simp: bit_simps get_field_zero_iff)

lemma mask_as_put: "x AND mask w = put_field 0 w x 0" for x :: "'a::len word"
  by (rule bit_word_eqI) (auto simp: bit_simps)

lemma ucast_put_zero: "ucast (put_field 0 w x 0) = put_field 0 w (ucast x) 0"
  by (rule bit_word_eqI) (auto simp: bit_simps dest: bit_imp_le_length)

lemma push_put_zero: "push_bit lo (put_field k w x 0) = put_field (lo + k) w x 0" for x :: "'a::len word"
  by (rule bit_word_eqI) (auto simp: bit_simps dest: bit_imp_le_length)

lemma push_whole:
  "push_bit lo (ucast h) = put_field lo 16 (ucast h) (0 :: 'a::len word)"
  "push_bit lo (ucast y) = put_field lo 8 (ucast y) (0 :: 'a::len word)"
  "push_bit lo (of_bool b) = put_field lo 1 (of_bool b) (0 :: 'a::len word)"
  for h :: u16 and y :: u8
  by (rule bit_word_eqI, auto simp: bit_simps dest: bit_imp_le_length)+

lemma whole_first:
  "lo \<ge> 16 \<Longrightarrow> ucast h OR put_field lo w x 0 = put_field lo w x (put_field 0 16 (ucast h) (0 :: 'a::len word))"
  "lo \<ge> 1 \<Longrightarrow> of_bool b OR put_field lo w x 0 = put_field lo w x (put_field 0 1 (of_bool b) (0 :: 'a::len word))"
  for h :: u16
  by (rule bit_word_eqI, auto simp: bit_simps dest: bit_imp_le_length)+

lemma whole_last:
  "get_field 0 16 v = 0 \<Longrightarrow> v OR ucast h = put_field 0 16 (ucast h) v"
  "\<not> bit v 0 \<Longrightarrow> v OR of_bool b = put_field 0 1 (of_bool b) v"
  for v :: "'a::len word" and h :: u16
  by (rule bit_word_eqI, auto simp: bit_simps get_field_zero_iff dest: bit_imp_le_length)+

lemma whole_under:
  "put_field lo w x (of_bool b) = put_field lo w x (put_field 0 1 (of_bool b) (0 :: 'a::len word))"
  "put_field lo w x (ucast h) = put_field lo w x (put_field 0 16 (ucast h) (0 :: 'a::len word))"
  for h :: u16
  by (rule bit_word_eqI, auto simp: bit_simps dest: bit_imp_le_length)+

lemmas field_algebra = or_put_zero mask_as_put ucast_put_zero push_put_zero push_whole whole_first whole_last
  whole_under

text \<open>Rewriting a builder to its shape: literal masks first, then the shape, then the width checks.\<close>

lemmas put_shape_simps = put_shapes put_shapes_wide order_refl len_num1 len_num0 len_bit0 len_bit1
  mult_1 numeral_times_numeral

subsection \<open>The literals of the source\<close>

lemma mask_literals [mask_words]:
  "(0x3 :: 'a::len word) = mask 2" "(0x7 :: 'a word) = mask 3" "(0xf :: 'a word) = mask 4"
  "(0xc :: 'a word) = push_bit 2 (mask 2)" "(0x1f :: 'a word) = mask 5" "(0x3f :: 'a word) = mask 6" "(0xff :: 'a word) = mask 8"
  "(0xfff :: 'a word) = mask 12" "(0xffff :: 'a word) = mask 16"
  "(0xfffff :: 'a word) = mask 20" "(0x1fffff :: 'a word) = mask 21"
  "(0x3ffffff :: 'a word) = mask 26" "(0x1fffffff :: 'a word) = mask 29"
  "(0xffffffff :: 'a word) = mask 32" "(0x3ffffffff :: 'a word) = mask 34"
  "(0x3fffffffff :: 'a word) = mask 38"
  "(0xffffffffff :: 'a word) = mask 40"
  "(0xffffffffff000 :: 'a word) = push_bit 12 (mask 40)"
  by (simp_all add: mask_numeral)

text \<open>A flag test \<open>v & (1 << k) != 0\<close>, with the shift written out or folded by hand.\<close>

lemma flag_tests [field_shapes]:
  "v AND push_bit k 1 \<noteq> 0 \<longleftrightarrow> bit v k"
  "v AND 1 \<noteq> 0 \<longleftrightarrow> bit v 0" "v AND 2 \<noteq> 0 \<longleftrightarrow> bit v 1" "v AND 4 \<noteq> 0 \<longleftrightarrow> bit v 2"
  "v AND 8 \<noteq> 0 \<longleftrightarrow> bit v 3" "v AND 0x10 \<noteq> 0 \<longleftrightarrow> bit v 4" "v AND 0x20 \<noteq> 0 \<longleftrightarrow> bit v 5"
  "v AND 0x40 \<noteq> 0 \<longleftrightarrow> bit v 6" "v AND 0x80 \<noteq> 0 \<longleftrightarrow> bit v 7"
  for v :: "'a::len word"
  using bit_iff_and_push_bit_not_eq_0 [of v k] bit_iff_and_push_bit_not_eq_0 [of v 0]
    bit_iff_and_push_bit_not_eq_0 [of v 1] bit_iff_and_push_bit_not_eq_0 [of v 2]
    bit_iff_and_push_bit_not_eq_0 [of v 3] bit_iff_and_push_bit_not_eq_0 [of v 4]
    bit_iff_and_push_bit_not_eq_0 [of v 5] bit_iff_and_push_bit_not_eq_0 [of v 6]
    bit_iff_and_push_bit_not_eq_0 [of v 7]
  by (simp_all add: push_bit_eq_mult)

text \<open>A flag constant \<open>1 << k\<close>.\<close>

lemma bit_flag: "k < LENGTH('a) \<Longrightarrow> bit (push_bit k 1 :: 'a::len word) n \<longleftrightarrow> n = k"
  by (auto simp: bit_simps)

text \<open>Page frames: the bits above the page offset, all of them or up to bit 51.\<close>

lemma page_frame:
  "x AND NOT 0xfff = push_bit 12 (get_field 12 52 x)"
  "x AND 0x000ffffffffff000 = push_bit 12 (get_field 12 40 x)"
  for x :: u64
  unfolding mask_words
  by (rule bit_word_eqI, auto simp: bit_simps split: if_splits dest: bit_imp_le_length)+

lemma page_frame_negative: "x AND - 4096 = push_bit 12 (get_field 12 52 x)" for x :: u64
  using page_frame(1) [of x] by simp

lemma page_frame_put:
  "(q AND 0xfff) OR (a AND NOT 0xfff) = put_field 12 52 (drop_bit 12 a) q"
  "(q AND NOT 0x000ffffffffff000) OR (a AND 0x000ffffffffff000) = put_field 12 40 (drop_bit 12 a) q"
  for a q :: u64
  unfolding mask_words
  by (rule bit_word_eqI, auto simp: bit_simps split: if_splits dest: bit_imp_le_length)+

text \<open>A code that fits its field needs no mask; setting a flag writes a one.\<close>

lemma put_code:
  fixes b :: u8
  assumes "take_bit w b = b"
  shows "(v AND NOT (push_bit lo (mask w))) OR push_bit lo (ucast b) = put_field lo w (ucast b) (v :: u64)"
  using put_shapes(2) [of v lo w b] assms by (simp add: take_bit_eq_mask)

lemma set_flag: "v OR push_bit k 1 = put_field k 1 1 v" for v :: u64
  by (rule bit_word_eqI) (auto simp: bit_simps)

text \<open>The right-aligned one-bit field is the bit.\<close>

lemma get_field_flag [simp]:
  "get_field k (Suc 0) v = 0 \<longleftrightarrow> \<not> bit v k"
  for v :: "'a::len word"
  by (auto simp: get_field_def take_bit_Suc bit_iff_odd_drop_bit odd_iff_mod_2_eq_one)

text \<open>Narrowing casts that lose nothing, and casts of masked operands.\<close>

lemma ucast_get_field [simp]:
  "w \<le> LENGTH('b) \<Longrightarrow>
   (ucast (ucast (get_field lo w v) :: 'b::len word) :: 'a word) = get_field lo w v"
  for v :: "'a::len word"
  by (rule bit_word_eqI) (auto simp: bit_simps)

lemma ucast_ucast_field [simp]:
  "LENGTH('b) \<le> LENGTH('a) \<Longrightarrow>
   (ucast (take_bit w (ucast x :: 'a::len word)) :: 'b::len word) = take_bit w x"
  for x :: "'b::len word"
  by (rule bit_word_eqI) (auto simp: bit_simps)

lemma take_bit_ucast_field [simp]:
  "take_bit w (ucast (get_field lo w v) :: 'b::len word) = ucast (get_field lo w v)"
  for v :: "'a::len word"
  by (rule bit_word_eqI) (auto simp: bit_simps)

lemma take_bit_ucast_full [simp]:
  "LENGTH('b) \<le> w \<Longrightarrow> take_bit w (ucast y :: 'a::len word) = ucast y" for y :: "'b::len word"
  by (rule bit_word_eqI) (auto simp: bit_simps dest: bit_imp_le_length)

lemma ucast_down_up [simp]:
  "LENGTH('b) \<le> LENGTH('a) \<Longrightarrow> (ucast (ucast x :: 'a::len word) :: 'b::len word) = x"
  by (rule bit_word_eqI) (auto simp: bit_simps dest: bit_imp_le_length)

section \<open>Little-endian byte strings\<close>

text \<open>\<open>to_le_bytes\<close> and \<open>from_le_bytes\<close> of the unsigned integers.\<close>

definition to_le_bytes :: "'a::len word \<Rightarrow> bytes" where
  "to_le_bytes w = map (\<lambda>i. ucast (drop_bit (8 * i) w)) [0..<LENGTH('a) div 8]"

definition from_le_bytes :: "bytes \<Rightarrow> 'a::len word" where
  "from_le_bytes bs = foldr (\<lambda>b acc. ucast b OR push_bit 8 acc) bs 0"

lemma length_to_le_bytes [simp]: "length (to_le_bytes (w :: 'a::len word)) = LENGTH('a) div 8"
  by (simp add: to_le_bytes_def)

lemma bit_from_le_bytes:
  "bit (from_le_bytes bs :: 'a::len word) n \<longleftrightarrow>
     n < LENGTH('a) \<and> n div 8 < length bs \<and> bit (bs ! (n div 8)) (n mod 8)"
proof (induction bs arbitrary: n)
  case Nil
  then show ?case by (simp add: from_le_bytes_def)
next
  case (Cons b bs)
  have "bit (from_le_bytes (b # bs) :: 'a word) n \<longleftrightarrow>
      n < LENGTH('a) \<and> (bit b n \<or> 8 \<le> n \<and> bit (from_le_bytes bs :: 'a word) (n - 8))"
    by (auto simp: from_le_bytes_def bit_simps dest: bit_imp_le_length)
  also have "\<dots> \<longleftrightarrow> n < LENGTH('a) \<and> n div 8 < length (b # bs) \<and>
      bit ((b # bs) ! (n div 8)) (n mod 8)"
  proof (cases "n < 8")
    case True
    then show ?thesis by simp
  next
    case False
    then have "n div 8 = Suc ((n - 8) div 8)" "n mod 8 = (n - 8) mod 8"
      using le_div_geq [of 8 n] le_mod_geq [of 8 n] by auto
    moreover have "\<not> bit b n"
      using False bit_imp_le_length [of b n] by auto
    ultimately show ?thesis
      using False Cons.IH [of "n - 8"] by auto
  qed
  finally show ?case .
qed

lemma from_to_le_bytes [simp]:
  "8 dvd LENGTH('a) \<Longrightarrow> from_le_bytes (to_le_bytes w) = w" for w :: "'a::len word"
proof (rule bit_word_eqI)
  fix n assume "8 dvd LENGTH('a)" "n < LENGTH('a)"
  then have "n div 8 < LENGTH('a) div 8"
    by (auto elim!: dvdE simp: less_mult_imp_div_less mult.commute)
  then show "bit (from_le_bytes (to_le_bytes w) :: 'a word) n \<longleftrightarrow> bit w n"
    using \<open>n < LENGTH('a)\<close>
    by (simp add: bit_from_le_bytes to_le_bytes_def bit_simps)
qed

lemma to_from_le_bytes:
  "8 dvd LENGTH('a) \<Longrightarrow> length bs = LENGTH('a) div 8 \<Longrightarrow>
   to_le_bytes (from_le_bytes bs :: 'a::len word) = bs"
proof (rule nth_equalityI)
  assume "8 dvd LENGTH('a)" and len: "length bs = LENGTH('a) div 8"
  then show "length (to_le_bytes (from_le_bytes bs :: 'a word)) = length bs" by simp
  fix i assume "i < length (to_le_bytes (from_le_bytes bs :: 'a word))"
  then have i: "i < LENGTH('a) div 8" by simp
  show "to_le_bytes (from_le_bytes bs :: 'a word) ! i = bs ! i"
  proof (rule bit_word_eqI)
    fix n assume "n < LENGTH(8)"
    then have "8 * i + n < LENGTH('a)" using i by simp
    with i len \<open>n < LENGTH(8)\<close>
    show "bit (to_le_bytes (from_le_bytes bs :: 'a word) ! i) n \<longleftrightarrow> bit (bs ! i) n"
      by (simp add: to_le_bytes_def bit_from_le_bytes bit_simps)
  qed
qed

section \<open>Slices\<close>

text \<open>\<open>raw.get(a..b)\<close> and \<open>raw.get(a..)\<close>: \<open>None\<close> out of range, never a panic.\<close>

definition slice_get :: "'a list \<Rightarrow> nat \<Rightarrow> nat \<Rightarrow> 'a list option" where
  "slice_get xs a b = (if a \<le> b \<and> b \<le> length xs then Some (take (b - a) (drop a xs)) else None)"

definition slice_from :: "'a list \<Rightarrow> nat \<Rightarrow> 'a list option" where
  "slice_from xs a = (if a \<le> length xs then Some (drop a xs) else None)"

definition byte_get :: "'a list \<Rightarrow> nat \<Rightarrow> 'a option" where
  "byte_get xs i = (if i < length xs then Some (xs ! i) else None)"

definition unwrap_or :: "'a option \<Rightarrow> 'a \<Rightarrow> 'a" where
  "unwrap_or m d = (case m of None \<Rightarrow> d | Some x \<Rightarrow> x)"

lemma unwrap_or_simps [simp]: "unwrap_or None d = d" "unwrap_or (Some x) d = x"
  by (simp_all add: unwrap_or_def)

text \<open>A field laid out at offset \<open>a\<close> of a byte string is read back by a slice.\<close>

lemma slice_get_append [simp]:
  "length xs = a \<Longrightarrow> a + length ys = b \<Longrightarrow> slice_get (xs @ ys @ zs) a b = Some ys"
  by (auto simp: slice_get_def)

text \<open>\<open>iter().fold(0u8, |a, b| a.wrapping_add(*b))\<close>: the ACPI byte sum.\<close>

definition byte_sum :: "bytes \<Rightarrow> u8" where
  "byte_sum bs = foldl (+) 0 bs"

lemma foldl_plus_word: "foldl (+) a bs = a + sum_list bs" for a :: "'a::len word"
  by (induction bs arbitrary: a) (simp_all add: add.assoc)

lemma byte_sum_eq_sum_list: "byte_sum bs = sum_list bs"
  by (simp add: byte_sum_def foldl_plus_word)

section \<open>Flag tables\<close>

text \<open>Reading a flag of a \<^verbatim>\<open>bitflags\<close> table, and \<^verbatim>\<open>contains\<close>.\<close>

definition flag :: "(string \<times> 'a::len word) list \<Rightarrow> string \<Rightarrow> 'a word" where
  "flag tbl name = (case map_of tbl name of Some v \<Rightarrow> v | None \<Rightarrow> 0)"

definition contains_flags :: "'a::len word \<Rightarrow> 'a word \<Rightarrow> bool" where
  "contains_flags bits flags \<longleftrightarrow> bits AND flags = flags"

end
