(* ===== verification/Bits.thy ===== *)
theory Bits
  imports Prelude
begin

text \<open>
  \<^verbatim>\<open>intel-iommu/src/bits.rs\<close> and \<^verbatim>\<open>amd-iommu/src/bits.rs\<close>: the bit-extraction helpers every
  decoder of the two crates uses.  \<open>extract_bits\<close> is the value the function returns,
  \<open>extract_bits_run\<close> adds its two \<open>debug_assert!\<close>s and the shift check of the debug profile.
  With the literal bit positions of the register decoders the checks always pass; the page
  walkers compute their positions, and there the checked form is used.
\<close>

definition extract_bits :: "u64 \<Rightarrow> u8 \<Rightarrow> u8 \<Rightarrow> u64" where
  "extract_bits value hi lo =
     (let width = (ucast (hi - lo + 1) :: u32);
          msk = (if 64 \<le> width then - 1 else push_bit (unat width) 1 - 1)
      in drop_bit (unat lo) value AND msk)"

definition extract_bits_run :: "u64 \<Rightarrow> u8 \<Rightarrow> u8 \<Rightarrow> u64 run" where
  "extract_bits_run value hi lo =
     (if \<not> lo \<le> hi then Inl AssertFailed
      else if \<not> hi - lo < 64 then Inl AssertFailed
      else if \<not> lo < 64 then Inl ShiftOverflow
      else Inr (extract_bits value hi lo))"

definition amd_extract_bits :: "u64 \<Rightarrow> u8 \<Rightarrow> u8 \<Rightarrow> u64" where
  "amd_extract_bits value hi lo =
     (let width = (ucast (hi - lo + 1) :: u32);
          msk = (if 64 \<le> width then - 1 else push_bit (unat width) 1 - 1)
      in drop_bit (unat lo) value AND msk)"

definition amd_extract_bits_run :: "u64 \<Rightarrow> u8 \<Rightarrow> u8 \<Rightarrow> u64 run" where
  "amd_extract_bits_run value hi lo =
     (if \<not> lo \<le> hi then Inl AssertFailed
      else if \<not> hi - lo < 64 then Inl AssertFailed
      else if \<not> lo < 64 then Inl ShiftOverflow
      else Inr (amd_extract_bits value hi lo))"

definition bits_of :: "u8 \<Rightarrow> u8 \<Rightarrow> u32" where
  "bits_of hi lo = ucast (hi - lo + 1)"

lemma amd_extract_bits_eq [simp]: "amd_extract_bits = extract_bits"
  by (simp add: fun_eq_iff amd_extract_bits_def extract_bits_def)

lemma amd_extract_bits_run_eq [simp]: "amd_extract_bits_run = extract_bits_run"
  by (simp add: fun_eq_iff amd_extract_bits_run_def extract_bits_run_def)

lemma unat_field_width:
  "lo \<le> hi \<Longrightarrow> unat hi - unat lo < 64 \<Longrightarrow>
   unat (ucast (hi - lo + 1 :: u8) :: u32) = Suc (unat hi - unat lo)"
  by (simp add: unsigned_ucast_eq unat_word_ariths unat_sub word_less_nat_alt
      word_le_nat_alt take_bit_nat_eq_self_iff)

text \<open>The value is the bit field \<open>hi..=lo\<close>, right aligned.\<close>

lemma extract_bits_in_width:
  assumes "lo \<le> hi" "unat hi - unat lo < 64"
  shows "extract_bits v hi lo = get_field (unat lo) (Suc (unat hi - unat lo)) v"
proof -
  define w where "w = (ucast (hi - lo + 1) :: u32)"
  have w: "unat w = Suc (unat hi - unat lo)"
    using unat_field_width [OF assms] by (simp add: w_def)
  have "drop_bit (unat lo) v AND (if 64 \<le> w then - 1 else push_bit (unat w) 1 - 1)
      = take_bit (unat w) (drop_bit (unat lo) v)"
  proof (cases "64 \<le> w")
    case True
    then have "64 \<le> unat w" by (simp add: word_le_nat_alt)
    then have "take_bit (unat w) (drop_bit (unat lo) v) = drop_bit (unat lo) v"
      by (intro bit_word_eqI) (auto simp: bit_simps)
    with True show ?thesis by simp
  next
    case False
    have "push_bit (unat w) (1 :: u64) - 1 = mask (unat w)"
      by (simp add: mask_eq_exp_minus_1 push_bit_eq_mult)
    with False show ?thesis by (simp add: take_bit_eq_mask)
  qed
  then show ?thesis
    by (simp add: extract_bits_def get_field_def Let_def w flip: w_def)
qed

lemma extract_bits_field [field_shapes]:
  assumes "lo \<le> hi" "hi < 64"
  shows "extract_bits v hi lo = get_field (unat lo) (Suc (unat hi - unat lo)) v"
  by (rule extract_bits_in_width) (use assms in \<open>auto simp: word_less_nat_alt\<close>)

lemma extract_bits_at:
  "lo \<le> hi \<Longrightarrow> hi < 64 \<Longrightarrow>
   extract_bits v hi lo = get_field (unat lo) (unat hi + 1 - unat lo) v"
  by (simp add: extract_bits_field Suc_diff_le word_le_nat_alt)

lemma extract_bits_run_ok:
  "lo \<le> hi \<Longrightarrow> hi < 64 \<Longrightarrow> extract_bits_run v hi lo = Inr (extract_bits v hi lo)"
  by (auto simp: extract_bits_run_def word_less_nat_alt word_le_nat_alt unat_sub)

lemma bit_extract_bits:
  "lo \<le> hi \<Longrightarrow> hi < 64 \<Longrightarrow>
   bit (extract_bits v hi lo) n \<longleftrightarrow> n \<le> unat hi - unat lo \<and> bit v (unat lo + n)"
  by (auto simp: extract_bits_field bit_simps)

text \<open>C38: \<open>extract_bits(v, hi, lo)\<close> of both crates, for every input: it fails an assertion when the
  bounds are reversed or more than 63 apart, overflows the shift when both lie beyond bit 63, and otherwise
  returns the number \<open>v div 2^lo mod 2^(hi - lo + 1)\<close>; a field that reaches past bit 63 reads zeros there.\<close>

theorem extract_bits_meaning:
  "extract_bits_run v hi lo =
     (if hi < lo \<or> 64 \<le> unat hi - unat lo then Inl AssertFailed
      else if 64 \<le> lo then Inl ShiftOverflow
      else Inr (of_nat (unat v div 2 ^ unat lo mod 2 ^ (unat hi - unat lo + 1)))) \<and>
   amd_extract_bits_run v hi lo = extract_bits_run v hi lo"
proof -
  have "extract_bits v hi lo = of_nat (unat v div 2 ^ unat lo mod 2 ^ (unat hi - unat lo + 1))"
    if "lo \<le> hi" "unat hi - unat lo < 64"
  proof -
    have "unat (extract_bits v hi lo) = unat v div 2 ^ unat lo mod 2 ^ (unat hi - unat lo + 1)"
      unfolding extract_bits_in_width [OF that] get_field_def unsigned_take_bit_eq unat_drop_bit_eq
      by (simp add: take_bit_eq_mod drop_bit_eq_div)
    then show ?thesis by (metis of_nat_unat ucast_id)
  qed
  moreover have "hi - lo < 64 \<longleftrightarrow> unat hi - unat lo < 64" if "lo \<le> hi"
    using that by (simp add: word_less_nat_alt unat_sub)
  ultimately show ?thesis
    by (auto simp: extract_bits_run_def not_le not_less)
qed

end
