(* ===== verification/Page_Walk.thy ===== *)
theory Page_Walk
  imports Bits
begin

text \<open>
  What a radix-tree page walk of either crate promises, independent of its entry format: the
  abstract translation relation \<open>walks\<close>, its laws (exactly one outcome, level bounds, the
  outcome depends only on the page number), and the contract \<open>radix_walk\<close> under which a walk
  loop computes it.
\<close>

section \<open>The abstract translation\<close>

text \<open>Levels count from 1 (4 KiB leaves); level \<open>l\<close> translates the 9 bits above its shift.\<close>

definition level_bits :: "nat \<Rightarrow> nat" where
  "level_bits l = 12 + 9 * (l - 1)"

definition pa_mask :: u64 where
  "pa_mask = push_bit 12 (mask 40)"

definition entry_addr :: "u64 \<Rightarrow> u64 \<Rightarrow> nat \<Rightarrow> u64" where
  "entry_addr table va l = table + push_bit 3 (get_field (level_bits l) 9 va)"

datatype outcome = Fault nat | Leaf nat u64

text \<open>
  One walk from a table at some level: it faults at a non-present entry, ends at a present entry
  that is a superpage or at level 1, and otherwise descends to the table the entry points to.
\<close>

inductive walks :: "(u64 \<Rightarrow> u64) \<Rightarrow> u64 \<Rightarrow> u64 \<Rightarrow> nat \<Rightarrow> outcome \<Rightarrow> bool"
  for fetch :: "u64 \<Rightarrow> u64" and va :: u64 where
  fault: "e = fetch (entry_addr table va (Suc l)) \<Longrightarrow> \<not> bit e 0 \<Longrightarrow>
    walks fetch va table (Suc l) (Fault (Suc l))"
| leaf: "e = fetch (entry_addr table va (Suc l)) \<Longrightarrow> bit e 0 \<Longrightarrow> bit e 7 \<or> l = 0 \<Longrightarrow>
    walks fetch va table (Suc l) (Leaf (Suc l) e)"
| descend: "e = fetch (entry_addr table va (Suc l)) \<Longrightarrow> bit e 0 \<Longrightarrow> \<not> bit e 7 \<Longrightarrow>
    walks fetch va (e AND pa_mask) l r \<Longrightarrow> walks fetch va table (Suc l) r"

inductive_cases walks_SucE: "walks fetch va table (Suc l) r"
inductive_cases walks_zeroE [elim!]: "walks fetch va table 0 r"

inductive_simps walks_Suc_iff: "walks fetch va table (Suc l) r"

lemma walks_total: "0 < l \<Longrightarrow> \<exists>r. walks fetch va table l r"
proof (induction l arbitrary: table)
  case (Suc l)
  let ?e = "fetch (entry_addr table va (Suc l))"
  show ?case
  proof (cases "bit ?e 0 \<and> \<not> bit ?e 7 \<and> 0 < l")
    case True
    with Suc.IH [of "?e AND pa_mask"] show ?thesis
      by (auto intro: walks.descend [OF refl])
  next
    case False
    then show ?thesis
      using walks.fault [OF refl, of fetch table va l] walks.leaf [OF refl, of fetch table va l]
      by blast
  qed
qed simp

lemma walks_unique: "walks fetch va table l r \<Longrightarrow> walks fetch va table l r' \<Longrightarrow> r = r'"
proof (induction arbitrary: r' rule: walks.induct)
  case (fault e table l)
  then show ?case by (auto elim: walks_SucE)
next
  case (leaf e table l)
  from leaf.prems leaf.hyps show ?case by (auto elim: walks_SucE)
next
  case (descend e table l r)
  from descend.prems descend.hyps have "walks fetch va (e AND pa_mask) l r'"
    by (auto simp: walks_Suc_iff)
  then show ?case by (rule descend.IH)
qed

lemma walks_leaf: "walks fetch va table l r \<Longrightarrow> r = Leaf k e \<Longrightarrow>
    1 \<le> k \<and> k \<le> l \<and> bit e 0 \<and> (bit e 7 \<or> k = 1)"
  by (induction rule: walks.induct) auto

lemma walks_fault: "walks fetch va table l r \<Longrightarrow> r = Fault k \<Longrightarrow> 1 \<le> k \<and> k \<le> l"
  by (induction rule: walks.induct) auto

subsection \<open>The outcome depends on the page number only\<close>

lemma get_field_cong:
  "(\<And>n. lo \<le> n \<Longrightarrow> n < lo + w \<Longrightarrow> bit v n \<longleftrightarrow> bit v' n) \<Longrightarrow> get_field lo w v = get_field lo w v'"
  for v v' :: "'a::len word"
  by (rule bit_word_eqI) (auto simp: bit_simps)

lemma entry_addr_cong:
  "(\<And>n. level_bits l \<le> n \<Longrightarrow> n < level_bits l + 9 \<Longrightarrow> bit va n \<longleftrightarrow> bit va' n) \<Longrightarrow>
   entry_addr table va l = entry_addr table va' l"
  using get_field_cong [of "level_bits l" 9 va va'] by (simp add: entry_addr_def)

lemma level_bits_Suc: "level_bits (Suc (Suc l)) = level_bits (Suc l) + 9"
  by (simp add: level_bits_def)

lemma level_bits_mono: "k \<le> l \<Longrightarrow> level_bits k \<le> level_bits l"
  by (auto simp: level_bits_def)

text \<open>
  Two addresses that agree above the page offset of the leaf reach the same leaf; bits above the
  width of the tree play no role.
\<close>

lemma walks_same_page:
  "walks fetch va table l r \<Longrightarrow> r = Leaf k e \<Longrightarrow>
   (\<And>n. level_bits k \<le> n \<Longrightarrow> n < level_bits l + 9 \<Longrightarrow> bit va n \<longleftrightarrow> bit va' n) \<Longrightarrow>
   walks fetch va' table l (Leaf k e)"
proof (induction rule: walks.induct)
  case (leaf e' table l)
  then have "entry_addr table va (Suc l) = entry_addr table va' (Suc l)"
    by (intro entry_addr_cong) simp
  then have "e' = fetch (entry_addr table va' (Suc l))" using leaf.hyps(1) by simp
  then have "walks fetch va' table (Suc l) (Leaf (Suc l) e')"
    using leaf.hyps(2,3) by (rule walks.leaf)
  then show ?case using leaf.prems(1) by simp
next
  case (descend e' table l r)
  then have "k \<le> l" using walks_leaf by blast
  then obtain l' where l': "l = Suc l'" using descend.hyps(4) by (cases l) auto
  have "level_bits k \<le> level_bits (Suc l)" using \<open>k \<le> l\<close> by (simp add: level_bits_mono)
  then have "entry_addr table va (Suc l) = entry_addr table va' (Suc l)"
    using descend.prems(2) by (intro entry_addr_cong) simp
  moreover have "walks fetch va' (e' AND pa_mask) l (Leaf k e)"
    using descend.IH descend.prems by (simp add: level_bits_Suc l')
  ultimately show ?case
    using descend.hyps walks.descend [OF refl, of fetch table va' l] by simp
qed simp

lemma walks_same_index:
  "walks fetch va table l r \<Longrightarrow>
   (\<And>n. 12 \<le> n \<Longrightarrow> n < level_bits l + 9 \<Longrightarrow> bit va n \<longleftrightarrow> bit va' n) \<Longrightarrow>
   walks fetch va' table l r"
proof (induction rule: walks.induct)
  case (fault e table l)
  then have "entry_addr table va (Suc l) = entry_addr table va' (Suc l)"
    by (intro entry_addr_cong) (simp add: level_bits_def)
  with fault show ?case by (auto intro: walks.fault)
next
  case (leaf e table l)
  then have "entry_addr table va (Suc l) = entry_addr table va' (Suc l)"
    by (intro entry_addr_cong) (simp add: level_bits_def)
  with leaf show ?case by (auto intro: walks.leaf)
next
  case (descend e table l r)
  then have "entry_addr table va (Suc l) = entry_addr table va' (Suc l)"
    by (intro entry_addr_cong) (simp add: level_bits_def)
  moreover have "walks fetch va' (e AND pa_mask) l r"
    using descend.hyps(4) descend.IH descend.prems
    by (cases l) (auto simp: level_bits_Suc)
  ultimately show ?case
    using descend.hyps(1-3) walks.descend [OF refl, of fetch table va' l r] by simp
qed

subsection \<open>Walking a chain of table entries\<close>

text \<open>
  \<open>chained fetch va tables l\<close>: from the first table, each entry of the path of \<open>va\<close> is present,
  not a superpage and points to the next table; the last one is the table of level \<open>l\<close>.
\<close>

fun chained :: "(u64 \<Rightarrow> u64) \<Rightarrow> u64 \<Rightarrow> u64 \<Rightarrow> u64 list \<Rightarrow> nat \<Rightarrow> bool" where
  "chained fetch va table [] l = True"
| "chained fetch va table (t # ts) l =
     (let e = fetch (entry_addr table va (l + length (t # ts)))
      in bit e 0 \<and> \<not> bit e 7 \<and> e AND pa_mask = t \<and> chained fetch va t ts l)"

lemma chainedI:
  "(\<And>i. i < length ts \<Longrightarrow>
      fetch (entry_addr ((table # ts) ! i) va (l + length ts - i)) = enc (ts ! i)) \<Longrightarrow>
   (\<And>t. t \<in> set ts \<Longrightarrow> bit (enc t) 0 \<and> \<not> bit (enc t) 7 \<and> enc t AND pa_mask = t) \<Longrightarrow>
   chained fetch va table ts l"
proof (induction ts arbitrary: table)
  case (Cons t ts)
  have "fetch (entry_addr table va (l + length (t # ts))) = enc t"
    using Cons.prems(1) [of 0] by simp
  moreover have "chained fetch va t ts l"
  proof (rule Cons.IH)
    show "fetch (entry_addr ((t # ts) ! i) va (l + length ts - i)) = enc (ts ! i)"
      if "i < length ts" for i
      using Cons.prems(1) [of "Suc i"] that by simp
  qed (use Cons.prems(2) in simp)
  ultimately show ?case using Cons.prems(2) [of t] by (simp add: Let_def)
qed simp

lemma walks_chained:
  "chained fetch va table ts (Suc l) \<Longrightarrow> walks fetch va (last (table # ts)) (Suc l) r \<Longrightarrow>
   walks fetch va table (Suc l + length ts) r"
proof (induction ts arbitrary: table)
  case (Cons t ts)
  then have "walks fetch va t (Suc l + length ts) r" by (auto simp: Let_def)
  with Cons.prems(1) show ?case
    by (auto simp: Let_def intro: walks.descend [OF refl])
qed simp

subsection \<open>The memory a walk reads\<close>

text \<open>The entries a walk reads, in order: at most one per level, whatever the tables hold.\<close>

fun walk_reads :: "(u64 \<Rightarrow> u64) \<Rightarrow> u64 \<Rightarrow> u64 \<Rightarrow> nat \<Rightarrow> u64 list" where
  "walk_reads fetch va table 0 = []"
| "walk_reads fetch va table (Suc l) =
     (let a = entry_addr table va (Suc l); e = fetch a
      in a # (if bit e 0 \<and> \<not> bit e 7 then walk_reads fetch va (e AND pa_mask) l else []))"

lemma length_walk_reads: "length (walk_reads fetch va table l) \<le> l"
  by (induction l arbitrary: table) (auto simp: Let_def)

lemma walks_reads:
  "walks fetch va table l r \<Longrightarrow> \<forall>a \<in> set (walk_reads fetch va table l). fetch' a = fetch a \<Longrightarrow>
   walks fetch' va table l r"
proof (induction rule: walks.induct)
  case (fault e table l)
  then show ?case by (auto simp: Let_def intro: walks.fault)
next
  case (leaf e table l)
  then show ?case by (auto simp: Let_def intro: walks.leaf)
next
  case (descend e table l r)
  then show ?case by (auto simp: Let_def intro!: walks.descend [OF refl])
qed

text \<open>The leaf a walk returns is the last entry it read, and its level counts the entries left unread.\<close>

lemma walks_leaf_read:
  "walks fetch va table l r \<Longrightarrow> r = Leaf k e \<Longrightarrow>
   e = fetch (last (walk_reads fetch va table l)) \<and> k + length (walk_reads fetch va table l) = Suc l"
proof (induction rule: walks.induct)
  case (descend e' table l r)
  then have "l \<noteq> 0" by (cases l) auto
  then have "walk_reads fetch va (e' AND pa_mask) l \<noteq> []" by (cases l) (simp_all add: Let_def)
  with descend show ?case by (simp add: Let_def)
qed (auto simp: Let_def)

subsection \<open>Updating the last entry of a walk\<close>

text \<open>
  The last entry a walk reads, when it was not read before, decides the outcome alone: up to the table that
  holds it, a walk over the updated memory takes the same path.
\<close>

lemma walk_update_path:
  assumes "walk_reads fetch va table l = as @ [a]" "a \<notin> set as" "\<And>x. x \<noteq> a \<Longrightarrow> fetch' x = fetch x"
  obtains t n where "n + length as = l" "0 < n" "a = entry_addr t va n"
    "\<And>r. walks fetch' va t n r \<Longrightarrow> walks fetch' va table l r"
proof -
  have "\<exists>t n. n + length as = l \<and> 0 < n \<and> a = entry_addr t va n \<and>
      (\<forall>r. walks fetch' va t n r \<longrightarrow> walks fetch' va table l r)"
    using assms(1,2)
  proof (induction l arbitrary: table as)
    case (Suc l)
    let ?b = "entry_addr table va (Suc l)"
    show ?case
    proof (cases as)
      case Nil
      then have "a = ?b" using Suc.prems(1) by (simp add: Let_def)
      then show ?thesis using Nil by (intro exI [of _ table] exI [of _ "Suc l"]) simp
    next
      case (Cons b as')
      then have b: "b = ?b" "bit (fetch ?b) 0" "\<not> bit (fetch ?b) 7"
        and rest: "walk_reads fetch va (fetch ?b AND pa_mask) l = as' @ [a]"
        using Suc.prems(1) by (auto simp: Let_def split: if_splits)
      have "a \<notin> set as'" using Suc.prems(2) Cons by simp
      from Suc.IH [OF rest this] obtain t n where "n + length as' = l" "0 < n" "a = entry_addr t va n"
        "\<forall>r. walks fetch' va t n r \<longrightarrow> walks fetch' va (fetch ?b AND pa_mask) l r"
        by blast
      moreover have "fetch' ?b = fetch ?b" using Suc.prems(2) Cons b(1) assms(3) by auto
      ultimately show ?thesis
        using b walks.descend [OF refl, of fetch' table va l] Cons
        by (intro exI [of _ t] exI [of _ n]) simp
    qed
  qed simp
  then show thesis using that by blast
qed

lemma walks_updated:
  assumes "walk_reads fetch va table l = as @ [a]" "a \<notin> set as" "n = l - length as"
  shows "0 < n" "n \<le> l" "\<not> bit e 0 \<Longrightarrow> walks (fetch(a := e)) va table l (Fault n)"
    "bit e 0 \<Longrightarrow> bit e 7 \<or> n = 1 \<Longrightarrow> walks (fetch(a := e)) va table l (Leaf n e)"
proof -
  obtain t k where t: "k + length as = l" "0 < k" "a = entry_addr t va k"
    and lift: "\<And>r. walks (fetch(a := e)) va t k r \<Longrightarrow> walks (fetch(a := e)) va table l r"
    by (rule walk_update_path [OF assms(1,2), of "fetch(a := e)"]) auto
  obtain j where n: "k = n" "n = Suc j" using t(1,2) assms(3) by (cases n) auto
  show "0 < n" "n \<le> l" using t(1) n by auto
  have entry: "e = (fetch(a := e)) (entry_addr t va (Suc j))" using t(3) n by simp
  show "walks (fetch(a := e)) va table l (Fault n)" if "\<not> bit e 0"
    unfolding n(1) [symmetric] by (rule lift) (simp only: n, rule walks.fault [where e = e], use entry that in auto)
  show "walks (fetch(a := e)) va table l (Leaf n e)" if "bit e 0" "bit e 7 \<or> n = 1"
    unfolding n(1) [symmetric] by (rule lift) (simp only: n, rule walks.leaf [where e = e], use entry that n in auto)
qed

subsection \<open>Tables with known leaves\<close>

text \<open>
  \<open>confined fetch leaf l table\<close>: every leaf below the table, which is of level \<open>l\<close>, satisfies \<open>leaf\<close>,
  given its level; all 512 entries of each table are looked at, whether an address selects them or not.
\<close>

fun confined :: "(u64 \<Rightarrow> u64) \<Rightarrow> (nat \<Rightarrow> u64 \<Rightarrow> bool) \<Rightarrow> nat \<Rightarrow> u64 \<Rightarrow> bool" where
  "confined fetch leaf 0 table = True"
| "confined fetch leaf (Suc l) table =
     list_all (\<lambda>i. let e = fetch (table + 8 * of_nat i) in
       \<not> bit e 0 \<or> (if bit e 7 \<or> l = 0 then leaf (Suc l) e else confined fetch leaf l (e AND pa_mask))) [0..<512]"

lemma entry_addr_slot: "\<exists>i < 512. entry_addr table va l = table + 8 * of_nat i"
proof (intro exI [of _ "unat (get_field (level_bits l) 9 va)"] conjI)
  have "get_field (level_bits l) 9 va = take_bit 9 (get_field (level_bits l) 9 va)"
    by (rule bit_word_eqI) (auto simp: bit_simps)
  then have "unat (get_field (level_bits l) 9 va) = take_bit 9 (unat (get_field (level_bits l) 9 va))"
    by (metis unsigned_take_bit_eq)
  then show "unat (get_field (level_bits l) 9 va) < 512"
    using take_bit_nat_less_exp [of 9 "unat (get_field (level_bits l) 9 va)"] by simp
qed (simp add: entry_addr_def push_bit_eq_mult mult.commute)

lemma confined_entry:
  "confined fetch leaf (Suc l) table \<Longrightarrow> e = fetch (entry_addr table va k) \<Longrightarrow> bit e 0 \<Longrightarrow>
   (if bit e 7 \<or> l = 0 then leaf (Suc l) e else confined fetch leaf l (e AND pa_mask))"
  using entry_addr_slot [of table va k] by (auto simp: list_all_iff Let_def)

lemma walks_confined:
  "walks fetch va table l r \<Longrightarrow> r = Leaf k e \<Longrightarrow> confined fetch leaf l table \<Longrightarrow> leaf k e"
proof (induction rule: walks.induct)
  case (leaf e' table l)
  then show ?case using confined_entry [OF leaf.prems(2) leaf.hyps(1,2)] by auto
next
  case (descend e' table l r)
  then have "l \<noteq> 0" by (cases l) auto
  then show ?case using descend confined_entry [OF descend.prems(2) descend.hyps(1,2)] by simp
qed simp

section \<open>The contract of a walk loop\<close>

text \<open>No overflow of the entry address: the table starts below the last page of the space.\<close>

definition table_fits :: "u64 \<Rightarrow> bool" where
  "table_fits table \<longleftrightarrow> unat table + 4088 < 2 ^ 64"

lemma pa_mask_fits [simp]: "table_fits (e AND pa_mask)"
proof -
  have "e AND pa_mask \<le> pa_mask"
    by (metis and.commute word_and_le1)
  then have "unat (e AND pa_mask) \<le> unat pa_mask" by (simp add: word_le_nat_alt)
  also have "unat pa_mask = 0x000ffffffffff000" by (simp add: pa_mask_def mask_numeral)
  finally show ?thesis by (simp add: table_fits_def)
qed

text \<open>Every page-aligned table does.\<close>

lemma aligned_fits: "take_bit 12 table = 0 \<Longrightarrow> table_fits table"
proof -
  assume "take_bit 12 table = 0"
  then have "take_bit 12 (unat table) = 0" by (simp flip: unsigned_take_bit_eq)
  then have "unat table mod 4096 = 0" by (simp add: take_bit_eq_mod)
  then obtain q where q: "unat table = 4096 * q" by auto
  moreover have "unat table < 4096 * 2 ^ 52" using unat_bound [of table] by simp
  ultimately have "q + 1 \<le> 2 ^ 52" by simp
  then show ?thesis using q by (simp add: table_fits_def)
qed

lemma unat_index_offset: "unat (push_bit 3 (get_field lo 9 (v :: u64))) \<le> 4088"
proof -
  have m: "(4088 :: u64) = push_bit 3 (mask 9)" by (simp add: mask_numeral)
  have "push_bit 3 (get_field lo 9 v) = push_bit 3 (get_field lo 9 v) AND 4088"
    unfolding m by (rule bit_word_eqI) (auto simp: bit_simps)
  then have "push_bit 3 (get_field lo 9 v) \<le> 4088"
    by (metis word_and_le1 and.commute)
  then show ?thesis by (simp add: word_le_nat_alt)
qed

text \<open>The sum that addresses an entry overflows only for a table that does not fit.\<close>

definition entry_overflows :: "u64 \<Rightarrow> u64 \<Rightarrow> nat \<Rightarrow> bool" where
  "entry_overflows table va l \<longleftrightarrow> 2 ^ 64 \<le> unat table + 8 * unat (get_field (level_bits l) 9 va)"

lemma unat_index_scaled: "unat (push_bit 3 (get_field lo 9 (v :: u64))) = 8 * unat (get_field lo 9 v)"
proof -
  have "unat (get_field lo 9 v) < 2 ^ 9"
    using take_bit_nat_less_exp [of 9] unfolding get_field_def unsigned_take_bit_eq .
  then have "8 * unat (get_field lo 9 v) < 2 ^ 64" by simp
  then show ?thesis by (simp add: push_bit_eq_mult unat_word_ariths take_bit_nat_eq_self mult.commute)
qed

lemma entry_addr_overflow:
  "add_chk table (push_bit 3 (get_field (level_bits l) 9 va)) =
     (if entry_overflows table va l then Inl AddOverflow else Inr (entry_addr table va l))"
  using unat_index_scaled [of "level_bits l" va]
  by (simp add: add_chk_def entry_addr_def entry_overflows_def)

lemma fits_no_overflow: "table_fits table \<Longrightarrow> \<not> entry_overflows table va l"
  using unat_index_offset [of "level_bits l" va] unat_index_scaled [of "level_bits l" va]
  by (simp add: table_fits_def entry_overflows_def)

lemma entry_addr_chk:
  "table_fits table \<Longrightarrow>
   add_chk table (push_bit 3 (get_field (level_bits l) 9 va)) = Inr (entry_addr table va l)"
  using unat_index_offset [of "level_bits l" va]
  by (simp add: add_chk_def entry_addr_def table_fits_def)

text \<open>What the loop returns for an abstract outcome, given its error and result constructors.\<close>

fun walk_answer ::
  "(u8 \<Rightarrow> 'e) \<Rightarrow> (u64 \<Rightarrow> u64 \<Rightarrow> u8 \<Rightarrow> 'r) \<Rightarrow> u64 \<Rightarrow> outcome \<Rightarrow> 'e + 'r" where
  "walk_answer miss hit va (Fault l) = Inl (miss (of_nat l))"
| "walk_answer miss hit va (Leaf l e) = Inr (hit e va (of_nat l))"

lemma u8_level:
  assumes "l < 5"
  shows "unat (of_nat (Suc l) :: u8) = Suc l" "1 \<le> (of_nat (Suc l) :: u8)"
    "(of_nat (Suc l) :: u8) \<le> 5" "(of_nat (Suc l) :: u8) = 1 \<longleftrightarrow> l = 0"
    "of_nat (Suc l) - 1 = (of_nat l :: u8)"
proof -
  from assms have "l = 0 \<or> l = 1 \<or> l = 2 \<or> l = 3 \<or> l = 4" by auto
  then show "unat (of_nat (Suc l) :: u8) = Suc l" "1 \<le> (of_nat (Suc l) :: u8)"
    "(of_nat (Suc l) :: u8) \<le> 5" "(of_nat (Suc l) :: u8) = 1 \<longleftrightarrow> l = 0"
    "of_nat (Suc l) - 1 = (of_nat l :: u8)"
    by auto
qed

text \<open>
  Both crates index the same \<^verbatim>\<open>LEVEL_SHIFT\<close> array and cut the same index field out of the
  address; for levels 1 to 5 neither can panic.
\<close>

lemma u8_level_cases:
  "1 \<le> level \<Longrightarrow> level \<le> 5 \<Longrightarrow>
   level = 1 \<or> level = 2 \<or> level = 3 \<or> level = 4 \<or> level = (5 :: u8)"
  by (auto simp: word_le_nat_alt word_unat_eq_iff)

lemma level_shift_lookup:
  "1 \<le> level \<Longrightarrow> level \<le> 5 \<Longrightarrow>
   index_chk [12, 21, 30, 39, 48 :: u32] (unat (level - 1)) = Inr (of_nat (level_bits (unat level)))"
  for level :: u8
  by (drule (1) u8_level_cases) (auto simp: level_bits_def)

lemma level_index_run:
  "1 \<le> level \<Longrightarrow> level \<le> 5 \<Longrightarrow>
   extract_bits_run va (ucast (of_nat (level_bits (unat level)) + 8 :: u32))
     (ucast (of_nat (level_bits (unat level)) :: u32))
   = Inr (get_field (level_bits (unat level)) 9 va)"
  for level :: u8
  by (drule (1) u8_level_cases)
    (auto simp: level_bits_def extract_bits_run_ok extract_bits_field)

lemma level_bits_word:
  "1 \<le> level \<Longrightarrow> level \<le> 5 \<Longrightarrow> unat (of_nat (level_bits (unat level)) :: u32) = level_bits (unat level)"
  for level :: u8
  by (drule (1) u8_level_cases) (auto simp: level_bits_def)

text \<open>\<open>(1 << k) - 1\<close> as a mask, and a frame joined with a page offset.\<close>

lemma offset_mask:
  "va AND (push_bit k 1 - 1) = take_bit k va" "va AND (2 ^ k - 1) = take_bit k va"
  for va :: "'a::len word"
  by (simp_all add: take_bit_eq_mask mask_eq_exp_minus_1 push_bit_eq_mult)

lemma present_test: "v AND 1 = 0 \<longleftrightarrow> \<not> bit v 0" for v :: "'a::len word"
  using flag_tests(2) [of v] by auto

lemma frame_plus_offset:
  "take_bit k base = 0 \<Longrightarrow> base OR take_bit k va = base + take_bit k va" for base :: "'a::len word"
proof -
  assume "take_bit k base = 0"
  then have "\<not> bit base n" if "n < k" for n
    using that bit_take_bit_iff [of k base n] by simp
  then have "base AND take_bit k va = 0"
    by (intro bit_word_eqI) (auto simp: bit_simps)
  then show ?thesis by (simp add: disjunctive_add_eq_or)
qed

lemma take_bit_frame: "take_bit 12 (v AND pa_mask) = 0"
  by (rule bit_word_eqI) (auto simp: pa_mask_def bit_simps)

locale radix_walk =
  fixes loop :: "(u64 \<Rightarrow> u64) \<Rightarrow> u64 \<Rightarrow> u64 \<Rightarrow> u8 \<Rightarrow> ('e + 'r) run"
    and miss :: "u8 \<Rightarrow> 'e" and hit :: "u64 \<Rightarrow> u64 \<Rightarrow> u8 \<Rightarrow> 'r"
  assumes unfold_loop: "1 \<le> level \<Longrightarrow> level \<le> 5 \<Longrightarrow> table_fits table \<Longrightarrow>
    loop fetch va table level =
      (let e = fetch (entry_addr table va (unat level))
       in if \<not> bit e 0 then Inr (Inl (miss level))
          else if bit e 7 \<or> level = 1 then Inr (Inr (hit e va level))
          else loop fetch va (e AND pa_mask) (level - 1))"
begin

lemma loop_Suc:
  assumes "l < 5" "table_fits table"
  shows "loop fetch va table (of_nat (Suc l)) =
      (let e = fetch (entry_addr table va (Suc l))
       in if \<not> bit e 0 then Inr (Inl (miss (of_nat (Suc l))))
          else if bit e 7 \<or> l = 0 then Inr (Inr (hit e va (of_nat (Suc l))))
          else loop fetch va (e AND pa_mask) (of_nat l))"
  using unfold_loop [OF u8_level(2,3) [OF assms(1)] assms(2), of fetch va]
  by (simp only: u8_level [OF assms(1)])

text \<open>The loop computes the abstract translation; in particular it ends without a panic.\<close>

lemma loop_refines:
  "walks fetch va table l r \<Longrightarrow> l \<le> 5 \<Longrightarrow> table_fits table \<Longrightarrow>
   loop fetch va table (of_nat l) = Inr (walk_answer miss hit va r)"
proof (induction rule: walks.induct)
  case (fault e table l)
  then show ?case by (simp add: loop_Suc del: of_nat_Suc)
next
  case (leaf e table l)
  then show ?case by (auto simp add: loop_Suc simp del: of_nat_Suc)
next
  case (descend e table l r)
  have "l \<noteq> 0" using descend.hyps(4) by (cases l) auto
  with descend show ?case by (simp add: loop_Suc del: of_nat_Suc)
qed

lemma loop_iff:
  assumes "0 < l" "l \<le> 5" "table_fits table"
  shows "loop fetch va table (of_nat l) = Inr x \<longleftrightarrow>
    (\<exists>r. walks fetch va table l r \<and> x = walk_answer miss hit va r)"
proof -
  obtain r where r: "walks fetch va table l r" using walks_total assms by blast
  then have "loop fetch va table (of_nat l) = Inr (walk_answer miss hit va r)"
    using assms by (simp add: loop_refines)
  moreover have "walks fetch va table l r' \<longleftrightarrow> r' = r" for r'
    using r walks_unique by blast
  ultimately show ?thesis by auto
qed

lemma loop_returns:
  assumes "0 < l" "l \<le> 5" "table_fits table"
  shows "\<exists>x. loop fetch va table (of_nat l) = Inr x"
  using walks_total [OF assms(1), of fetch va table] loop_refines [OF _ assms(2,3)] by blast

text \<open>Replacing the last entry read replaces the answer.\<close>

lemma loop_updated:
  assumes "l \<le> 5" "table_fits table" "walk_reads fetch va table l = as @ [a]" "a \<notin> set as" "n = l - length as"
  shows "\<not> bit e 0 \<Longrightarrow> loop (fetch(a := e)) va table (of_nat l) = Inr (Inl (miss (of_nat n)))"
    "bit e 0 \<Longrightarrow> bit e 7 \<or> n = 1 \<Longrightarrow> loop (fetch(a := e)) va table (of_nat l) = Inr (Inr (hit e va (of_nat n)))"
  using loop_refines [OF walks_updated(3) [OF assms(3-5)] assms(1,2), of e]
    loop_refines [OF walks_updated(4) [OF assms(3-5)] assms(1,2), of e] by auto

text \<open>Over tables with known leaves every answer comes from one of them.\<close>

lemma loop_confined:
  assumes "0 < l" "l \<le> 5" "table_fits table" "confined fetch leaf l table"
  shows "(\<exists>k. loop fetch va table (of_nat l) = Inr (Inl (miss (of_nat k)))) \<or>
    (\<exists>k e. loop fetch va table (of_nat l) = Inr (Inr (hit e va (of_nat k))) \<and> leaf k e \<and> k \<le> l \<and> bit e 0)"
proof -
  obtain r where r: "walks fetch va table l r" using walks_total assms(1) by blast
  then have "loop fetch va table (of_nat l) = Inr (walk_answer miss hit va r)"
    using assms(2,3) by (simp add: loop_refines)
  then show ?thesis
    using walks_confined [OF r _ assms(4)] walks_leaf [OF r] by (cases r) auto
qed

text \<open>Two memories that agree on the entries read give the same answer.\<close>

lemma loop_reads:
  assumes "0 < l" "l \<le> 5" "table_fits table"
    and "\<forall>a \<in> set (walk_reads fetch va table l). fetch' a = fetch a"
  shows "loop fetch' va table (of_nat l) = loop fetch va table (of_nat l)"
proof -
  obtain r where "walks fetch va table l r" using walks_total assms(1) by blast
  then show ?thesis
    using walks_reads [of fetch va table l r fetch'] assms(2-4) by (simp add: loop_refines)
qed

end

text \<open>A change of the leaf a walk returns.\<close>

abbreviation map_walk :: "('r \<Rightarrow> 'r) \<Rightarrow> ('e + 'r) run \<Rightarrow> ('e + 'r) run" where
  "map_walk f \<equiv> map_sum id (map_sum id f)"

text \<open>Bits of input address a tree of \<open>levels\<close> levels translates.\<close>

abbreviation tree_width :: "u8 \<Rightarrow> nat" where
  "tree_width levels \<equiv> level_bits (unat levels) + 9"

lemma u8_pos_nat: "1 \<le> levels \<Longrightarrow> levels \<le> 5 \<Longrightarrow> 0 < unat levels \<and> unat levels \<le> 5"
  for levels :: u8
  by (auto simp: word_le_nat_alt)

lemma u8_levels_iff: "\<not> (levels = 0 \<or> 5 < levels) \<longleftrightarrow> 1 \<le> levels \<and> levels \<le> 5" for levels :: u8
  by (auto simp: not_less word_le_nat_alt unat_gt_0 Suc_le_eq)

lemma drop_bit_nonzero: "2 ^ k \<le> unat va \<Longrightarrow> drop_bit k va \<noteq> 0" for va :: "'a::len word"
proof
  assume "2 ^ k \<le> unat va" "drop_bit k va = 0"
  then have "drop_bit k (unat va) = 0" by (metis unat_drop_bit_eq unsigned_0)
  then have "unat va div 2 ^ k = 0" by (simp only: drop_bit_eq_div)
  with \<open>2 ^ k \<le> unat va\<close> show False by (simp add: div_eq_0_iff)
qed

lemma beyond_width: "drop_bit n va \<noteq> 0 \<longleftrightarrow> 2 ^ n \<le> unat va" for va :: u64
proof -
  have "drop_bit n va \<noteq> 0 \<longleftrightarrow> drop_bit n (unat va) \<noteq> 0" by (simp add: unat_eq_0 flip: unat_drop_bit_eq)
  then show ?thesis by (simp add: drop_bit_eq_div div_eq_0_iff not_less)
qed

lemma drop_bit_page:
  "drop_bit (level_bits k) va = drop_bit (level_bits k) va' \<Longrightarrow> k \<le> unat levels \<Longrightarrow>
   drop_bit (tree_width levels) va' = drop_bit (tree_width levels) va"
  for va :: u64
proof -
  assume page: "drop_bit (level_bits k) va = drop_bit (level_bits k) va'" and k: "k \<le> unat levels"
  have "drop_bit (tree_width levels - level_bits k) (drop_bit (level_bits k) va')
      = drop_bit (tree_width levels - level_bits k) (drop_bit (level_bits k) va)"
    using page by simp
  then show ?thesis using level_bits_mono [OF k] by simp
qed

text \<open>
  A walk whose result depends on the address only through the offset in the leaf's page: both
  crates' walkers.  The laws below are what a caller relies on.
\<close>

locale framed_walk = radix_walk +
  assumes hit_offset: "1 \<le> level \<Longrightarrow> level \<le> 5 \<Longrightarrow>
    take_bit (level_bits (unat level)) va = take_bit (level_bits (unat level)) va' \<Longrightarrow>
    hit e va level = hit e va' level"
begin

text \<open>Address bits above the width of the tree play no role in the loop.\<close>

lemma loop_wraps:
  assumes "1 \<le> levels" "levels \<le> 5" "table_fits root"
  shows "loop fetch va root levels = loop fetch (take_bit (tree_width levels) va) root levels"
proof -
  let ?va' = "take_bit (tree_width levels) va"
  have pos: "0 < unat levels" "unat levels \<le> 5" using u8_pos_nat assms by blast+
  obtain r where r: "walks fetch va root (unat levels) r" using walks_total pos by blast
  then have r': "walks fetch ?va' root (unat levels) r"
    by (rule walks_same_index) (simp add: bit_simps)
  have "walk_answer miss hit va r = walk_answer miss hit ?va' r"
  proof (cases r)
    case (Leaf k e)
    then have k: "1 \<le> k" "k \<le> unat levels" using walks_leaf [OF r] by auto
    with pos have k8: "unat (of_nat k :: u8) = k" "1 \<le> (of_nat k :: u8)" "of_nat k \<le> (5 :: u8)"
      using u8_level [of "k - 1"] by simp_all
    have "take_bit (level_bits k) ?va' = take_bit (level_bits k) va"
      using k level_bits_mono [of k "unat levels"] by (simp add: min_def)
    then show ?thesis using Leaf hit_offset [OF k8(2,3), of va ?va' e] by (simp add: k8(1))
  qed simp
  then show ?thesis
    using loop_refines [OF r] loop_refines [OF r'] pos assms by simp
qed

text \<open>A successful walk ends at a present entry: a superpage, or a page of level 1.\<close>

lemma loop_leaf:
  assumes "1 \<le> levels" "levels \<le> 5" "table_fits root"
    and ok: "loop fetch va root levels = Inr (Inr r)"
  obtains k e where "walks fetch va root (unat levels) (Leaf k e)" "1 \<le> k" "k \<le> unat levels"
    "unat (of_nat k :: u8) = k" "bit e 0" "bit e 7 \<or> k = 1" "r = hit e va (of_nat k)"
proof -
  have pos: "0 < unat levels" "unat levels \<le> 5" using u8_pos_nat assms by blast+
  obtain out where "walks fetch va root (unat levels) out" "Inr r = walk_answer miss hit va out"
    using loop_iff [of "unat levels" root fetch va "Inr r"] ok pos assms(3) by auto
  then obtain k e where walk: "walks fetch va root (unat levels) (Leaf k e)"
    and r: "r = hit e va (of_nat k)"
    by (cases out) auto
  have k: "1 \<le> k" "k \<le> unat levels" "bit e 0" "bit e 7 \<or> k = 1" using walks_leaf [OF walk refl] by auto
  then have "unat (of_nat k :: u8) = k" using pos u8_level(1) [of "k - 1"] by simp
  with walk k r show thesis using that by blast
qed

text \<open>Every address of the leaf's page reaches the same leaf.\<close>

lemma loop_same_page:
  assumes "1 \<le> levels" "levels \<le> 5" "table_fits root"
    and ok: "loop fetch va root levels = Inr (Inr r)"
  obtains k e where "1 \<le> k" "k \<le> unat levels" "unat (of_nat k :: u8) = k" "bit e 0"
    "r = hit e va (of_nat k)"
    "\<And>va'. drop_bit (level_bits k) va = drop_bit (level_bits k) va' \<Longrightarrow>
      loop fetch va' root levels = Inr (Inr (hit e va' (of_nat k)))"
proof -
  obtain k e where walk: "walks fetch va root (unat levels) (Leaf k e)"
    and k: "1 \<le> k" "k \<le> unat levels" "unat (of_nat k :: u8) = k" "bit e 0" "r = hit e va (of_nat k)"
    using loop_leaf [OF assms] .
  have "loop fetch va' root levels = Inr (Inr (hit e va' (of_nat k)))"
    if page: "drop_bit (level_bits k) va = drop_bit (level_bits k) va'" for va'
  proof -
    have "bit va n \<longleftrightarrow> bit va' n" if "level_bits k \<le> n" for n
      using page that bit_drop_bit_eq [of "level_bits k" va] bit_drop_bit_eq [of "level_bits k" va']
      by (metis comp_apply le_add_diff_inverse)
    then have "walks fetch va' root (unat levels) (Leaf k e)"
      using walks_same_page [OF walk refl] by simp
    then show ?thesis
      using loop_refines [of fetch va' root "unat levels"] u8_pos_nat assms(1-3) by simp
  qed
  with k show thesis using that by blast
qed

text \<open>A chain of table entries built by \<open>enc\<close> that ends in a present leaf of level \<open>n\<close>.\<close>

lemma loop_built_at:
  assumes "1 \<le> n" "n + length ts \<le> 5" "table_fits root"
    and "\<And>i. i < length ts \<Longrightarrow>
      fetch (entry_addr ((root # ts) ! i) va (n + length ts - i)) = enc (ts ! i)"
    and "\<And>t. t \<in> set ts \<Longrightarrow> bit (enc t) 0 \<and> \<not> bit (enc t) 7 \<and> enc t AND pa_mask = t"
    and "fetch (entry_addr (last (root # ts)) va n) = e" "bit e 0" "bit e 7 \<or> n = 1"
  shows "loop fetch va root (of_nat (n + length ts)) = Inr (Inr (hit e va (of_nat n)))"
proof -
  obtain l where l: "n = Suc l" using assms(1) by (cases n) auto
  have "chained fetch va root ts n"
    by (rule chainedI [where enc = enc]) (use assms(4,5) in simp_all)
  moreover have "walks fetch va (last (root # ts)) n (Leaf n e)"
    unfolding l by (rule walks.leaf) (use assms(6-8) l in simp_all)
  ultimately have "walks fetch va root (n + length ts) (Leaf n e)"
    unfolding l by (rule walks_chained)
  then show ?thesis using loop_refines assms(2,3) by fastforce
qed

lemma loop_built:
  assumes "length ts < 5" "table_fits root"
    and "\<And>i. i < length ts \<Longrightarrow>
      fetch (entry_addr ((root # ts) ! i) va (Suc (length ts) - i)) = enc (ts ! i)"
    and "\<And>t. t \<in> set ts \<Longrightarrow> bit (enc t) 0 \<and> \<not> bit (enc t) 7 \<and> enc t AND pa_mask = t"
    and "fetch (entry_addr (last (root # ts)) va 1) = e" "bit e 0"
  shows "loop fetch va root (of_nat (Suc (length ts))) = Inr (Inr (hit e va 1))"
  using loop_built_at [of 1 ts root fetch va enc e] assms by simp

end

text \<open>A frame joined with the offset inside a page is a 52-bit physical address.\<close>

lemma frame_bound:
  assumes "k \<le> 52"
  shows "unat ((e AND pa_mask) OR take_bit k (va :: u64)) < 2 ^ 52"
proof -
  have "(e AND pa_mask) OR take_bit k va = take_bit 52 ((e AND pa_mask) OR take_bit k va)"
    using assms by (intro bit_word_eqI) (auto simp: pa_mask_def bit_simps)
  then have "unat ((e AND pa_mask) OR take_bit k va)
      = take_bit 52 (unat ((e AND pa_mask) OR take_bit k va))"
    by (metis unsigned_take_bit_eq)
  then show ?thesis by (metis take_bit_nat_less_exp)
qed

lemma level_bits_bound: "k \<le> 5 \<Longrightarrow> level_bits k \<le> 48"
  by (auto simp: level_bits_def)

text \<open>
  Joining by OR keeps the offsets of a page apart exactly when the frame has no bits below the page
  size: a bit of the frame there absorbs the same bit of the offset.
\<close>

lemma or_offset_inj_iff:
  fixes base va :: "'a::len word"
  assumes "k \<le> LENGTH('a)"
  shows "(\<forall>a b. drop_bit k a = drop_bit k va \<longrightarrow> drop_bit k b = drop_bit k va \<longrightarrow>
      base OR take_bit k a = base OR take_bit k b \<longrightarrow> a = b) \<longleftrightarrow> take_bit k base = 0"
proof
  assume inj: "\<forall>a b. drop_bit k a = drop_bit k va \<longrightarrow> drop_bit k b = drop_bit k va \<longrightarrow>
      base OR take_bit k a = base OR take_bit k b \<longrightarrow> a = b"
  have "\<not> bit base n" if n: "n < k" for n
  proof
    assume "bit base n"
    then have "base OR take_bit k (set_bit n va) = base OR take_bit k (unset_bit n va)"
      using n by (intro bit_word_eqI) (auto simp: bit_simps)
    moreover have "drop_bit k (set_bit n va) = drop_bit k va" "drop_bit k (unset_bit n va) = drop_bit k va"
      using n by (intro bit_word_eqI; auto simp: bit_simps)+
    ultimately have "set_bit n va = unset_bit n va" using inj by blast
    then have "bit (set_bit n va) n \<longleftrightarrow> bit (unset_bit n va) n" by simp
    then show False using n assms by (simp add: bit_simps)
  qed
  then show "take_bit k base = 0" by (simp add: take_bit_zero_iff)
next
  assume base: "take_bit k base = 0"
  have "a = b" if eq: "drop_bit k a = drop_bit k b" "base OR take_bit k a = base OR take_bit k b" for a b
  proof -
    have "take_bit k a = take_bit k b" using eq(2) by (simp add: frame_plus_offset [OF base])
    with eq(1) show ?thesis by (metis bits_ident)
  qed
  then show "\<forall>a b. drop_bit k a = drop_bit k va \<longrightarrow> drop_bit k b = drop_bit k va \<longrightarrow>
      base OR take_bit k a = base OR take_bit k b \<longrightarrow> a = b"
    by simp
qed

end
