(* ===== verification/Amd_Pagetables.thy ===== *)
theory Amd_Pagetables
  imports Page_Walk
begin

text \<open>
  \<^verbatim>\<open>amd-iommu/src/pagetables.rs\<close>: the IOMMU v1/v2 page-table walker and the entry builders.
  A \<open>bitflags\<close> value is represented by its bits (\<^verbatim>\<open>from_bits_retain\<close> and \<^verbatim>\<open>bits\<close> are the
  constructor and the projection of that newtype); the caller's \<open>fetch\<close> closure is a function
  from physical addresses to entries.
\<close>

section \<open>Formats, flags and results\<close>

datatype amd_format = V1 | V2

type_synonym amd_perm = u64

definition amd_P :: amd_perm where "amd_P = push_bit 0 1"
definition amd_RW :: amd_perm where "amd_RW = push_bit 1 1"
definition amd_US :: amd_perm where "amd_US = push_bit 2 1"
definition amd_IR :: amd_perm where "amd_IR = push_bit 4 1"
definition amd_IW :: amd_perm where "amd_IW = push_bit 5 1"
definition amd_ACCESSED :: amd_perm where "amd_ACCESSED = push_bit 5 1"
definition amd_DIRTY :: amd_perm where "amd_DIRTY = push_bit 6 1"
definition amd_PS :: amd_perm where "amd_PS = push_bit 7 1"
definition amd_G :: amd_perm where "amd_G = push_bit 8 1"
definition amd_NX :: amd_perm where "amd_NX = push_bit 63 1"
definition amd_P_RW :: amd_perm where "amd_P_RW = amd_P OR amd_RW"

record amd_walk_result =
  amd_physical :: u64
  amd_level :: u8
  amd_perms :: amd_perm
  amd_huge :: bool

datatype amd_walk_error =
    AmdNotPresent u8
  | AmdAddressTooLarge u32

definition AMD_LEVEL_SHIFT :: "u32 list" where
  "AMD_LEVEL_SHIFT = [12, 21, 30, 39, 48]"

definition AMD_PA_MASK :: u64 where
  "AMD_PA_MASK = 0x000ffffffffff000"

section \<open>The walker\<close>

function amd_walk_loop ::
  "(u64 \<Rightarrow> u64) \<Rightarrow> u64 \<Rightarrow> u64 \<Rightarrow> u8 \<Rightarrow> (amd_walk_error + amd_walk_result) run" where
  "amd_walk_loop fetch iova table level =
     (if 0 < level then
        run_bind (index_chk AMD_LEVEL_SHIFT (unat (level - 1))) (\<lambda>shift.
        run_bind (amd_extract_bits_run iova (ucast (shift + 8)) (ucast shift)) (\<lambda>index.
        run_bind (add_chk table (push_bit 3 index)) (\<lambda>addr.
          let entry = fetch addr in
          if entry AND 1 = 0 then Inr (Inl (AmdNotPresent level))
          else
            let perms = entry; ps = (entry AND amd_PS \<noteq> 0) in
            if ps \<or> level = 1 then
              let base = entry AND AMD_PA_MASK; off_mask = push_bit (unat shift) 1 - 1 in
              Inr (Inr \<lparr>amd_physical = base OR (iova AND off_mask), amd_level = level,
                        amd_perms = perms, amd_huge = ps \<and> 1 < level\<rparr>)
            else amd_walk_loop fetch iova (entry AND AMD_PA_MASK) (level - 1))))
      else Inl Unreachable)"
  by pat_completeness auto
termination
  by (relation "measure (\<lambda>(fetch, iova, table, level). unat level)")
    (auto simp: unat_sub word_le_nat_alt word_less_nat_alt)

declare amd_walk_loop.simps [simp del]

definition amd_walk ::
  "amd_format \<Rightarrow> u8 \<Rightarrow> u64 \<Rightarrow> u64 \<Rightarrow> (u64 \<Rightarrow> u64) \<Rightarrow>
   (amd_walk_error + amd_walk_result) run" where
  "amd_walk format levels root iova fetch =
     run_bind (sub_chk levels 1) (\<lambda>i.
     run_bind (index_chk AMD_LEVEL_SHIFT (unat i)) (\<lambda>top_shift.
       let addr_bits = top_shift + 9 in
       if drop_bit (unat addr_bits) iova \<noteq> 0 \<and> format = V2
       then Inr (Inl (AmdAddressTooLarge addr_bits))
       else amd_walk_loop fetch iova root levels))"

section \<open>Entry builders\<close>

definition amd_v2_page :: "u64 \<Rightarrow> bool \<Rightarrow> bool \<Rightarrow> u64" where
  "amd_v2_page paddr rw user =
     (let v = (paddr AND AMD_PA_MASK) OR amd_P OR amd_ACCESSED OR amd_DIRTY;
          v = (if rw then v OR amd_RW else v);
          v = (if user then v OR amd_US else v)
      in v)"

definition amd_v2_table :: "u64 \<Rightarrow> u64" where
  "amd_v2_table nxt = (nxt AND AMD_PA_MASK) OR amd_P_RW OR amd_US OR amd_ACCESSED"

definition amd_v1_page :: "u64 \<Rightarrow> bool \<Rightarrow> bool \<Rightarrow> u64" where
  "amd_v1_page paddr read write =
     (let v = (paddr AND AMD_PA_MASK) OR amd_P;
          v = (if read then v OR amd_IR else v);
          v = (if write then v OR amd_IW else v)
      in v)"

definition amd_index_at :: "u64 \<Rightarrow> u8 \<Rightarrow> u64 run" where
  "amd_index_at iova level =
     run_bind (sub_chk level 1) (\<lambda>i.
     run_bind (index_chk AMD_LEVEL_SHIFT (unat i)) (\<lambda>shift.
       amd_extract_bits_run iova (ucast (shift + 8)) (ucast shift)))"

section \<open>The walker keeps the contract\<close>

lemma AMD_PA_MASK_eq: "AMD_PA_MASK = pa_mask"
  by (simp add: AMD_PA_MASK_def pa_mask_def mask_numeral)

text \<open>The result the walker builds at a leaf.\<close>

definition amd_hit :: "u64 \<Rightarrow> u64 \<Rightarrow> u8 \<Rightarrow> amd_walk_result" where
  "amd_hit entry iova level =
     \<lparr>amd_physical = (entry AND pa_mask) OR take_bit (level_bits (unat level)) iova,
      amd_level = level, amd_perms = entry, amd_huge = bit entry 7 \<and> 1 < level\<rparr>"

lemma amd_walk_loop_unfold:
  assumes "1 \<le> level" "level \<le> 5" "table_fits table"
  shows "amd_walk_loop fetch iova table level =
      (let e = fetch (entry_addr table iova (unat level))
       in if \<not> bit e 0 then Inr (Inl (AmdNotPresent level))
          else if bit e 7 \<or> level = 1 then Inr (Inr (amd_hit e iova level))
          else amd_walk_loop fetch iova (e AND pa_mask) (level - 1))"
proof -
  have "0 < level" using assms(1) by (simp add: word_gt_0 word_le_nat_alt) auto
  then show ?thesis
    using assms
    by (subst amd_walk_loop.simps)
      (simp only: AMD_LEVEL_SHIFT_def level_shift_lookup level_index_run entry_addr_chk
        run_bind_simps amd_extract_bits_run_eq if_True AMD_PA_MASK_eq amd_PS_def flag_tests
        present_test Let_def amd_hit_def offset_mask level_bits_word)
qed

interpretation amd_pt: framed_walk amd_walk_loop AmdNotPresent amd_hit
  by unfold_locales (auto simp: amd_walk_loop_unfold amd_hit_def)

section \<open>Entries as bits\<close>

lemma amd_flag_bits [bit_simps]:
  "bit amd_P n \<longleftrightarrow> n = 0" "bit amd_RW n \<longleftrightarrow> n = 1" "bit amd_US n \<longleftrightarrow> n = 2"
  "bit amd_IR n \<longleftrightarrow> n = 4" "bit amd_IW n \<longleftrightarrow> n = 5" "bit amd_ACCESSED n \<longleftrightarrow> n = 5"
  "bit amd_DIRTY n \<longleftrightarrow> n = 6" "bit amd_PS n \<longleftrightarrow> n = 7" "bit amd_G n \<longleftrightarrow> n = 8"
  "bit amd_NX n \<longleftrightarrow> n = 63"
  by (simp_all only: amd_P_def amd_RW_def amd_US_def amd_IR_def amd_IW_def amd_ACCESSED_def
      amd_DIRTY_def amd_PS_def amd_G_def amd_NX_def)
    (subst bit_flag; simp)+

lemma bit_amd_P_RW [bit_simps]: "bit amd_P_RW n \<longleftrightarrow> n = 0 \<or> n = 1"
  by (simp add: amd_P_RW_def bit_or_iff amd_flag_bits)

lemma bit_pa_mask [bit_simps]: "bit pa_mask n \<longleftrightarrow> 12 \<le> n \<and> n < 52"
  by (auto simp: pa_mask_def bit_simps)

lemma bit_amd_v2_table [bit_simps]:
  "bit (amd_v2_table t) n \<longleftrightarrow> 12 \<le> n \<and> n < 52 \<and> bit t n \<or> n \<in> {0, 1, 2, 5}"
  by (auto simp: amd_v2_table_def AMD_PA_MASK_eq bit_simps)

lemma bit_amd_v2_page [bit_simps]:
  "bit (amd_v2_page pa rw us) n \<longleftrightarrow> 12 \<le> n \<and> n < 52 \<and> bit pa n \<or> n \<in> {0, 5, 6} \<or>
     n = 1 \<and> rw \<or> n = 2 \<and> us"
  by (auto simp: amd_v2_page_def AMD_PA_MASK_eq bit_simps Let_def)

lemma bit_amd_v1_page [bit_simps]:
  "bit (amd_v1_page pa r w) n \<longleftrightarrow> 12 \<le> n \<and> n < 52 \<and> bit pa n \<or> n = 0 \<or>
     n = 4 \<and> r \<or> n = 5 \<and> w"
  by (auto simp: amd_v1_page_def AMD_PA_MASK_eq bit_simps Let_def)

lemma amd_entry_frames [simp]:
  "amd_v2_table t AND pa_mask = t AND pa_mask"
  "amd_v2_page pa rw us AND pa_mask = pa AND pa_mask"
  "amd_v1_page pa rw us AND pa_mask = pa AND pa_mask"
  by (rule bit_word_eqI, auto simp: bit_simps)+

section \<open>Properties of the walk\<close>

text \<open>The prologue of \<open>walk\<close> for a tree of one to five levels.\<close>

lemma amd_walk_start:
  assumes "1 \<le> levels" "levels \<le> 5"
  shows "amd_walk fmt levels root iova fetch =
    (if drop_bit (tree_width levels) iova \<noteq> 0 \<and> fmt = V2
     then Inr (Inl (AmdAddressTooLarge (of_nat (tree_width levels))))
     else amd_walk_loop fetch iova root levels)"
proof -
  have top: "unat (of_nat (level_bits (unat levels)) + 9 :: u32) = tree_width levels"
    using assms by (auto dest!: u8_level_cases simp: level_bits_def)
  show ?thesis
    using assms
    by (simp add: amd_walk_def sub_chk_def AMD_LEVEL_SHIFT_def level_shift_lookup Let_def top)
qed

text \<open>A walk looks at the present bit, the page size bit and the frame of an entry only: a memory whose
  entries agree there gives the same answer, with the permissions of its own leaf entry.\<close>

lemma amd_walk_loop_entries:
  assumes "\<And>a. fetch' a AND 1 = fetch a AND 1" "\<And>a. fetch' a AND amd_PS = fetch a AND amd_PS"
    "\<And>a. fetch' a AND AMD_PA_MASK = fetch a AND AMD_PA_MASK"
  shows "\<exists>a. amd_walk_loop fetch' iova table level =
      map_walk (amd_perms_update (\<lambda>_. fetch' a)) (amd_walk_loop fetch iova table level) \<and>
    map_walk (amd_perms_update (\<lambda>_. fetch a)) (amd_walk_loop fetch iova table level) =
      amd_walk_loop fetch iova table level"
  using assms
proof (induction fetch iova table level rule: amd_walk_loop.induct)
  case (1 fetch iova table level)
  note same = 1(2-4)
  have descend: "\<exists>b. amd_walk_loop fetch' iova (fetch a AND AMD_PA_MASK) (level - 1) =
      map_walk (amd_perms_update (\<lambda>_. fetch' b)) (amd_walk_loop fetch iova (fetch a AND AMD_PA_MASK) (level - 1)) \<and>
    map_walk (amd_perms_update (\<lambda>_. fetch b)) (amd_walk_loop fetch iova (fetch a AND AMD_PA_MASK) (level - 1)) =
      amd_walk_loop fetch iova (fetch a AND AMD_PA_MASK) (level - 1)"
    if "0 < level" "fetch a AND 1 \<noteq> 0" "\<not> (fetch a AND amd_PS \<noteq> 0 \<or> level = 1)" for a
    using that same by (intro 1(1)) (rule refl | assumption)+
  show ?case
    by (subst (1 2 3 4) amd_walk_loop.simps)
      (auto simp: Let_def run_bind_def same split: sum.splits intro: descend)
qed

text \<open>C1: The walk refines the abstract translation: for a tree of one to five levels and an
  address it accepts, its answer is the outcome of the relation \<open>walks\<close>, a fault as \<open>NotPresent\<close> at
  the faulting level and a leaf as the frame of the entry joined with the page offset.\<close>

theorem amd_walk_refines:
  assumes "1 \<le> levels" "levels \<le> 5" "table_fits root"
    and "fmt = V1 \<or> drop_bit (level_bits (unat levels) + 9) iova = 0"
  shows "amd_walk fmt levels root iova fetch = Inr x \<longleftrightarrow>
    (\<exists>r. walks fetch iova root (unat levels) r \<and> x = walk_answer AmdNotPresent amd_hit iova r)"
  using amd_pt.loop_iff [of "unat levels" root fetch iova x] assms u8_pos_nat
  by (auto simp: amd_walk_start)

text \<open>Without any assumption on the root the loop either overflows in the address of the first entry it
  reads, or runs as over a table that fits: the tables below the root are masked to 52 bits.\<close>

lemma amd_walk_loop_panics_iff:
  assumes "1 \<le> level" "level \<le> 5"
  shows "amd_walk_loop fetch iova table level = Inl p \<longleftrightarrow>
    p = AddOverflow \<and> entry_overflows table iova (unat level)"
proof -
  have pos: "0 < level" using assms(1) by (simp add: word_gt_0 word_le_nat_alt) auto
  have below: "amd_walk_loop fetch iova (e AND pa_mask) (level - 1) \<noteq> Inl q" if "level \<noteq> 1" for e q
  proof -
    have "0 < unat (level - 1)" "unat (level - 1) \<le> 5"
      using u8_level_cases [OF assms] that by auto
    then obtain x where "amd_walk_loop fetch iova (e AND pa_mask) (of_nat (unat (level - 1))) = Inr x"
      using amd_pt.loop_returns pa_mask_fits by blast
    then show ?thesis by simp
  qed
  show ?thesis
    using pos assms
    by (subst amd_walk_loop.simps)
      (auto simp: AMD_LEVEL_SHIFT_def level_shift_lookup level_index_run entry_addr_overflow
        AMD_PA_MASK_eq Let_def below)
qed

text \<open>C24: The walk panics in exactly these cases: the number of levels is outside 1 to 5 (the subtraction
  \<open>levels - 1\<close> or the \<open>LEVEL_SHIFT\<close> lookup), or it is in range, the address is not refused as too large, and
  the address of the first entry, the root plus eight times the index of the top level, exceeds 64 bits.  For
  every memory and every other input the walk returns, and the \<open>unreachable!\<close> after the loop is not reached;
  a page-aligned root never overflows.\<close>

theorem amd_walk_panics_iff:
  "((\<exists>p. amd_walk fmt levels root iova fetch = Inl p) \<longleftrightarrow>
      levels = 0 \<or> 5 < levels \<or>
      (fmt = V1 \<or> unat iova < 2 ^ (level_bits (unat levels) + 9)) \<and>
       2 ^ 64 \<le> unat root + 8 * unat (get_field (level_bits (unat levels)) 9 iova)) \<and>
   amd_walk fmt levels root iova fetch \<noteq> Inl Unreachable \<and>
   unat (4096 * frame :: u64) + 8 * unat (get_field (level_bits (unat levels)) 9 iova) < 2 ^ 64"
proof (intro conjI)
  let ?n = "level_bits (unat levels) + 9"
  have out: "amd_walk fmt levels root iova fetch \<in> {Inl SubOverflow, Inl IndexOutOfBounds}" if "levels = 0 \<or> 5 < levels"
    using that by (auto simp: amd_walk_def sub_chk_def index_chk_def AMD_LEVEL_SHIFT_def unat_sub
        word_le_nat_alt word_less_nat_alt unat_eq_0 split: if_splits)
  have inside: "amd_walk fmt levels root iova fetch = Inl p \<longleftrightarrow> (fmt = V1 \<or> unat iova < 2 ^ ?n) \<and>
      p = AddOverflow \<and> entry_overflows root iova (unat levels)" if "\<not> (levels = 0 \<or> 5 < levels)" for p
  proof -
    have lev: "1 \<le> levels" "levels \<le> 5" using that u8_levels_iff by blast+
    show ?thesis
      using beyond_width [of ?n iova]
      by (cases fmt) (auto simp: amd_walk_start [OF lev] amd_walk_loop_panics_iff [OF lev] not_le)
  qed
  show "(\<exists>p. amd_walk fmt levels root iova fetch = Inl p) \<longleftrightarrow> levels = 0 \<or> 5 < levels \<or>
      (fmt = V1 \<or> unat iova < 2 ^ ?n) \<and> 2 ^ 64 \<le> unat root + 8 * unat (get_field (level_bits (unat levels)) 9 iova)"
    using out inside by (cases "levels = 0 \<or> 5 < levels") (auto simp: entry_overflows_def)
  show "amd_walk fmt levels root iova fetch \<noteq> Inl Unreachable"
    using out inside by (cases "levels = 0 \<or> 5 < levels") auto
  have "take_bit 12 (4096 * frame :: u64) = 0"
    using take_bit_push_bit [of 12 12 frame] by (simp add: push_bit_eq_mult mult.commute)
  then show "unat (4096 * frame) + 8 * unat (get_field (level_bits (unat levels)) 9 iova) < 2 ^ 64"
    using fits_no_overflow [OF aligned_fits, of "4096 * frame" iova "unat levels"] by (simp add: entry_overflows_def)
qed


text \<open>A v2 walk rejects every address beyond the width of the tree with
  \<open>AddressTooLarge\<close>, before it reads memory.\<close>

lemma amd_walk_v2_out_of_range:
  assumes "1 \<le> levels" "levels \<le> 5" "2 ^ (level_bits (unat levels) + 9) \<le> unat iova"
  shows "amd_walk V2 levels root iova fetch =
    Inr (Inl (AmdAddressTooLarge (of_nat (level_bits (unat levels) + 9))))"
  using drop_bit_nonzero [OF assms(3)] assms(1,2) by (simp add: amd_walk_start)

text \<open>A v1 walk makes no range check: it ignores the address bits above the width of
  the tree, so addresses that differ only there translate alike.\<close>

lemma amd_walk_v1_aliases:
  assumes "1 \<le> levels" "levels \<le> 5" "table_fits root"
  shows "amd_walk V1 levels root iova fetch =
    amd_walk V1 levels root (take_bit (level_bits (unat levels) + 9) iova) fetch"
  using amd_pt.loop_wraps [OF assms, of fetch iova] assms by (simp add: amd_walk_start)

text \<open>All addresses of one page translate through the same leaf: if a walk of \<open>iova\<close>
  ends at a leaf of level \<open>l\<close>, every address with the same bits above that level's page offset
  gets the same level, permissions and frame, with its own offset.\<close>

lemma amd_walk_same_page:
  assumes "1 \<le> levels" "levels \<le> 5" "table_fits root"
    and ok: "amd_walk fmt levels root iova fetch = Inr (Inr r)"
    and page: "drop_bit (level_bits (unat (amd_level r))) iova
      = drop_bit (level_bits (unat (amd_level r))) iova'"
  shows "amd_walk fmt levels root iova' fetch = Inr (Inr (r\<lparr>amd_physical :=
    (amd_perms r AND pa_mask) OR take_bit (level_bits (unat (amd_level r))) iova'\<rparr>))"
proof -
  have guard: "\<not> (drop_bit (tree_width levels) iova \<noteq> 0 \<and> fmt = V2)"
    and loop: "amd_walk_loop fetch iova root levels = Inr (Inr r)"
    using ok by (simp_all add: amd_walk_start [OF assms(1,2)] split: if_splits)
  obtain k e where k: "k \<le> unat levels" "unat (of_nat k :: u8) = k"
    and r: "r = amd_hit e iova (of_nat k)"
    and same: "\<And>va'. drop_bit (level_bits k) iova = drop_bit (level_bits k) va' \<Longrightarrow>
      amd_walk_loop fetch va' root levels = Inr (Inr (amd_hit e va' (of_nat k)))"
    using amd_pt.loop_same_page [OF assms(1-3) loop] by blast
  have page': "drop_bit (level_bits k) iova = drop_bit (level_bits k) iova'"
    using page k by (simp add: r amd_hit_def)
  have "drop_bit (tree_width levels) iova' = drop_bit (tree_width levels) iova"
    using page' k(1) by (rule drop_bit_page)
  then show ?thesis
    using guard same [OF page'] assms(1,2) k by (auto simp: amd_walk_start r amd_hit_def)
qed

text \<open>What a successful walk returns: a leaf of the tree, its level, and a 52-bit address.\<close>

lemma amd_walk_result:
  assumes "1 \<le> levels" "levels \<le> 5" "table_fits root"
    and ok: "amd_walk fmt levels root iova fetch = Inr (Inr r)"
  shows "1 \<le> amd_level r" "amd_level r \<le> levels" "bit (amd_perms r) 0"
    "amd_huge r \<longleftrightarrow> 1 < amd_level r" "unat (amd_physical r) < 2 ^ 52"
    "amd_physical r = (amd_perms r AND pa_mask) OR take_bit (level_bits (unat (amd_level r))) iova"
    "amd_perms r = fetch (last (walk_reads fetch iova root (unat levels)))"
    "unat (amd_level r) + length (walk_reads fetch iova root (unat levels)) = Suc (unat levels)"
proof -
  have loop: "amd_walk_loop fetch iova root levels = Inr (Inr r)"
    using ok by (simp add: amd_walk_start [OF assms(1,2)] split: if_splits)
  obtain k e where walk: "walks fetch iova root (unat levels) (Leaf k e)"
    and k: "1 \<le> k" "k \<le> unat levels" "unat (of_nat k :: u8) = k"
    and e: "bit e 0" "bit e 7 \<or> k = 1" "r = amd_hit e iova (of_nat k)"
    using amd_pt.loop_leaf [OF assms(1-3) loop] .
  show "amd_perms r = fetch (last (walk_reads fetch iova root (unat levels)))"
    "unat (amd_level r) + length (walk_reads fetch iova root (unat levels)) = Suc (unat levels)"
    using walks_leaf_read [OF walk refl] k e by (simp_all add: amd_hit_def)
  have "level_bits k \<le> 52" using k(2) assms(2) level_bits_bound [of k] by (simp add: word_le_nat_alt)
  then show "1 \<le> amd_level r" "amd_level r \<le> levels" "bit (amd_perms r) 0" "amd_huge r \<longleftrightarrow> 1 < amd_level r"
    "unat (amd_physical r) < 2 ^ 52"
    "amd_physical r = (amd_perms r AND pa_mask) OR take_bit (level_bits (unat (amd_level r))) iova"
    using k e frame_bound by (auto simp: amd_hit_def word_le_nat_alt word_less_nat_alt)
qed

text \<open>C23: Inside a superpage the walk joins frame and offset by OR and masks the frame at 4 KiB
  whatever its level: the addresses of the page a walk ended in get distinct physical addresses exactly when
  the leaf entry has no bits between bit 12 and the page size.\<close>

theorem amd_leaf_injective_iff:
  assumes "1 \<le> levels" "levels \<le> 5" "table_fits root"
    and ok: "amd_walk fmt levels root iova fetch = Inr (Inr r)"
    and n: "n = level_bits (unat (amd_level r))"
  shows "(\<forall>a b ra rb. drop_bit n a = drop_bit n iova \<longrightarrow> drop_bit n b = drop_bit n iova \<longrightarrow>
      amd_walk fmt levels root a fetch = Inr (Inr ra) \<longrightarrow> amd_walk fmt levels root b fetch = Inr (Inr rb) \<longrightarrow>
      amd_physical ra = amd_physical rb \<longrightarrow> a = b) \<longleftrightarrow> take_bit n (amd_perms r AND pa_mask) = 0"
proof -
  have page: "amd_walk fmt levels root a fetch = Inr (Inr (r\<lparr>amd_physical :=
      (amd_perms r AND pa_mask) OR take_bit n a\<rparr>))" if "drop_bit n a = drop_bit n iova" for a
    using amd_walk_same_page [OF assms(1-4), of a] that n by simp
  have "n \<le> 64"
    using amd_walk_result(2) [OF assms(1-4)] assms(2) level_bits_bound [of "unat (amd_level r)"]
    by (simp add: n word_le_nat_alt)
  then have "(\<forall>a b. drop_bit n a = drop_bit n iova \<longrightarrow> drop_bit n b = drop_bit n iova \<longrightarrow>
      (amd_perms r AND pa_mask) OR take_bit n a = (amd_perms r AND pa_mask) OR take_bit n b \<longrightarrow> a = b) \<longleftrightarrow>
      take_bit n (amd_perms r AND pa_mask) = 0"
    by (intro or_offset_inj_iff) simp
  then show ?thesis by (simp add: page cong: imp_cong)
qed

text \<open>Building and walking agree: if the memory holds, on the path of \<open>iova\<close>, the entries
  \<open>v2_table\<close> builds for a chain of page-aligned tables and at the end the entry \<open>v2_page\<close> builds
  for a frame, the walk of a tree of any depth from 1 to 5 returns that frame plus the page offset,
  with the permissions of the leaf.\<close>

lemma amd_walk_built:
  assumes depth: "length ts < 5" and root: "table_fits root"
    and range: "drop_bit (level_bits (Suc (length ts)) + 9) iova = 0"
    and tables: "\<And>i. i < length ts \<Longrightarrow>
      fetch (entry_addr ((root # ts) ! i) iova (Suc (length ts) - i)) = amd_v2_table (ts ! i)"
    and aligned: "\<And>t. t \<in> set ts \<Longrightarrow> t AND pa_mask = t"
    and page: "fetch (entry_addr (last (root # ts)) iova 1) = amd_v2_page pa rw us"
  shows "amd_walk V2 (of_nat (Suc (length ts))) root iova fetch =
    Inr (Inr \<lparr>amd_physical = (pa AND pa_mask) + take_bit 12 iova, amd_level = 1,
              amd_perms = amd_v2_page pa rw us, amd_huge = False\<rparr>)"
proof -
  let ?e = "amd_v2_page pa rw us"
  have "amd_walk_loop fetch iova root (of_nat (Suc (length ts))) = Inr (Inr (amd_hit ?e iova 1))"
    by (rule amd_pt.loop_built [where enc = amd_v2_table])
      (use depth root tables aligned page in \<open>auto simp: bit_simps\<close>)
  moreover have "amd_hit ?e iova 1 = \<lparr>amd_physical = (pa AND pa_mask) + take_bit 12 iova,
      amd_level = 1, amd_perms = ?e, amd_huge = False\<rparr>"
    by (simp add: amd_hit_def level_bits_def frame_plus_offset [OF take_bit_frame])
  ultimately show ?thesis
    using range u8_level [OF depth] by (simp add: amd_walk_start del: of_nat_Suc)
qed

section \<open>Concrete walks\<close>

text \<open>The four-level tree of the module documentation.\<close>

definition amd_doc_memory :: "u64 \<Rightarrow> u64" where
  "amd_doc_memory paddr =
     (if paddr = 0x1000 then 0x2000 OR amd_P_RW OR 1
      else if paddr = 0x2000 then 0x3000 OR amd_P_RW OR 1
      else if paddr = 0x3000 then 0x4000 OR amd_P_RW OR 1
      else if paddr = 0x4000 then 0x12345000 OR amd_P_RW OR 1
      else 0)"

lemma amd_doc_walk:
  "amd_walk V2 4 0x1000 0x123 amd_doc_memory =
    Inr (Inr \<lparr>amd_physical = 0x12345123, amd_level = 1, amd_perms = 0x12345003, amd_huge = False\<rparr>)"
  by (simp add: amd_walk_def amd_walk_loop.simps sub_chk_def AMD_LEVEL_SHIFT_def
      extract_bits_run_def extract_bits_def add_chk_def amd_doc_memory_def amd_P_RW_def amd_P_def
      amd_RW_def amd_PS_def AMD_PA_MASK_def)

text \<open>The tree the unit test \<^verbatim>\<open>walks_v2_leaf\<close> builds.\<close>

definition amd_test_memory :: "u64 \<Rightarrow> u64" where
  "amd_test_memory p =
     (if p = 0x1000 then amd_v2_table 0x2000
      else if p = 0x2000 then amd_v2_table 0x3000
      else if p = 0x3000 then amd_v2_table 0x4000
      else if p = 0x4000 then amd_v2_page 0x12345000 True False
      else 0)"

lemma amd_small_index:
  "get_field 39 9 (0x123 :: u64) = 0" "get_field 30 9 (0x123 :: u64) = 0"
  "get_field 21 9 (0x123 :: u64) = 0" "get_field 12 9 (0x123 :: u64) = 0"
  by (simp_all add: get_field_def)

theorem amd_walk_refines_witness:
  "\<exists>r. walks amd_doc_memory 0x123 0x1000 4 r \<and>
     Inr \<lparr>amd_physical = 0x12345123, amd_level = 1, amd_perms = 0x12345003, amd_huge = False\<rparr>
       = walk_answer AmdNotPresent amd_hit 0x123 r"
  using amd_walk_refines [of 4 "0x1000" V2 "0x123" amd_doc_memory "Inr \<lparr>amd_physical = 0x12345123,
      amd_level = 1, amd_perms = 0x12345003, amd_huge = False\<rparr>"] amd_doc_walk
  by (simp add: table_fits_def level_bits_def)

theorem amd_walk_panics_iff_witness:
  "(\<exists>p. amd_walk V1 6 0x1000 0 (\<lambda>_. 0) = Inl p) \<and> \<not> (\<exists>p. amd_walk V1 5 0x1000 0 (\<lambda>_. 0) = Inl p) \<and>
   (\<exists>p. amd_walk V1 5 0xfffffffffffffff9 0x1000000000000 (\<lambda>_. 0) = Inl p)"
  using amd_walk_panics_iff [of V1 6 "0x1000" 0 "\<lambda>_. 0"] amd_walk_panics_iff [of V1 5 "0x1000" 0 "\<lambda>_. 0"]
    amd_walk_panics_iff [of V1 5 "0xfffffffffffffff9" "0x1000000000000" "\<lambda>_. 0"]
  by (simp add: get_field_def level_bits_def)

text \<open>A 2 MiB leaf with bit 12 set (the PAT bit of an AMD64 large page), at level 2.\<close>

definition amd_pat_memory :: "u64 \<Rightarrow> u64" where
  "amd_pat_memory p = (if p = 0x1000 then 0x40001081 else 0)"

theorem amd_leaf_injective_iff_witness:
  "\<exists>a b r. amd_walk V1 2 0x1000 a amd_pat_memory = Inr (Inr r) \<and>
     amd_walk V1 2 0x1000 b amd_pat_memory = Inr (Inr r) \<and> a \<noteq> b"
proof -
  have ok: "amd_walk V1 2 0x1000 0 amd_pat_memory = Inr (Inr
      \<lparr>amd_physical = 0x40001000, amd_level = 2, amd_perms = 0x40001081, amd_huge = True\<rparr>)"
    by (simp add: amd_walk_def amd_walk_loop.simps sub_chk_def AMD_LEVEL_SHIFT_def
      extract_bits_run_def extract_bits_def add_chk_def amd_pat_memory_def amd_PS_def AMD_PA_MASK_def)
  have "\<not> take_bit 21 (0x40001081 AND pa_mask :: u64) = 0"
    by (simp add: pa_mask_def mask_numeral take_bit_eq_mask)
  then obtain a b ra rb where ab: "drop_bit 21 a = drop_bit 21 (0 :: u64)" "drop_bit 21 b = drop_bit 21 (0 :: u64)"
    "amd_walk V1 2 0x1000 a amd_pat_memory = Inr (Inr ra)" "amd_walk V1 2 0x1000 b amd_pat_memory = Inr (Inr rb)"
    "amd_physical ra = amd_physical rb" "a \<noteq> b"
    using amd_leaf_injective_iff [OF _ _ _ ok refl] by (auto simp: table_fits_def level_bits_def)
  moreover have "ra = rb"
    using amd_walk_same_page [OF _ _ _ ok, of a] amd_walk_same_page [OF _ _ _ ok, of b] ab
    by (simp add: table_fits_def level_bits_def)
  ultimately show ?thesis by blast
qed

end
