(* ===== verification/Intel_Pagetables.thy ===== *)
theory Intel_Pagetables
  imports Page_Walk
begin

text \<open>
  \<^verbatim>\<open>intel-iommu/src/pagetables.rs\<close>: the first- and second-stage page-table walker, the entry
  builders and the leaf iterator of a mapping request.  A \<open>bitflags\<close> value is represented by its
  bits; \<^verbatim>\<open>Perm::from_bits_truncate\<close>, generated by the \<open>bitflags\<close> crate, is the parameter \<open>trunc\<close>
  of the definitions that call it.
\<close>

section \<open>Stages, flags and results\<close>

datatype intel_stage = First | Second

type_synonym intel_perm = u64

definition intel_R :: intel_perm where "intel_R = push_bit 0 1"
definition intel_W :: intel_perm where "intel_W = push_bit 1 1"
definition intel_X :: intel_perm where "intel_X = push_bit 2 1"
definition intel_RW :: intel_perm where "intel_RW = intel_R OR intel_W"
definition intel_RWX :: intel_perm where "intel_RWX = intel_R OR intel_W OR intel_X"
definition intel_PAGE_SIZE :: intel_perm where "intel_PAGE_SIZE = push_bit 7 1"
definition intel_ACCESSED :: intel_perm where "intel_ACCESSED = push_bit 8 1"
definition intel_DIRTY :: intel_perm where "intel_DIRTY = push_bit 9 1"
definition intel_GLOBAL :: intel_perm where "intel_GLOBAL = push_bit 10 1"
definition intel_EXECUTE_DISABLE :: intel_perm where "intel_EXECUTE_DISABLE = push_bit 63 1"

definition intel_rxw :: "intel_perm \<Rightarrow> u8" where
  "intel_rxw p = ucast (p AND 0x7)"

text \<open>The flags the type defines, for the documented behaviour of \<^verbatim>\<open>from_bits_truncate\<close>.\<close>

definition intel_perm_all :: intel_perm where
  "intel_perm_all = intel_RWX OR intel_PAGE_SIZE OR intel_ACCESSED OR intel_DIRTY OR intel_GLOBAL OR
     intel_EXECUTE_DISABLE"

record intel_walk_result =
  intel_physical :: u64
  intel_level :: u8
  intel_perms :: intel_perm
  intel_huge :: bool

datatype intel_walk_error =
    IntelNotPresent u8
  | IntelAddressTooLarge u32

definition INTEL_LEVEL_SHIFT :: "u32 list" where
  "INTEL_LEVEL_SHIFT = [12, 21, 30, 39, 48]"

section \<open>The walker\<close>

function intel_walk_loop ::
  "(u64 \<Rightarrow> intel_perm) \<Rightarrow> (u64 \<Rightarrow> u64) \<Rightarrow> u64 \<Rightarrow> u64 \<Rightarrow> u8 \<Rightarrow>
   (intel_walk_error + intel_walk_result) run" where
  "intel_walk_loop trunc fetch vaddr table level =
     (if 0 < level then
        run_bind (index_chk INTEL_LEVEL_SHIFT (unat (level - 1))) (\<lambda>shift.
        run_bind (extract_bits_run vaddr (ucast (shift + 8)) (ucast shift)) (\<lambda>index.
        run_bind (add_chk table (push_bit 3 index)) (\<lambda>addr.
          let entry = fetch addr in
          if entry AND 1 = 0 then Inr (Inl (IntelNotPresent level))
          else
            let perms = trunc entry; ps = (entry AND push_bit 7 1 \<noteq> 0) in
            if ps \<or> level = 1 then
              let base = entry AND 0x000ffffffffff000; off_mask = push_bit (unat shift) 1 - 1 in
              Inr (Inr \<lparr>intel_physical = base OR (vaddr AND off_mask), intel_level = level,
                        intel_perms = perms, intel_huge = ps \<and> 1 < level\<rparr>)
            else intel_walk_loop trunc fetch vaddr (entry AND 0x000ffffffffff000) (level - 1))))
      else Inl Unreachable)"
  by pat_completeness auto
termination
  by (relation "measure (\<lambda>(trunc, fetch, vaddr, table, level). unat level)")
    (auto simp: unat_sub word_le_nat_alt word_less_nat_alt)

declare intel_walk_loop.simps [simp del]

definition intel_walk ::
  "(u64 \<Rightarrow> intel_perm) \<Rightarrow> intel_stage \<Rightarrow> u8 \<Rightarrow> u64 \<Rightarrow> u64 \<Rightarrow> (u64 \<Rightarrow> u64) \<Rightarrow>
   (intel_walk_error + intel_walk_result) run" where
  "intel_walk trunc stage levels root vaddr fetch =
     run_bind (sub_chk levels 1) (\<lambda>i.
     run_bind (index_chk INTEL_LEVEL_SHIFT (unat i)) (\<lambda>top_shift.
       let addr_bits = top_shift + 9 in
       if drop_bit (unat addr_bits) vaddr \<noteq> 0 \<and> stage = Second
       then Inr (Inl (IntelAddressTooLarge addr_bits))
       else intel_walk_loop trunc fetch vaddr root levels))"

definition intel_index_at :: "u64 \<Rightarrow> u8 \<Rightarrow> u64 run" where
  "intel_index_at vaddr level =
     run_bind (sub_chk level 1) (\<lambda>i.
     run_bind (index_chk INTEL_LEVEL_SHIFT (unat i)) (\<lambda>shift.
       extract_bits_run vaddr (ucast (shift + 8)) (ucast shift)))"

section \<open>Second-stage entries\<close>

datatype second_stage_pte = SecondStagePte (pte_bits: u64)

definition pte_EMPTY :: second_stage_pte where
  "pte_EMPTY = SecondStagePte 0"

definition pte_page :: "u64 \<Rightarrow> intel_perm \<Rightarrow> second_stage_pte" where
  "pte_page paddr perms = SecondStagePte ((paddr AND 0x000ffffffffff000) OR (perms AND 0x3) OR 1)"

definition pte_table :: "u64 \<Rightarrow> second_stage_pte" where
  "pte_table nxt =
     SecondStagePte ((nxt AND 0x000ffffffffff000) OR (intel_R OR intel_W OR intel_X) OR 1)"

definition pte_huge_page :: "u64 \<Rightarrow> intel_perm \<Rightarrow> second_stage_pte" where
  "pte_huge_page paddr perms =
     SecondStagePte ((paddr AND 0x000ffffffffff000) OR (perms AND 0x3) OR intel_PAGE_SIZE OR 1)"

definition pte_present :: "second_stage_pte \<Rightarrow> bool" where
  "pte_present p \<longleftrightarrow> pte_bits p AND 1 \<noteq> 0"

definition pte_perms :: "(u64 \<Rightarrow> intel_perm) \<Rightarrow> second_stage_pte \<Rightarrow> intel_perm" where
  "pte_perms trunc p = trunc (pte_bits p)"

definition pte_frame :: "second_stage_pte \<Rightarrow> u64" where
  "pte_frame p = pte_bits p AND 0x000ffffffffff000"

definition pte_with_accessed_dirty :: "second_stage_pte \<Rightarrow> bool \<Rightarrow> bool \<Rightarrow> second_stage_pte" where
  "pte_with_accessed_dirty p accessed dirty =
     (let v = pte_bits p;
          v = (if accessed then v OR intel_ACCESSED else v);
          v = (if dirty then v OR intel_DIRTY else v)
      in SecondStagePte v)"

definition first_stage_leaf :: "u64 \<Rightarrow> bool \<Rightarrow> bool \<Rightarrow> u64" where
  "first_stage_leaf paddr user writable =
     (let v = (paddr AND 0x000ffffffffff000) OR intel_ACCESSED OR intel_DIRTY OR 1;
          v = (if writable then v OR intel_W else v);
          v = (if user then v OR intel_X else v)
      in v)"

section \<open>Mapping requests\<close>

record map_range =
  guest_base :: u64
  host_base :: u64
  map_len :: u64
  map_perms :: intel_perm

text \<open>\<^verbatim>\<open>u64::div_ceil\<close>.\<close>

definition div_ceil_word :: "u64 \<Rightarrow> u64 \<Rightarrow> u64" where
  "div_ceil_word a b = (if 0 < a mod b then a div b + 1 else a div b)"

definition map_page_count :: "map_range \<Rightarrow> u64" where
  "map_page_count m = div_ceil_word (map_len m) 4096"

text \<open>
  The iterator \<^verbatim>\<open>leaves\<close> as the list of its items; an item is a run, because the address additions
  in the closure panic when they overflow.
\<close>

definition map_leaf :: "map_range \<Rightarrow> u64 \<Rightarrow> (u64 \<times> u64 \<times> second_stage_pte) run" where
  "map_leaf m i =
     run_bind (add_chk (guest_base m) (push_bit 12 i)) (\<lambda>g.
     run_bind (add_chk (host_base m) (push_bit 12 i)) (\<lambda>h.
       Inr (g, h, pte_page h (map_perms m))))"

definition map_leaves :: "map_range \<Rightarrow> (u64 \<times> u64 \<times> second_stage_pte) run list" where
  "map_leaves m = (let pages = map_page_count m in map (\<lambda>i. map_leaf m (of_nat i)) [0..<unat pages])"

section \<open>The walker keeps the contract\<close>

lemma intel_frame_mask: "(0x000ffffffffff000 :: u64) = pa_mask"
  by (simp add: pa_mask_def mask_numeral)

definition intel_hit :: "(u64 \<Rightarrow> intel_perm) \<Rightarrow> u64 \<Rightarrow> u64 \<Rightarrow> u8 \<Rightarrow> intel_walk_result" where
  "intel_hit trunc entry vaddr level =
     \<lparr>intel_physical = (entry AND pa_mask) OR take_bit (level_bits (unat level)) vaddr,
      intel_level = level, intel_perms = trunc entry, intel_huge = bit entry 7 \<and> 1 < level\<rparr>"

lemma intel_walk_loop_unfold:
  assumes "1 \<le> level" "level \<le> 5" "table_fits table"
  shows "intel_walk_loop trunc fetch vaddr table level =
      (let e = fetch (entry_addr table vaddr (unat level))
       in if \<not> bit e 0 then Inr (Inl (IntelNotPresent level))
          else if bit e 7 \<or> level = 1 then Inr (Inr (intel_hit trunc e vaddr level))
          else intel_walk_loop trunc fetch vaddr (e AND pa_mask) (level - 1))"
proof -
  have "0 < level" using assms(1) by (simp add: word_gt_0 word_le_nat_alt) auto
  then show ?thesis
    using assms
    by (subst intel_walk_loop.simps)
      (simp only: INTEL_LEVEL_SHIFT_def level_shift_lookup level_index_run entry_addr_chk
        run_bind_simps if_True intel_frame_mask flag_tests
        present_test Let_def intel_hit_def offset_mask level_bits_word)
qed

interpretation intel_pt: framed_walk "intel_walk_loop trunc" IntelNotPresent "intel_hit trunc"
  for trunc :: "u64 \<Rightarrow> intel_perm"
  by unfold_locales (auto simp: intel_walk_loop_unfold intel_hit_def)

section \<open>Entries as bits\<close>

lemma intel_flag_bits [bit_simps]:
  "bit intel_R n \<longleftrightarrow> n = 0" "bit intel_W n \<longleftrightarrow> n = 1" "bit intel_X n \<longleftrightarrow> n = 2"
  "bit intel_PAGE_SIZE n \<longleftrightarrow> n = 7" "bit intel_ACCESSED n \<longleftrightarrow> n = 8" "bit intel_DIRTY n \<longleftrightarrow> n = 9"
  "bit intel_GLOBAL n \<longleftrightarrow> n = 10" "bit intel_EXECUTE_DISABLE n \<longleftrightarrow> n = 63"
  by (simp_all only: intel_R_def intel_W_def intel_X_def intel_PAGE_SIZE_def intel_ACCESSED_def
      intel_DIRTY_def intel_GLOBAL_def intel_EXECUTE_DISABLE_def)
    (subst bit_flag; simp)+

lemma bit_pte_table [bit_simps]:
  "bit (pte_bits (pte_table t)) n \<longleftrightarrow> 12 \<le> n \<and> n < 52 \<and> bit t n \<or> n \<in> {0, 1, 2}"
  unfolding pte_table_def intel_frame_mask
  by (auto simp: bit_simps pa_mask_def)

lemma bit_pte_page [bit_simps]:
  "bit (pte_bits (pte_page h p)) n \<longleftrightarrow>
     12 \<le> n \<and> n < 52 \<and> bit h n \<or> n < 2 \<and> bit p n \<or> n = 0"
  unfolding pte_page_def intel_frame_mask
  by (auto simp: bit_simps pa_mask_def mask_words)

lemma bit_pte_huge_page [bit_simps]:
  "bit (pte_bits (pte_huge_page h p)) n \<longleftrightarrow>
     12 \<le> n \<and> n < 52 \<and> bit h n \<or> n < 2 \<and> bit p n \<or> n = 0 \<or> n = 7"
  unfolding pte_huge_page_def intel_frame_mask
  by (auto simp: bit_simps pa_mask_def mask_words)

lemma bit_first_stage_leaf [bit_simps]:
  "bit (first_stage_leaf pa user writable) n \<longleftrightarrow>
     12 \<le> n \<and> n < 52 \<and> bit pa n \<or> n \<in> {0, 8, 9} \<or> n = 1 \<and> writable \<or> n = 2 \<and> user"
  unfolding first_stage_leaf_def intel_frame_mask
  by (auto simp: bit_simps pa_mask_def Let_def)

lemma pte_frames [simp]:
  "pte_bits (pte_table t) AND pa_mask = t AND pa_mask"
  "pte_bits (pte_page h p) AND pa_mask = h AND pa_mask"
  "pte_bits (pte_huge_page h p) AND pa_mask = h AND pa_mask"
  by (rule bit_word_eqI, auto simp: bit_simps pa_mask_def)+

lemma unat_frame_bound: "unat h < 2 ^ 52 \<Longrightarrow> take_bit 12 h = 0 \<Longrightarrow> h AND pa_mask = h" for h :: u64
proof (rule bit_word_eqI)
  fix n assume h: "unat h < 2 ^ 52" "take_bit 12 h = 0"
  have "take_bit 52 h = h"
    using h(1) by (simp add: word_unat_eq_iff unsigned_take_bit_eq take_bit_nat_eq_self_iff)
  then have "bit h n \<Longrightarrow> n < 52" by (metis bit_take_bit_iff)
  moreover have "bit h n \<Longrightarrow> 12 \<le> n"
    using h(2) bit_take_bit_iff [of 12 h n] by auto
  ultimately show "bit (h AND pa_mask) n \<longleftrightarrow> bit h n" by (auto simp: bit_simps pa_mask_def)
qed

section \<open>Properties of the walk\<close>

lemma intel_walk_start:
  assumes "1 \<le> levels" "levels \<le> 5"
  shows "intel_walk trunc stage levels root vaddr fetch =
    (if drop_bit (tree_width levels) vaddr \<noteq> 0 \<and> stage = Second
     then Inr (Inl (IntelAddressTooLarge (of_nat (tree_width levels))))
     else intel_walk_loop trunc fetch vaddr root levels)"
proof -
  have top: "unat (of_nat (level_bits (unat levels)) + 9 :: u32) = tree_width levels"
    using assms by (auto dest!: u8_level_cases simp: level_bits_def)
  show ?thesis
    using assms
    by (simp add: intel_walk_def sub_chk_def INTEL_LEVEL_SHIFT_def level_shift_lookup Let_def top)
qed

text \<open>C2: The Intel walk refines the same abstract translation: for a tree of one to five levels
  it returns, and its answer is the outcome of \<open>walks\<close>, except that a second-stage address beyond the
  width of the tree is refused with \<open>AddressTooLarge\<close> before memory is read.\<close>

theorem intel_walk_refines:
  assumes "1 \<le> levels" "levels \<le> 5" "table_fits root"
  shows "intel_walk trunc stage levels root vaddr fetch = Inr x \<longleftrightarrow>
    (if stage = Second \<and> drop_bit (tree_width levels) vaddr \<noteq> 0
     then x = Inl (IntelAddressTooLarge (of_nat (tree_width levels)))
     else \<exists>r. walks fetch vaddr root (unat levels) r \<and>
            x = walk_answer IntelNotPresent (intel_hit trunc) vaddr r)"
  using intel_pt.loop_iff [of "unat levels" root trunc fetch vaddr x] assms u8_pos_nat
  by (auto simp: intel_walk_start)

text \<open>A first-stage walk checks neither the width of the tree nor canonicality: it ignores the
  address bits above the tree, so a non-canonical address translates like its truncation.\<close>

lemma intel_walk_first_aliases:
  assumes "1 \<le> levels" "levels \<le> 5" "table_fits root"
  shows "intel_walk trunc First levels root vaddr fetch =
    intel_walk trunc First levels root (take_bit (tree_width levels) vaddr) fetch"
  using intel_pt.loop_wraps [OF assms, of trunc fetch vaddr] assms by (simp add: intel_walk_start)

text \<open>All addresses of one page translate through the same leaf entry, each with its own
  offset; the level and the permissions are those of the leaf.\<close>

lemma intel_walk_same_page:
  assumes "1 \<le> levels" "levels \<le> 5" "table_fits root"
    and ok: "intel_walk trunc stage levels root vaddr fetch = Inr (Inr r)"
  shows "\<exists>e. bit e 0 \<and> (\<forall>vaddr'. drop_bit (level_bits (unat (intel_level r))) vaddr
      = drop_bit (level_bits (unat (intel_level r))) vaddr' \<longrightarrow>
      intel_walk trunc stage levels root vaddr' fetch
        = Inr (Inr (intel_hit trunc e vaddr' (intel_level r))))"
proof -
  have guard: "\<not> (drop_bit (tree_width levels) vaddr \<noteq> 0 \<and> stage = Second)"
    and loop: "intel_walk_loop trunc fetch vaddr root levels = Inr (Inr r)"
    using ok by (simp_all add: intel_walk_start [OF assms(1,2)] split: if_splits)
  obtain k e where k: "k \<le> unat levels" "unat (of_nat k :: u8) = k" "bit e 0"
    and r: "r = intel_hit trunc e vaddr (of_nat k)"
    and same: "\<And>va'. drop_bit (level_bits k) vaddr = drop_bit (level_bits k) va' \<Longrightarrow>
      intel_walk_loop trunc fetch va' root levels = Inr (Inr (intel_hit trunc e va' (of_nat k)))"
    using intel_pt.loop_same_page [OF assms(1-3) loop] by blast
  have lev: "intel_level r = of_nat k" by (simp add: r intel_hit_def)
  have "intel_walk trunc stage levels root va' fetch = Inr (Inr (intel_hit trunc e va' (of_nat k)))"
    if page: "drop_bit (level_bits k) vaddr = drop_bit (level_bits k) va'" for va'
    using guard same [OF page] drop_bit_page [OF page k(1)] assms(1,2)
    by (auto simp: intel_walk_start)
  then show ?thesis using k lev by auto
qed


section \<open>Properties of a mapping request\<close>

lemma page_ceil: "(n + 4095) div 4096 = n div 4096 + (if 0 < n mod 4096 then 1 else 0)" for n :: nat
proof -
  define q r where "q = n div 4096" and "r = n mod 4096"
  have n: "n = 4096 * q + r" and r: "r < 4096" by (simp_all add: q_def r_def)
  have "(4096 * q + (r + 4095)) div 4096 = q + (r + 4095) div 4096" by simp
  moreover have "(r + 4095) div 4096 = (if 0 < r then 1 else 0)"
    using r div_nat_eqI [of 1 4096 "r + 4095"] by auto
  ultimately show ?thesis by (simp add: n add.assoc flip: q_def r_def) (simp add: r)
qed

lemma unat_page_count: "unat (map_page_count m) = (unat (map_len m) + 4095) div 4096"
proof -
  let ?n = "unat (map_len m)"
  have q: "unat (map_len m div 4096) = ?n div 4096" "unat (map_len m mod 4096) = ?n mod 4096"
    by (simp_all add: unat_div unat_mod)
  have "?n div 4096 < 2 ^ 52"
    using unat_bound [of "map_len m"] by (simp add: less_mult_imp_div_less)
  then have "unat (map_len m div 4096 + 1) = ?n div 4096 + 1"
    by (subst unat_add_lem [THEN iffD1]) (simp_all add: q)
  moreover have "0 < map_len m mod 4096 \<longleftrightarrow> 0 < ?n mod 4096"
    by (simp add: word_less_nat_alt q)
  ultimately show ?thesis
    unfolding page_ceil map_page_count_def div_ceil_word_def by (simp add: q)
qed

lemma page_offset:
  assumes "i < unat (map_page_count m)"
  shows "4096 * i < 2 ^ 64" "unat (push_bit 12 (of_nat i) :: u64) = 4096 * i"
    "4096 * i < unat (map_len m) + 4095"
proof -
  have "Suc i * 4096 \<le> unat (map_len m) + 4095"
    using assms less_eq_div_iff_mult_less_eq [of 4096 "Suc i" "unat (map_len m) + 4095"]
    by (simp only: unat_page_count Suc_le_eq zero_less_numeral simp_thms)
  then show "4096 * i < 2 ^ 64" "4096 * i < unat (map_len m) + 4095"
    using unat_bound [of "map_len m"] by simp_all
  then have "unat (of_nat (push_bit 12 i) :: u64) = push_bit 12 i"
    by (intro unat_of_nat_in) (simp add: push_bit_eq_mult mult.commute)
  then show "unat (push_bit 12 (of_nat i) :: u64) = 4096 * i"
    by (simp only: push_bit_of_nat) (simp add: push_bit_eq_mult mult.commute)
qed

text \<open>The pages of the request end inside the address space.\<close>

definition map_fits :: "map_range \<Rightarrow> bool" where
  "map_fits m \<longleftrightarrow> unat (guest_base m) + unat (map_len m) + 4095 < 2 ^ 64 \<and>
     unat (host_base m) + unat (map_len m) + 4095 < 2 ^ 64"

text \<open>A mapping request yields exactly one leaf per 4 KiB page, in ascending order and without
  overflow: leaf \<open>i\<close> maps page \<open>i\<close> of the guest range to page \<open>i\<close> of the host range.\<close>

lemma map_leaves_eq:
  assumes "map_fits m"
  shows "map_leaves m = map (\<lambda>i. Inr (guest_base m + of_nat (4096 * i), host_base m + of_nat (4096 * i),
      pte_page (host_base m + of_nat (4096 * i)) (map_perms m))) [0..<(unat (map_len m) + 4095) div 4096]"
proof -
  have "map_leaf m (of_nat i) = Inr (guest_base m + of_nat (4096 * i), host_base m + of_nat (4096 * i),
      pte_page (host_base m + of_nat (4096 * i)) (map_perms m))"
    if "i < unat (map_page_count m)" for i
    using page_offset [OF that] assms
    by (simp add: map_leaf_def map_fits_def add_chk_in) (simp add: push_bit_eq_mult mult.commute)
  then show ?thesis by (simp add: map_leaves_def flip: unat_page_count)
qed

text \<open>C40: The leaves of any mapping request, whatever its bases, length and permissions: there are as many as
  4 KiB pages are started, so none for the empty request; item \<open>i\<close> pairs the addresses \<open>4096 * i\<close> above the two
  bases with an entry that holds bits 51:12 of the host address, is readable, and writable exactly if the
  request is (execute permission is not stored); and item \<open>i\<close> overflows, a panic of the debug profile, exactly
  when one of its two addresses exceeds 64 bits.\<close>

theorem map_range_leaves:
  "length (map_leaves m) = (unat (map_len m) + 4095) div 4096 \<and>
   (\<forall>i < length (map_leaves m). map_leaves m ! i =
     (if unat (guest_base m) + 4096 * i < 2 ^ 64 \<and> unat (host_base m) + 4096 * i < 2 ^ 64
      then Inr (guest_base m + of_nat (4096 * i), host_base m + of_nat (4096 * i),
                pte_page (host_base m + of_nat (4096 * i)) (map_perms m))
      else Inl AddOverflow)) \<and>
   (\<forall>h n. bit (pte_bits (pte_page h (map_perms m))) n \<longleftrightarrow>
      12 \<le> n \<and> n < 52 \<and> bit h n \<or> n = 1 \<and> bit (map_perms m) 1 \<or> n = 0)"
proof (intro conjI allI impI)
  show "length (map_leaves m) = (unat (map_len m) + 4095) div 4096"
    by (simp add: map_leaves_def unat_page_count)
  fix i assume "i < length (map_leaves m)"
  then have i: "i < unat (map_page_count m)" by (simp add: map_leaves_def)
  show "map_leaves m ! i =
     (if unat (guest_base m) + 4096 * i < 2 ^ 64 \<and> unat (host_base m) + 4096 * i < 2 ^ 64
      then Inr (guest_base m + of_nat (4096 * i), host_base m + of_nat (4096 * i),
                pte_page (host_base m + of_nat (4096 * i)) (map_perms m))
      else Inl AddOverflow)"
    using i page_offset [OF i]
    by (simp add: map_leaves_def map_leaf_def add_chk_def) (simp add: push_bit_eq_mult mult.commute)
next
  fix h n show "bit (pte_bits (pte_page h (map_perms m))) n \<longleftrightarrow>
      12 \<le> n \<and> n < 52 \<and> bit h n \<or> n = 1 \<and> bit (map_perms m) 1 \<or> n = 0"
    by (auto simp: bit_pte_page less_2_cases_iff)
qed

text \<open>The same request overflows, a panic of the debug profile, exactly when some page of the
  guest or of the host range starts beyond the address space.\<close>

lemma map_leaves_overflow_iff:
  "Inl p \<in> set (map_leaves m) \<longleftrightarrow> p = AddOverflow \<and>
     (\<exists>i < (unat (map_len m) + 4095) div 4096.
        2 ^ 64 \<le> unat (guest_base m) + 4096 * i \<or> 2 ^ 64 \<le> unat (host_base m) + 4096 * i)"
proof -
  have "map_leaf m (of_nat i) = Inl p \<longleftrightarrow> p = AddOverflow \<and>
      (2 ^ 64 \<le> unat (guest_base m) + 4096 * i \<or> 2 ^ 64 \<le> unat (host_base m) + 4096 * i)"
    if "i < unat (map_page_count m)" for i
    by (auto simp: map_leaf_def add_chk_def page_offset [OF that])
  moreover have "Inl p \<in> set (map_leaves m) \<longleftrightarrow>
      (\<exists>i < unat (map_page_count m). map_leaf m (of_nat i) = Inl p)"
    by (simp add: map_leaves_def image_iff Let_def Bex_def) metis
  ultimately show ?thesis by (simp only: flip: unat_page_count) blast
qed

text \<open>Byte \<open>k\<close> of a page-aligned range: its page and its offset.\<close>

lemma aligned_byte:
  fixes b :: u64
  assumes "take_bit 12 b = 0" "unat b + k < 2 ^ 64"
  shows "unat (b + of_nat k) = unat b + k"
    "take_bit 12 (b + of_nat k) = of_nat (k mod 4096)"
    "drop_bit 12 (b + of_nat k) = drop_bit 12 (b + of_nat (4096 * (k div 4096)))"
    "take_bit 12 (b + of_nat (4096 * (k div 4096))) = 0"
proof -
  have add: "unat (b + of_nat j) = unat b + j" if "j \<le> k" for j
    using that assms(2) by (subst unat_add_lem [THEN iffD1]) (simp_all add: unat_of_nat_in)
  have b: "4096 dvd unat b"
    using arg_cong [OF assms(1), of unat] unfolding unsigned_take_bit_eq
    by (simp add: take_bit_eq_mod dvd_eq_mod_eq_0)
  have j: "4096 * (k div 4096) \<le> k" by simp
  have "k mod 4096 < 4096" by simp
  then have m: "unat (of_nat (k mod 4096) :: u64) = k mod 4096" by (intro unat_of_nat_in) simp
  show "unat (b + of_nat k) = unat b + k" by (simp add: add)
  show "take_bit 12 (b + of_nat k) = of_nat (k mod 4096)"
    unfolding word_unat_eq_iff unsigned_take_bit_eq add [OF order_refl] m
    using b by (simp add: take_bit_eq_mod dvd_eq_mod_eq_0 flip: mod_add_left_eq [of "unat b"])
  show "drop_bit 12 (b + of_nat k) = drop_bit 12 (b + of_nat (4096 * (k div 4096)))"
    unfolding word_unat_eq_iff unat_drop_bit_eq add [OF j] add [OF order_refl]
    using b by (auto simp: drop_bit_eq_div elim!: dvdE)
  show "take_bit 12 (b + of_nat (4096 * (k div 4096))) = 0"
    unfolding word_unat_eq_iff unsigned_take_bit_eq add [OF j]
    using b by (simp add: take_bit_eq_mod dvd_eq_mod_eq_0 flip: mod_add_left_eq [of "unat b"])
qed

lemma host_byte:
  fixes hb gb :: u64
  assumes "take_bit 12 gb = 0" "take_bit 12 hb = 0" "unat gb + k < 2 ^ 64" "unat hb + k < 2 ^ 52"
  shows "(hb + of_nat (4096 * (k div 4096)) AND pa_mask) OR take_bit 12 (gb + of_nat k) = hb + of_nat k"
proof -
  let ?h = "hb + of_nat (4096 * (k div 4096))"
  have hb: "unat hb + k < 2 ^ 64" using assms(4) by simp
  have j: "4096 * (k div 4096) \<le> k" by simp
  have "unat ?h = unat hb + 4096 * (k div 4096)"
    using aligned_byte(1) [OF assms(2), of "4096 * (k div 4096)"] hb j by simp
  then have "?h AND pa_mask = ?h"
    using assms(4) j aligned_byte(4) [OF assms(2) hb] by (intro unat_frame_bound) simp_all
  moreover have "(of_nat (4096 * (k div 4096)) + of_nat (k mod 4096) :: u64) = of_nat k"
    unfolding of_nat_add [symmetric] by simp
  ultimately show ?thesis
    using frame_plus_offset [OF aligned_byte(4) [OF assms(2) hb], of "gb + of_nat k"]
      aligned_byte(2) [OF assms(1,3)]
    by (simp add: add.assoc del: of_nat_mult)
qed

text \<open>Mapping and walking agree: when the leaves of a request over page-aligned ranges have been
  stored in the level-1 table and the tables above are linked by \<open>table\<close> entries, walking byte \<open>k\<close>
  of the guest range gives byte \<open>k\<close> of the host range.\<close>

lemma map_range_walk:
  assumes depth: "length ts < 5" and root: "table_fits root" and fits: "map_fits m"
    and k: "k < unat (map_len m)" and va: "va = guest_base m + of_nat k"
    and aligned: "take_bit 12 (guest_base m) = 0" "take_bit 12 (host_base m) = 0"
    and host: "unat (host_base m) + unat (map_len m) < 2 ^ 52"
    and range: "drop_bit (level_bits (Suc (length ts)) + 9) va = 0"
    and tables: "\<And>i. i < length ts \<Longrightarrow>
      fetch (entry_addr ((root # ts) ! i) va (Suc (length ts) - i)) = pte_bits (pte_table (ts ! i))"
    and tables_aligned: "\<And>t. t \<in> set ts \<Longrightarrow> t AND pa_mask = t"
    and stored: "\<And>g h e. Inr (g, h, e) \<in> set (map_leaves m) \<Longrightarrow> drop_bit 12 g = drop_bit 12 va \<Longrightarrow>
      fetch (entry_addr (last (root # ts)) g 1) = pte_bits e"
  shows "\<exists>e. intel_walk trunc Second (of_nat (Suc (length ts))) root va fetch =
    Inr (Inr \<lparr>intel_physical = host_base m + of_nat k, intel_level = 1, intel_perms = trunc e,
              intel_huge = False\<rparr>) \<and> (bit e 1 \<longleftrightarrow> bit (map_perms m) 1)"
proof -
  define i where "i = k div 4096"
  define g h where "g = guest_base m + of_nat (4096 * i)" and "h = host_base m + of_nat (4096 * i)"
  let ?e = "pte_page h (map_perms m)"
  have i: "i < (unat (map_len m) + 4095) div 4096"
    using k less_eq_div_iff_mult_less_eq [of 4096 "Suc i" "unat (map_len m) + 4095"]
    by (simp add: i_def Suc_le_eq)
  then have "Inr (g, h, ?e) \<in> set (map_leaves m)"
    unfolding map_leaves_eq [OF fits] set_map set_upt g_def h_def
    by (intro image_eqI [of _ _ i]) simp_all
  moreover have guest: "drop_bit 12 g = drop_bit 12 va"
    using aligned_byte(3) [OF aligned(1), of k] fits k by (simp add: map_fits_def g_def va i_def)
  ultimately have "fetch (entry_addr (last (root # ts)) g 1) = pte_bits ?e" by (rule stored)
  moreover have "entry_addr t g 1 = entry_addr t va 1" for t
    using guest by (simp add: entry_addr_def get_field_def level_bits_def)
  ultimately have "intel_walk_loop trunc fetch va root (of_nat (Suc (length ts)))
      = Inr (Inr (intel_hit trunc (pte_bits ?e) va 1))"
    by (intro intel_pt.loop_built [where enc = "\<lambda>t. pte_bits (pte_table t)"])
      (use depth root tables tables_aligned in \<open>auto simp: bit_pte_page bit_pte_table\<close>)
  then have "intel_walk trunc Second (of_nat (Suc (length ts))) root va fetch
      = Inr (Inr (intel_hit trunc (pte_bits ?e) va 1))"
    using range u8_level [OF depth] by (simp add: intel_walk_start del: of_nat_Suc)
  moreover have "(h AND pa_mask) OR take_bit 12 va = host_base m + of_nat k"
    unfolding h_def va i_def
    by (rule host_byte) (use host k fits aligned in \<open>simp_all add: map_fits_def\<close>)
  ultimately show ?thesis
    by (intro exI [of _ "pte_bits ?e"]) (simp add: intel_hit_def level_bits_def bit_pte_page)
qed


section \<open>Concrete walks\<close>

text \<open>The four-level tree of the module documentation, and the documented behaviour of
  \<^verbatim>\<open>from_bits_truncate\<close>: it keeps the flags the type defines.\<close>

definition intel_doc_memory :: "u64 \<Rightarrow> u64" where
  "intel_doc_memory paddr =
     (if paddr = 0x1000 then 0x2000 OR intel_RW OR 1
      else if paddr = 0x2000 then 0x3000 OR intel_RW OR 1
      else if paddr = 0x3000 then 0x4000 OR intel_RW OR 1
      else if paddr = 0x4000 then 0x12345000 OR intel_RW OR 1
      else 0)"

definition intel_trunc :: "u64 \<Rightarrow> intel_perm" where
  "intel_trunc v = v AND intel_perm_all"

lemma intel_doc_walk:
  "intel_walk intel_trunc Second 4 0x1000 0x123 intel_doc_memory =
    Inr (Inr \<lparr>intel_physical = 0x12345123, intel_level = 1, intel_perms = 3, intel_huge = False\<rparr>)"
  by (simp add: intel_walk_def intel_walk_loop.simps sub_chk_def INTEL_LEVEL_SHIFT_def
      extract_bits_run_def extract_bits_def add_chk_def intel_doc_memory_def intel_RW_def intel_RWX_def
      intel_R_def intel_W_def intel_X_def intel_trunc_def intel_perm_all_def intel_PAGE_SIZE_def
      intel_ACCESSED_def intel_DIRTY_def intel_GLOBAL_def intel_EXECUTE_DISABLE_def)

theorem intel_walk_refines_witness:
  "\<exists>r. walks intel_doc_memory 0x123 0x1000 4 r \<and>
     Inr \<lparr>intel_physical = 0x12345123, intel_level = 1, intel_perms = 3, intel_huge = False\<rparr>
       = walk_answer IntelNotPresent (intel_hit intel_trunc) 0x123 r"
  using intel_walk_refines [of 4 "0x1000" intel_trunc Second "0x123" intel_doc_memory
      "Inr \<lparr>intel_physical = 0x12345123, intel_level = 1, intel_perms = 3, intel_huge = False\<rparr>"]
    intel_doc_walk
  by (simp add: table_fits_def level_bits_def)

text \<open>Three pages of guest memory at 0x1000, and the tables that map them.\<close>

definition sample_range :: map_range where
  "sample_range = \<lparr>guest_base = 0x1000, host_base = 0x9000, map_len = 0x2800, map_perms = intel_RW\<rparr>"

definition sample_memory :: "u64 \<Rightarrow> u64" where
  "sample_memory p =
     (if p = 0x10000 then pte_bits (pte_table 0x20000)
      else if p = 0x20000 then pte_bits (pte_table 0x30000)
      else if p = 0x30008 then pte_bits (pte_page 0x9000 intel_RW)
      else if p = 0x30010 then pte_bits (pte_page 0xa000 intel_RW)
      else if p = 0x30018 then pte_bits (pte_page 0xb000 intel_RW)
      else 0)"

lemma map_leaves_example:
  "map_leaves sample_range =
    [Inr (0x1000, 0x9000, pte_page 0x9000 intel_RW), Inr (0x2000, 0xa000, pte_page 0xa000 intel_RW),
     Inr (0x3000, 0xb000, pte_page 0xb000 intel_RW)]"
  using map_leaves_eq [of sample_range]
  by (simp add: map_fits_def sample_range_def upt_rec)

text \<open>A request whose second page would start at the end of the address space.\<close>

theorem map_range_leaves_witness:
  "map_leaves (sample_range\<lparr>guest_base := 0xfffffffffffff000\<rparr>) ! 0 =
     Inr (0xfffffffffffff000, 0x9000, pte_page 0x9000 intel_RW) \<and>
   map_leaves (sample_range\<lparr>guest_base := 0xfffffffffffff000\<rparr>) ! 1 = Inl AddOverflow"
  using map_range_leaves [of "sample_range\<lparr>guest_base := 0xfffffffffffff000\<rparr>"]
  by (simp add: sample_range_def)

lemma sample_leaves: "map_leaves sample_range =
    [Inr (0x1000, 0x9000, pte_page 0x9000 intel_RW), Inr (0x2000, 0xa000, pte_page 0xa000 intel_RW),
     Inr (0x3000, 0xb000, pte_page 0xb000 intel_RW)]"
  by (simp add: map_leaves_def map_leaf_def map_page_count_def div_ceil_word_def sample_range_def
      upt_rec add_chk_def)

end
