(* ===== verification/Translation.thy ===== *)
theory Translation
  imports Amd_Pagetables Intel_Pagetables
begin

text \<open>
  What holds of both walkers: they are one function, they read at most one entry per level, their
  results are well formed, accessed and dirty flags do not matter to them, an update of one entry changes
  exactly the walks that read it, and over tables whose leaves are known they reach nothing else.
\<close>

section \<open>The two walkers\<close>

text \<open>
  The crates share no code, but their walkers are the same function: the answer of the AMD walker, with
  the names of the Intel crate and the permission bits truncated instead of retained, is the answer of the
  Intel walker.
\<close>

fun intel_of_amd ::
  "(u64 \<Rightarrow> intel_perm) \<Rightarrow> amd_walk_error + amd_walk_result \<Rightarrow> intel_walk_error + intel_walk_result" where
  "intel_of_amd trunc (Inl (AmdNotPresent l)) = Inl (IntelNotPresent l)"
| "intel_of_amd trunc (Inl (AmdAddressTooLarge b)) = Inl (IntelAddressTooLarge b)"
| "intel_of_amd trunc (Inr r) = Inr \<lparr>intel_physical = amd_physical r, intel_level = amd_level r,
     intel_perms = trunc (amd_perms r), intel_huge = amd_huge r\<rparr>"

fun format_of_stage :: "intel_stage \<Rightarrow> amd_format" where
  "format_of_stage First = V1"
| "format_of_stage Second = V2"

lemma walk_loops_agree:
  "intel_walk_loop trunc fetch va table level =
   map_sum id (intel_of_amd trunc) (amd_walk_loop fetch va table level)"
proof (induction fetch va table level rule: amd_walk_loop.induct)
  case (1 fetch va table level)
  have descend: "intel_walk_loop trunc fetch va (fetch a AND AMD_PA_MASK) (level - 1) =
      map_sum id (intel_of_amd trunc) (amd_walk_loop fetch va (fetch a AND AMD_PA_MASK) (level - 1))"
    if "0 < level" "fetch a AND 1 \<noteq> 0" "\<not> (fetch a AND amd_PS \<noteq> 0 \<or> level = 1)" for a
    using that by (intro 1) (rule refl | assumption)+
  show ?case
    by (subst intel_walk_loop.simps, subst amd_walk_loop.simps)
      (auto simp: AMD_LEVEL_SHIFT_def INTEL_LEVEL_SHIFT_def AMD_PA_MASK_def amd_PS_def Let_def run_bind_def
        split: sum.splits intro: descend [unfolded AMD_PA_MASK_def amd_PS_def])
qed

lemma walks_equal:
  "intel_walk trunc stage levels root va fetch =
   map_sum id (intel_of_amd trunc) (amd_walk (format_of_stage stage) levels root va fetch)"
  by (cases stage) (auto simp: intel_walk_def amd_walk_def AMD_LEVEL_SHIFT_def INTEL_LEVEL_SHIFT_def
      run_bind_def Let_def walk_loops_agree split: sum.splits)

text \<open>C7: The walkers of the two crates are equivalent: for every memory, root, address and number of
  levels, the Intel walker of a stage and the AMD walker of the corresponding format (first stage as v1,
  second stage as v2) panic alike, report the same errors and return the same address, level and page
  size; the permissions differ only in that the Intel crate truncates them to the flags it knows.\<close>

theorem walkers_agree:
  "intel_walk trunc stage levels root va fetch =
   map_sum id (intel_of_amd trunc) (amd_walk (format_of_stage stage) levels root va fetch)"
  by (rule walks_equal)

text \<open>C18: A walk reads at most one entry per level, even over cyclic or corrupt tables: there is a list of
  at most \<open>levels\<close> addresses such that any other memory with the same entries there gives both walkers the
  same answer.\<close>

theorem walk_reads_bounded:
  assumes "1 \<le> levels" "levels \<le> 5" "table_fits root"
  shows "\<exists>as. length as \<le> unat levels \<and> (\<forall>fetch'. (\<forall>a \<in> set as. fetch' a = fetch a) \<longrightarrow>
    amd_walk fmt levels root va fetch' = amd_walk fmt levels root va fetch \<and>
    intel_walk trunc stage levels root va fetch' = intel_walk trunc stage levels root va fetch)"
proof (intro exI [of _ "walk_reads fetch va root (unat levels)"] conjI allI impI)
  fix fetch' assume same: "\<forall>a \<in> set (walk_reads fetch va root (unat levels)). fetch' a = fetch a"
  have pos: "0 < unat levels" "unat levels \<le> 5" using u8_pos_nat assms by auto
  show "amd_walk fmt levels root va fetch' = amd_walk fmt levels root va fetch"
    using amd_pt.loop_reads [OF pos assms(3) same] assms by (simp add: amd_walk_start)
  show "intel_walk trunc stage levels root va fetch' = intel_walk trunc stage levels root va fetch"
    using intel_pt.loop_reads [OF pos assms(3) same] assms by (simp add: intel_walk_start)
qed (rule length_walk_reads)

text \<open>A directory that points to itself.\<close>

theorem walk_reads_bounded_witness:
  "\<exists>as. length as \<le> 4 \<and> (\<forall>fetch'. (\<forall>a \<in> set as. fetch' a = 0x1003) \<longrightarrow>
     amd_walk V1 4 0x1000 0 fetch' = amd_walk V1 4 0x1000 0 (\<lambda>_. 0x1003))"
  using walk_reads_bounded [of 4 "0x1000" "\<lambda>_. 0x1003" V1 0 "\<lambda>e. e" First]
  by (simp add: table_fits_def) blast

text \<open>C19: What a successful walk over one to five levels returns is well formed, in both crates, for every
  root whose table does not reach the end of the address space: a level of the tree, which is the number of
  levels less the entries read before the leaf; a leaf that is huge exactly above level 1; an address of at most
  52 bits; and the permissions of the last entry the walk read, which is present: on the AMD side that entry
  itself, on the Intel side its truncation to the permission flags.\<close>

theorem walk_results_typed:
  assumes "1 \<le> levels" "levels \<le> 5" "table_fits root"
  shows "(amd_walk fmt levels root va fetch = Inr (Inr r) \<longrightarrow>
      1 \<le> amd_level r \<and> amd_level r \<le> levels \<and> (amd_huge r \<longleftrightarrow> 1 < amd_level r) \<and>
      unat (amd_level r) + length (walk_reads fetch va root (unat levels)) = Suc (unat levels) \<and>
      amd_perms r = fetch (last (walk_reads fetch va root (unat levels))) \<and>
      bit (amd_perms r) 0 \<and> unat (amd_physical r) < 2 ^ 52) \<and>
    (intel_walk trunc stage levels root va fetch = Inr (Inr s) \<longrightarrow>
      1 \<le> intel_level s \<and> intel_level s \<le> levels \<and> (intel_huge s \<longleftrightarrow> 1 < intel_level s) \<and>
      unat (intel_level s) + length (walk_reads fetch va root (unat levels)) = Suc (unat levels) \<and>
      intel_perms s = trunc (fetch (last (walk_reads fetch va root (unat levels)))) \<and>
      bit (fetch (last (walk_reads fetch va root (unat levels)))) 0 \<and> unat (intel_physical s) < 2 ^ 52)"
proof (intro conjI impI)
  assume "amd_walk fmt levels root va fetch = Inr (Inr r)"
  note leaf = amd_walk_result [OF assms this]
  show "1 \<le> amd_level r" "amd_level r \<le> levels" "amd_huge r \<longleftrightarrow> 1 < amd_level r" "bit (amd_perms r) 0"
    "amd_perms r = fetch (last (walk_reads fetch va root (unat levels)))"
    "unat (amd_level r) + length (walk_reads fetch va root (unat levels)) = Suc (unat levels)"
    "unat (amd_physical r) < 2 ^ 52" by (rule leaf)+
next
  assume "intel_walk trunc stage levels root va fetch = Inr (Inr s)"
  then obtain t where t: "amd_walk (format_of_stage stage) levels root va fetch = Inr t"
    "intel_of_amd trunc t = Inr s"
    by (cases "amd_walk (format_of_stage stage) levels root va fetch") (auto simp: walks_equal)
  then obtain r where r: "t = Inr r" by (cases rule: intel_of_amd.cases [of "(trunc, t)"]) auto
  note leaf = amd_walk_result [OF assms t(1) [unfolded r]]
  have s: "s = \<lparr>intel_physical = amd_physical r, intel_level = amd_level r, intel_perms = trunc (amd_perms r),
    intel_huge = amd_huge r\<rparr>" using t(2) r by simp
  show "1 \<le> intel_level s" "intel_level s \<le> levels" "intel_huge s \<longleftrightarrow> 1 < intel_level s"
    "unat (intel_level s) + length (walk_reads fetch va root (unat levels)) = Suc (unat levels)"
    "intel_perms s = trunc (fetch (last (walk_reads fetch va root (unat levels))))"
    "bit (fetch (last (walk_reads fetch va root (unat levels)))) 0" "unat (intel_physical s) < 2 ^ 52"
    using leaf(5) by (simp_all add: s leaf(1-4,8) leaf(7) [symmetric])
qed

theorem walk_results_typed_witness:
  "amd_walk V2 4 0x1000 0x123 amd_doc_memory = Inr (Inr \<lparr>amd_physical = 0x12345123, amd_level = 1,
     amd_perms = 0x12345003, amd_huge = False\<rparr>) \<and> (0x12345123 :: nat) < 2 ^ 52"
  using walk_results_typed [of 4 "0x1000" V2 "0x123" amd_doc_memory "\<lparr>amd_physical = 0x12345123,
      amd_level = 1, amd_perms = 0x12345003, amd_huge = False\<rparr>"] amd_doc_walk
  by (simp add: table_fits_def)

section \<open>Marking entries\<close>

text \<open>
  Memory in which the hardware, or an emulator with \<^verbatim>\<open>with_accessed_dirty\<close>, has set the accessed and dirty
  flags of some entries: \<open>acc\<close> and \<open>dirty\<close> say at which addresses.
\<close>

definition intel_marked :: "(u64 \<Rightarrow> bool) \<Rightarrow> (u64 \<Rightarrow> bool) \<Rightarrow> (u64 \<Rightarrow> u64) \<Rightarrow> u64 \<Rightarrow> u64" where
  "intel_marked acc dirty fetch a = pte_bits (pte_with_accessed_dirty (SecondStagePte (fetch a)) (acc a) (dirty a))"

definition amd_marked :: "(u64 \<Rightarrow> bool) \<Rightarrow> (u64 \<Rightarrow> bool) \<Rightarrow> (u64 \<Rightarrow> u64) \<Rightarrow> u64 \<Rightarrow> u64" where
  "amd_marked acc dirty fetch a =
     fetch a OR (if acc a then amd_ACCESSED else 0) OR (if dirty a then amd_DIRTY else 0)"

lemma marked_entries:
  "intel_marked acc dirty fetch a AND 1 = fetch a AND 1"
  "intel_marked acc dirty fetch a AND amd_PS = fetch a AND amd_PS"
  "intel_marked acc dirty fetch a AND AMD_PA_MASK = fetch a AND AMD_PA_MASK"
  "amd_marked acc dirty fetch a AND 1 = fetch a AND 1"
  "amd_marked acc dirty fetch a AND amd_PS = fetch a AND amd_PS"
  "amd_marked acc dirty fetch a AND AMD_PA_MASK = fetch a AND AMD_PA_MASK"
  by (auto simp: AMD_PA_MASK_eq intel_marked_def amd_marked_def pte_with_accessed_dirty_def Let_def
      bit_simps intro!: bit_word_eqI split: if_splits)

lemma amd_walk_entries:
  assumes "\<And>a. fetch' a AND 1 = fetch a AND 1" "\<And>a. fetch' a AND amd_PS = fetch a AND amd_PS"
    "\<And>a. fetch' a AND AMD_PA_MASK = fetch a AND AMD_PA_MASK"
  shows "\<exists>a. amd_walk fmt levels root va fetch' =
      map_walk (amd_perms_update (\<lambda>_. fetch' a)) (amd_walk fmt levels root va fetch) \<and>
    map_walk (amd_perms_update (\<lambda>_. fetch a)) (amd_walk fmt levels root va fetch) =
      amd_walk fmt levels root va fetch"
  using amd_walk_loop_entries [of fetch' fetch va root levels, OF assms]
  by (auto simp: amd_walk_def run_bind_def Let_def split: sum.splits)

lemma intel_of_amd_perms:
  "map_sum id (intel_of_amd trunc) (map_walk (amd_perms_update (\<lambda>_. e)) x) =
   map_walk (intel_perms_update (\<lambda>_. trunc e)) (map_sum id (intel_of_amd trunc) x)"
proof (cases x)
  case (Inr y)
  then show ?thesis by (cases "(trunc, y)" rule: intel_of_amd.cases) auto
qed simp

text \<open>C8: Accessed and dirty flags are invisible to a walk: a walk over a memory in which they have been set in
  any entries, tables and leaves alike, before the walk starts, returns the same fault or the same address, level
  and page size as the walk over the memory without them, in both crates, and panics exactly if that one
  does; only the reported permissions are those of the marked leaf entry.  (The memory is fixed while a walk
  runs; flags that are set in the middle of a walk are not covered.)\<close>

theorem marking_keeps_walks:
  "(\<exists>a. amd_walk fmt levels root va (amd_marked acc dirty fetch) =
      map_walk (amd_perms_update (\<lambda>_. amd_marked acc dirty fetch a)) (amd_walk fmt levels root va fetch) \<and>
    map_walk (amd_perms_update (\<lambda>_. fetch a)) (amd_walk fmt levels root va fetch) =
      amd_walk fmt levels root va fetch) \<and>
   (\<exists>a. intel_walk trunc stage levels root va (intel_marked acc dirty fetch) =
      map_walk (intel_perms_update (\<lambda>_. trunc (intel_marked acc dirty fetch a)))
        (intel_walk trunc stage levels root va fetch) \<and>
    map_walk (intel_perms_update (\<lambda>_. trunc (fetch a))) (intel_walk trunc stage levels root va fetch) =
      intel_walk trunc stage levels root va fetch)"
proof -
  obtain a where "amd_walk (format_of_stage stage) levels root va (intel_marked acc dirty fetch) =
      map_walk (amd_perms_update (\<lambda>_. intel_marked acc dirty fetch a))
        (amd_walk (format_of_stage stage) levels root va fetch)"
    "map_walk (amd_perms_update (\<lambda>_. fetch a)) (amd_walk (format_of_stage stage) levels root va fetch) =
      amd_walk (format_of_stage stage) levels root va fetch"
    using amd_walk_entries [of "intel_marked acc dirty fetch" fetch, OF marked_entries(1-3)] by blast
  moreover have "\<exists>a. amd_walk fmt levels root va (amd_marked acc dirty fetch) =
      map_walk (amd_perms_update (\<lambda>_. amd_marked acc dirty fetch a)) (amd_walk fmt levels root va fetch) \<and>
    map_walk (amd_perms_update (\<lambda>_. fetch a)) (amd_walk fmt levels root va fetch) =
      amd_walk fmt levels root va fetch"
    by (rule amd_walk_entries) (rule marked_entries)+
  ultimately show ?thesis unfolding walks_equal by (metis intel_of_amd_perms)
qed

section \<open>Updating entries\<close>

lemma unread_update:
  assumes "1 \<le> levels" "levels \<le> 5" "table_fits root" "a \<notin> set (walk_reads fetch va root (unat levels))"
  shows "amd_walk fmt levels root va (fetch(a := e)) = amd_walk fmt levels root va fetch"
    "intel_walk trunc stage levels root va (fetch(a := e)) = intel_walk trunc stage levels root va fetch"
proof -
  have pos: "0 < unat levels" "unat levels \<le> 5" using u8_pos_nat assms(1,2) by auto
  have same: "\<forall>x \<in> set (walk_reads fetch va root (unat levels)). (fetch(a := e)) x = fetch x"
    using assms(4) by auto
  show "amd_walk fmt levels root va (fetch(a := e)) = amd_walk fmt levels root va fetch"
    using amd_pt.loop_reads [where fetch' = "fetch(a := e)", OF pos assms(3) same] assms(1,2)
    by (simp add: amd_walk_start del: fun_upd_apply)
  show "intel_walk trunc stage levels root va (fetch(a := e)) = intel_walk trunc stage levels root va fetch"
    using intel_pt.loop_reads [where fetch' = "fetch(a := e)", OF pos assms(3) same] assms(1,2)
    by (simp add: intel_walk_start del: fun_upd_apply)
qed

text \<open>C9: Unmapping and remapping one entry. Let \<open>a\<close> be the last entry the walk of an address reads, at level
  \<open>n\<close> and not read before. Storing \<open>EMPTY\<close> there makes the address fault at that level; storing a page entry of
  either crate at level 1, or a superpage entry above it, moves the address to the new frame with the new
  permissions; and every address whose walk does not read the entry translates, or faults, as before.\<close>

theorem entry_update:
  assumes "1 \<le> levels" "levels \<le> 5" "table_fits root" "drop_bit (tree_width levels) va = 0"
    and "walk_reads fetch va root (unat levels) = as @ [a]" "a \<notin> set as" "n = unat levels - length as"
  shows "intel_walk trunc stage levels root va (fetch(a := pte_bits pte_EMPTY)) = Inr (Inl (IntelNotPresent (of_nat n))) \<and>
    amd_walk fmt levels root va (fetch(a := 0)) = Inr (Inl (AmdNotPresent (of_nat n))) \<and>
    (n = 1 \<longrightarrow>
      intel_walk trunc stage levels root va (fetch(a := pte_bits (pte_page h perms))) =
        Inr (Inr \<lparr>intel_physical = (h AND pa_mask) + take_bit 12 va, intel_level = 1,
                  intel_perms = trunc (pte_bits (pte_page h perms)), intel_huge = False\<rparr>) \<and>
      amd_walk fmt levels root va (fetch(a := amd_v2_page h rw us)) =
        Inr (Inr \<lparr>amd_physical = (h AND pa_mask) + take_bit 12 va, amd_level = 1,
                  amd_perms = amd_v2_page h rw us, amd_huge = False\<rparr>)) \<and>
    (1 < n \<longrightarrow>
      intel_walk trunc stage levels root va (fetch(a := pte_bits (pte_huge_page h perms))) =
        Inr (Inr \<lparr>intel_physical = (h AND pa_mask) OR take_bit (level_bits n) va, intel_level = of_nat n,
                  intel_perms = trunc (pte_bits (pte_huge_page h perms)), intel_huge = True\<rparr>)) \<and>
    (\<forall>va' e. a \<notin> set (walk_reads fetch va' root (unat levels)) \<longrightarrow>
      intel_walk trunc stage levels root va' (fetch(a := e)) = intel_walk trunc stage levels root va' fetch \<and>
      amd_walk fmt levels root va' (fetch(a := e)) = amd_walk fmt levels root va' fetch)"
proof -
  have five: "unat levels \<le> 5" using u8_pos_nat assms(1,2) by auto
  note intel = intel_pt.loop_updated [where trunc = trunc, OF five assms(3,5-7)]
  note amd = amd_pt.loop_updated [OF five assms(3,5-7)]
  have "0 < n" "n \<le> unat levels" using walks_updated(1,2) [OF assms(5-7)] by auto
  then have n: "unat (of_nat n :: u8) = n" "1 < n \<Longrightarrow> 1 < (of_nat n :: u8)"
    using five u8_level [of "n - 1"] by (simp_all add: word_less_nat_alt)
  have "\<not> bit (pte_bits pte_EMPTY) 0" by (simp add: pte_EMPTY_def)
  then show ?thesis
    using intel amd assms(1,2,4) n unread_update [OF assms(1-3)] frame_plus_offset [OF take_bit_frame, of h va]
    by (auto simp: intel_walk_start amd_walk_start intel_hit_def amd_hit_def bit_pte_page bit_pte_huge_page
        bit_amd_v2_page level_bits_def)
qed

lemma walk_reads_pos:
  "0 < l \<Longrightarrow> walk_reads fetch va table l = (let a = entry_addr table va l; e = fetch a
     in a # (if bit e 0 \<and> \<not> bit e 7 then walk_reads fetch va (e AND pa_mask) (l - 1) else []))"
  by (cases l) (simp_all add: Let_def)

theorem entry_update_witness:
  "intel_walk intel_trunc Second 3 0x10000 0x2345 (sample_memory(0x30010 := 0)) = Inr (Inl (IntelNotPresent 1)) \<and>
   intel_walk intel_trunc Second 3 0x10000 0x1345 (sample_memory(0x30010 := 0)) =
     intel_walk intel_trunc Second 3 0x10000 0x1345 sample_memory"
proof -
  have linked: "pte_bits (pte_table t) AND 0xffffffffff000 = t AND 0xffffffffff000" for t
    using pte_frames(1) [of t] by (simp add: pa_mask_def mask_numeral)
  have reads: "walk_reads sample_memory 0x2345 0x10000 3 = [0x10000, 0x20000] @ [0x30010]"
    "walk_reads sample_memory 0x1345 0x10000 3 = [0x10000, 0x20000, 0x30008]"
    by (simp_all add: walk_reads_pos sample_memory_def entry_addr_def level_bits_def get_field_def bit_pte_table pa_mask_def
        mask_numeral linked Let_def)
  show ?thesis
    using entry_update [of 3 "0x10000" "0x2345" sample_memory "[0x10000, 0x20000]" "0x30010" 1] reads
    by (simp add: table_fits_def level_bits_def pte_EMPTY_def)
qed

end
