(* ===== verification/Interfaces.thy ===== *)
theory Interfaces
  imports Prelude
begin

text \<open>
  The contracts several components share, each stated once as a locale and interpreted in the
  theory of every component that provides it:
  \<^item> \<open>enum_codec\<close>: an enum with a raw encoding of a few bits (\<open>from_bits\<close>, \<open>bits\<close>);
  \<^item> \<open>exact_enum_codec\<close>: the same without payload-carrying reserved variants;
  \<^item> \<open>field_lens\<close>: an accessor and its \<open>with_...\<close> builder;
  \<^item> \<open>record_stream\<close>: an iterator that splits length-delimited records off a byte slice.
\<close>

section \<open>Enums with a raw encoding\<close>

text \<open>The masks of the decoders, and the values a masked byte can take.\<close>

lemma masked_literal: "v AND 7 = take_bit 3 v" "v AND 3 = take_bit 2 v" for v :: u8
  by (simp_all add: take_bit_eq_mask mask_numeral)

lemma mask3_cases: "take_bit 3 (v :: u8) \<in> {0, 1, 2, 3, 4, 5, 6, 7}"
proof -
  have "unat (take_bit 3 v) < 8"
    using take_bit_nat_less_exp [of 3 "unat v"] by (simp add: unsigned_take_bit_eq)
  then have "unat (take_bit 3 v) \<in> {0, 1, 2, 3, 4, 5, 6, 7}" by auto
  then show ?thesis by (auto simp: word_unat_eq_iff)
qed

lemma mask2_cases: "take_bit 2 (v :: u8) \<in> {0, 1, 2, 3}"
proof -
  have "unat (take_bit 2 v) < 4"
    using take_bit_nat_less_exp [of 2 "unat v"] by (simp add: unsigned_take_bit_eq)
  then have "unat (take_bit 2 v) \<in> {0, 1, 2, 3}" by auto
  then show ?thesis by (auto simp: word_unat_eq_iff)
qed

locale enum_codec =
  fixes from_bits :: "u8 \<Rightarrow> 'e" and to_bits :: "'e \<Rightarrow> u8" and width :: nat
  assumes to_from: "to_bits (from_bits v) = take_bit width v"
    and from_masked: "from_bits (take_bit width v) = from_bits v"
    and to_bits_fits: "take_bit width (to_bits e) = to_bits e"
begin

lemma from_bits_eq_iff: "from_bits v = from_bits w \<longleftrightarrow> take_bit width v = take_bit width w"
  by (metis to_from from_masked)

lemma canonical_idem: "from_bits (to_bits (from_bits v)) = from_bits v"
  by (simp add: to_from from_masked)

lemma to_bits_canonical: "to_bits (from_bits (to_bits e)) = to_bits e"
  by (simp add: to_from to_bits_fits)

text \<open>What an accessor reads after the builder stored \<open>e\<close> in a field of \<open>width\<close> bits.\<close>

lemma field_read_back:
  assumes "lo + width \<le> 64"
  shows "from_bits (ucast (get_field lo width (put_field lo width (ucast (to_bits e)) (v :: u64))))
    = from_bits (to_bits e)"
proof -
  have "(ucast (take_bit width (ucast (to_bits e) :: u64)) :: u8) = take_bit width (to_bits e)"
    by simp
  with assms show ?thesis by (simp add: from_masked)
qed

text \<open>Storing what was read changes nothing, whatever the field holds.\<close>

lemma field_write_back:
  assumes "width \<le> 8"
  shows "put_field lo width (ucast (to_bits (from_bits (ucast (get_field lo width v))))) v = (v :: u64)"
proof -
  have "(ucast (take_bit width (ucast (get_field lo width v) :: u8)) :: u64) = get_field lo width v"
    using assms by (intro bit_word_eqI) (auto simp: bit_simps)
  then show ?thesis by (simp add: to_from)
qed

end

locale exact_enum_codec = enum_codec +
  assumes from_to: "from_bits (to_bits e) = e"
begin

lemma to_bits_eq_iff: "to_bits d = to_bits e \<longleftrightarrow> d = e"
  by (metis from_to)

lemma from_bits_surj: "\<exists>v. take_bit width v = v \<and> from_bits v = e"
  by (metis from_to to_bits_fits)

lemma field_exact:
  "lo + width \<le> 64 \<Longrightarrow>
   from_bits (ucast (get_field lo width (put_field lo width (ucast (to_bits e)) (v :: u64)))) = e"
  by (simp only: field_read_back from_to)

end

section \<open>Accessors and builders\<close>

text \<open>
  \<open>get\<close> is an accessor, \<open>put\<close> the builder for the same field (self first), and \<open>norm\<close> what
  of the builder's argument the field can hold.
\<close>

locale field_lens =
  fixes get :: "'s \<Rightarrow> 'v" and put :: "'s \<Rightarrow> 'v \<Rightarrow> 's" and norm :: "'v \<Rightarrow> 'v"
  assumes get_put: "get (put s v) = norm v"
    and put_put: "put (put s v) w = put s w"
    and put_get: "put s (get s) = s"
    and put_norm: "put s (norm v) = put s v"
begin

lemma norm_get: "norm (get s) = get s"
  using get_put [of s "get s"] by (simp add: put_get)

lemma norm_idem: "norm (norm v) = norm v"
  using get_put [of undefined "norm v"] by (simp add: put_norm get_put)

lemma put_eq_iff: "put s v = put s w \<longleftrightarrow> norm v = norm w"
  by (metis get_put put_norm)

lemma put_same_iff: "put s v = s \<longleftrightarrow> norm v = get s"
  by (metis get_put put_get put_norm)

lemma fold_last_write: "vs \<noteq> [] \<Longrightarrow> foldl put s vs = put s (last vs)"
proof (induction vs arbitrary: s)
  case (Cons v vs)
  then show ?case by (cases "vs = []") (simp_all add: put_put)
qed simp

end

section \<open>Iterators over length-delimited records\<close>

text \<open>
  An iterator's state is the rest of the slice; \<open>nxt\<close> is its \<open>next\<close>: \<open>None\<close> when it
  stops, otherwise the item and the new state.  \<open>drain\<close> is what a \<open>for\<close> loop over it sees,
  with fuel; \<open>collect\<close> gives it the length of the slice, which \<open>record_stream\<close> shows to be
  enough.
\<close>

fun drain :: "nat \<Rightarrow> ('s \<Rightarrow> ('i \<times> 's) option) \<Rightarrow> 's \<Rightarrow> 'i list" where
  "drain 0 nxt s = []"
| "drain (Suc n) nxt s = (case nxt s of None \<Rightarrow> [] | Some (x, s') \<Rightarrow> x # drain n nxt s')"

definition collect :: "(bytes \<Rightarrow> ('i \<times> bytes) option) \<Rightarrow> bytes \<Rightarrow> 'i list" where
  "collect nxt bs = drain (length bs) nxt bs"

locale record_stream =
  fixes nxt :: "bytes \<Rightarrow> ('i \<times> bytes) option"
  assumes splits: "nxt bs = Some (x, rest) \<Longrightarrow> \<exists>raw. raw \<noteq> [] \<and> bs = raw @ rest"
    and local: "nxt (raw @ rest) = Some (x, rest) \<Longrightarrow> nxt (raw @ rest') = Some (x, rest')"
begin

lemma shorter: "nxt bs = Some (x, rest) \<Longrightarrow> length rest < length bs"
  using splits by fastforce

lemma drain_enough: "length bs \<le> n \<Longrightarrow> drain n nxt bs = collect nxt bs"
proof (induction n arbitrary: bs rule: less_induct)
  case (less n)
  have step: "drain m nxt rest = drain k nxt rest"
    if "nxt bs = Some (x, rest)" "length rest \<le> m" "m < n" "length rest \<le> k" "k < n" for x rest m k
    using less.IH [of m rest] less.IH [of k rest] that by simp
  show ?case
  proof (cases bs)
    case Nil
    then have "nxt bs = None"
      using shorter [of bs] by (cases "nxt bs") auto
    then show ?thesis using Nil by (cases n) (simp_all add: collect_def)
  next
    case (Cons b bs')
    then obtain m where n: "n = Suc m" using less.prems by (cases n) auto
    show ?thesis
    proof (cases "nxt bs")
      case None
      then show ?thesis using Cons n by (simp add: collect_def)
    next
      case (Some p)
      obtain x rest where p: "p = (x, rest)" by (cases p)
      have len: "length rest \<le> length bs'" using shorter [of bs x rest] Some p Cons by simp
      have "drain m nxt rest = drain (length bs') nxt rest"
        using step [of x rest m "length bs'"] Some p len less.prems Cons n by simp
      then show ?thesis using Some p Cons n by (simp add: collect_def)
    qed
  qed
qed

lemma collect_unfold:
  "collect nxt bs = (case nxt bs of None \<Rightarrow> [] | Some (x, rest) \<Rightarrow> x # collect nxt rest)"
proof -
  have "collect nxt bs = drain (Suc (length bs)) nxt bs"
    using drain_enough [of bs "Suc (length bs)"] by simp
  then show ?thesis
    using shorter by (auto simp: drain_enough less_imp_le split: option.splits)
qed

lemma collect_stop: "nxt bs = None \<Longrightarrow> collect nxt bs = []"
  by (subst collect_unfold) simp

lemma collect_step: "nxt bs = Some (x, rest) \<Longrightarrow> collect nxt bs = x # collect nxt rest"
  by (subst collect_unfold) simp

text \<open>Well-formed records laid end to end are yielded one by one, whatever follows them.\<close>

lemma collect_concat:
  "list_all2 (\<lambda>raw x. nxt raw = Some (x, [])) raws xs \<Longrightarrow>
   collect nxt (concat raws @ tail) = xs @ collect nxt tail"
proof (induction raws xs rule: list_all2_induct)
  case Nil
  then show ?case by simp
next
  case (Cons raw raws x xs)
  have "nxt (raw @ concat raws @ tail) = Some (x, concat raws @ tail)"
    using local [of raw "[]"] Cons.hyps by simp
  then show ?case using Cons.IH by (simp add: collect_step)
qed

text \<open>Conversely, what is yielded partitions a prefix of the slice into such records.\<close>

lemma collect_partition:
  "\<exists>raws tail. bs = concat raws @ tail \<and> [] \<notin> set raws \<and> nxt tail = None \<and>
     list_all2 (\<lambda>raw x. nxt raw = Some (x, [])) raws (collect nxt bs)"
proof (induction "length bs" arbitrary: bs rule: less_induct)
  case less
  show ?case
  proof (cases "nxt bs")
    case None
    then show ?thesis by (intro exI [of _ "[]"] exI [of _ bs]) (simp add: collect_stop)
  next
    case (Some p)
    obtain x rest where p: "p = (x, rest)" by (cases p)
    obtain raw where raw: "raw \<noteq> []" "bs = raw @ rest" using splits Some p by blast
    obtain raws tail where rest: "rest = concat raws @ tail" "[] \<notin> set raws" "nxt tail = None"
      "list_all2 (\<lambda>raw x. nxt raw = Some (x, [])) raws (collect nxt rest)"
      using less [of rest] raw by auto
    have "nxt raw = Some (x, [])" using local [of raw rest x "[]"] Some p raw by simp
    then have "list_all2 (\<lambda>raw x. nxt raw = Some (x, [])) (raw # raws) (collect nxt bs)"
      using rest Some p by (simp add: collect_step)
    then show ?thesis using raw rest by (intro exI [of _ "raw # raws"] exI [of _ tail]) simp
  qed
qed

lemma length_collect_le: "length (collect nxt bs) \<le> length bs"
proof -
  have len: "length raws \<le> length (concat raws)" if "[] \<notin> set raws" for raws :: "bytes list"
    using that by (induction raws) (auto simp: Suc_le_eq intro: add_le_mono [of 1, simplified])
  obtain raws tail where "bs = concat raws @ tail" "[] \<notin> set raws"
    "list_all2 (\<lambda>raw x. nxt raw = Some (x, [])) raws (collect nxt bs)"
    using collect_partition by blast
  then show ?thesis using len [of raws] by (auto dest!: list_all2_lengthD)
qed

end

end
