(* ===== verification/Acpi.thy ===== *)
theory Acpi
  imports Interfaces
begin

text \<open>
  What the ACPI parsers of the two crates share: the contract of a validating table constructor
  (\<open>acpi_table\<close>, with the table image firmware would build), and the contract of an iterator over
  records that carry their own length (\<open>tlv_stream\<close>), which is a \<open>record_stream\<close>.
\<close>

section \<open>Reading little-endian fields of an image\<close>

lemma length_to_le [simp]:
  "length (to_le_bytes (x16 :: u16)) = 2" "length (to_le_bytes (x32 :: u32)) = 4"
  "length (to_le_bytes (x64 :: u64)) = 8"
  by simp_all

lemma le_round_trips [simp]:
  "from_le_bytes (to_le_bytes x16) = (x16 :: u16)" "from_le_bytes (to_le_bytes x32) = (x32 :: u32)"
  "from_le_bytes (to_le_bytes x64) = (x64 :: u64)"
  by simp_all

lemma to_le_bytes16: "to_le_bytes (x :: u16) = [ucast x, ucast (drop_bit 8 x)]"
  by (simp add: to_le_bytes_def upt_rec)

lemma pair_le16 [simp]:
  "from_le_bytes [to_le_bytes x ! 0, to_le_bytes x ! Suc 0] = (x :: u16)"
  using le_round_trips(1) [of x] by (simp add: to_le_bytes16)

section \<open>Validating a table\<close>

text \<open>The image of a table: signature, length, revision, checksum, and the rest.\<close>

definition acpi_image :: "bytes \<Rightarrow> u8 \<Rightarrow> bytes \<Rightarrow> bytes" where
  "acpi_image sig revision body =
     (let pre = sig @ to_le_bytes (of_nat (10 + length body) :: u32) @ [revision]
      in pre @ [- byte_sum (pre @ body)] @ body)"

lemma length_acpi_image: "length sig = 4 \<Longrightarrow> length (acpi_image sig revision body) = 10 + length body"
  by (simp add: acpi_image_def Let_def)

lemma byte_sum_acpi_image [simp]: "byte_sum (acpi_image sig revision body) = 0"
  by (simp add: acpi_image_def Let_def byte_sum_eq_sum_list)

lemma acpi_image_parts:
  assumes "length sig = 4"
  shows "take 4 (acpi_image sig revision body) = sig"
    "take 4 (drop 4 (acpi_image sig revision body @ tail)) = to_le_bytes (of_nat (10 + length body) :: u32)"
    "drop 10 (acpi_image sig revision body) = body"
    "acpi_image sig revision body ! 8 = revision"
  using assms by (simp_all add: acpi_image_def Let_def nth_append)

text \<open>
  \<open>new\<close> checks, in this order, the minimal length, the signature, the length field and the byte sum,
  and keeps the bytes the length field covers.
\<close>

definition claimed_length :: "bytes \<Rightarrow> nat" where
  "claimed_length raw = unat (from_le_bytes (take 4 (drop 4 raw)) :: u32)"

locale acpi_table =
  fixes new :: "bytes \<Rightarrow> 'e + 't" and sig :: bytes and body_at :: nat
    and too_short :: "nat \<Rightarrow> 'e" and bad_sig :: "bytes \<Rightarrow> 'e" and bad_len :: "nat \<Rightarrow> nat \<Rightarrow> 'e"
    and bad_sum :: 'e and view :: "bytes \<Rightarrow> 't"
  assumes new_eq: "new raw =
      (if length raw < body_at then Inl (too_short (length raw))
       else if take 4 raw \<noteq> sig then Inl (bad_sig (take 4 raw))
       else if claimed_length raw < body_at \<or> length raw < claimed_length raw
         then Inl (bad_len (claimed_length raw) (length raw))
       else if byte_sum (take (claimed_length raw) raw) \<noteq> 0 then Inl bad_sum
       else Inr (view (take (claimed_length raw) raw)))"
    and sig_length: "length sig = 4" and body_after_header: "10 \<le> body_at"
begin

lemma accepts_iff:
  "new raw = Inr t \<longleftrightarrow> body_at \<le> length raw \<and> take 4 raw = sig \<and> body_at \<le> claimed_length raw \<and>
     claimed_length raw \<le> length raw \<and> byte_sum (take (claimed_length raw) raw) = 0 \<and>
     t = view (take (claimed_length raw) raw)"
  by (auto simp: new_eq)

text \<open>A table is accepted again, unchanged, whatever follows it in memory.\<close>

lemma accepts_image:
  assumes "body_at \<le> 10 + length body" "10 + length body < 2 ^ 32"
  shows "new (acpi_image sig revision body @ tail) = Inr (view (acpi_image sig revision body))"
proof -
  have "claimed_length (acpi_image sig revision body @ tail) = 10 + length body"
    unfolding claimed_length_def acpi_image_parts(2) [OF sig_length] le_round_trips
    by (rule unat_of_nat_in) (use assms(2) in simp)
  then show ?thesis
    using assms(1) sig_length by (simp add: accepts_iff acpi_image_parts length_acpi_image)
qed

text \<open>One changed byte is always detected, unless it is in the signature or the length.\<close>

lemma flips_detected:
  assumes "new raw = Inr t" "8 \<le> i" "i < claimed_length raw" "b \<noteq> raw ! i"
  shows "new (raw[i := b]) = Inl bad_sum"
proof -
  let ?n = "claimed_length raw" and ?raw' = "raw[i := b]"
  have acc: "body_at \<le> length raw" "take 4 raw = sig" "body_at \<le> ?n" "?n \<le> length raw"
    "byte_sum (take ?n raw) = 0"
    using assms(1) by (simp_all add: accepts_iff)
  have n': "claimed_length ?raw' = ?n"
    using assms(2) by (simp add: claimed_length_def drop_update_swap)
  have split: "take ?n raw = take i raw @ raw ! i # drop (Suc i) (take ?n raw)"
    using assms(3) acc by (metis Cons_nth_drop_Suc append_take_drop_id length_take min.absorb2 nth_take
        take_take less_imp_le min.absorb1)
  have "take ?n ?raw' = take i raw @ b # drop (Suc i) (take ?n raw)"
    using assms(3) acc
    by (simp add: upd_conv_take_nth_drop take_Cons' drop_take)
  then have "byte_sum (take ?n ?raw') = byte_sum (take ?n raw) - raw ! i + b"
    by (subst split) (simp add: byte_sum_eq_sum_list)
  then have "byte_sum (take ?n ?raw') \<noteq> 0" using acc assms(4) by simp
  then show ?thesis using acc assms(2) n' by (simp add: new_eq)
qed

end

section \<open>Records that carry their length\<close>

locale tlv_stream =
  fixes nxt :: "bytes \<Rightarrow> ('i \<times> bytes) option" and size_of :: "bytes \<Rightarrow> nat" and hdr :: nat
    and parse :: "bytes \<Rightarrow> 'i"
  assumes next_eq: "nxt bs =
      (if length bs < hdr \<or> size_of bs < hdr \<or> length bs < size_of bs then None
       else Some (parse (take (size_of bs) bs), drop (size_of bs) bs))"
    and size_local: "hdr \<le> length bs \<Longrightarrow> size_of (bs @ rest) = size_of bs"
    and hdr_pos: "0 < hdr"
begin

text \<open>The byte strings that are exactly one record.\<close>

lemma whole_iff: "nxt raw = Some (x, []) \<longleftrightarrow> hdr \<le> length raw \<and> size_of raw = length raw \<and> x = parse raw"
  by (auto simp: next_eq)

lemma stops_iff: "nxt bs = None \<longleftrightarrow> length bs < hdr \<or> size_of bs < hdr \<or> length bs < size_of bs"
  by (auto simp: next_eq)

end

sublocale tlv_stream \<subseteq> record_stream nxt
proof
  fix bs x rest assume "nxt bs = Some (x, rest)"
  then have "rest = drop (size_of bs) bs" "hdr \<le> size_of bs" "size_of bs \<le> length bs"
    by (auto simp: next_eq split: if_splits)
  then show "\<exists>raw. raw \<noteq> [] \<and> bs = raw @ rest"
    using hdr_pos by (intro exI [of _ "take (size_of bs) bs"]) auto
next
  fix raw rest x rest' assume "nxt (raw @ rest) = Some (x, rest)"
  then have *: "hdr \<le> size_of (raw @ rest)" "size_of (raw @ rest) \<le> length (raw @ rest)"
    "x = parse (take (size_of (raw @ rest)) (raw @ rest))" "rest = drop (size_of (raw @ rest)) (raw @ rest)"
    by (auto simp: next_eq split: if_splits)
  then have len: "size_of (raw @ rest) = length raw"
    by (metis add_diff_cancel_right' diff_diff_cancel length_append length_drop)
  then have "size_of raw = length raw" using * size_local by metis
  then show "nxt (raw @ rest') = Some (x, rest')"
    using * len size_local by (simp add: next_eq)
qed

context tlv_stream
begin

lemma collect_records:
  "(\<And>raw. raw \<in> set raws \<Longrightarrow> hdr \<le> length raw \<and> size_of raw = length raw) \<Longrightarrow>
   collect nxt (concat raws) = map parse raws"
  using collect_concat [of raws "map parse raws" "[]"] collect_stop [of "[]"] hdr_pos
  by (simp add: list_all2_conv_all_nth whole_iff stops_iff)

lemma collect_prefix:
  "\<exists>raws tail. bs = concat raws @ tail \<and> collect nxt bs = map parse raws \<and>
     (\<forall>raw \<in> set raws. hdr \<le> length raw \<and> size_of raw = length raw) \<and>
     (length tail < hdr \<or> size_of tail < hdr \<or> length tail < size_of tail)"
proof -
  obtain raws tail where *: "bs = concat raws @ tail" "nxt tail = None"
    "list_all2 (\<lambda>raw x. nxt raw = Some (x, [])) raws (collect nxt bs)"
    using collect_partition by blast
  have "xs = map parse raws \<and> (\<forall>raw \<in> set raws. hdr \<le> length raw \<and> size_of raw = length raw)"
    if "list_all2 (\<lambda>raw x. nxt raw = Some (x, [])) raws xs" for raws xs
    using that by induction (auto simp: whole_iff)
  with * show ?thesis by (metis stops_iff)
qed

end

end
