(* ===== verification/Amd_Dte.thy ===== *)
theory Amd_Dte
  imports Acpi Bits
begin

text \<open>
  \<^verbatim>\<open>amd-iommu/src/dte.rs\<close>: the 256-bit device table entry, its accessors and its builders.  The
  builders are refined by an abstract view that holds the value of every accessor and says, for each
  builder, which of them it changes.
\<close>

section \<open>Enumerations\<close>

datatype paging_mode =
    PmDisabled
  | PmReserved1
  | PmLevel1_3
  | PmLevel1_4
  | PmReserved4
  | PmLevel2_4
  | PmLevel2_5
  | PmReserved7

definition paging_mode_from_bits :: "u8 \<Rightarrow> paging_mode" where
  "paging_mode_from_bits v =
     (let m = v AND 0x7 in
      if m = 0 then PmDisabled
      else if m = 1 then PmReserved1
      else if m = 2 then PmLevel1_3
      else if m = 3 then PmLevel1_4
      else if m = 4 then PmReserved4
      else if m = 5 then PmLevel2_4
      else if m = 6 then PmLevel2_5
      else PmReserved7)"

fun paging_mode_bits :: "paging_mode \<Rightarrow> u8" where
  "paging_mode_bits PmDisabled = 0"
| "paging_mode_bits PmReserved1 = 1"
| "paging_mode_bits PmLevel1_3 = 2"
| "paging_mode_bits PmLevel1_4 = 3"
| "paging_mode_bits PmReserved4 = 4"
| "paging_mode_bits PmLevel2_4 = 5"
| "paging_mode_bits PmLevel2_5 = 6"
| "paging_mode_bits PmReserved7 = 7"

definition paging_mode_translates :: "paging_mode \<Rightarrow> bool" where
  "paging_mode_translates m \<longleftrightarrow>
     m = PmLevel1_3 \<or> m = PmLevel1_4 \<or> m = PmLevel2_4 \<or> m = PmLevel2_5"

datatype sys_mgt =
    TargetAbort
  | ForwardAll
  | ForwardIntx
  | SysTranslate

definition sys_mgt_from_bits :: "u8 \<Rightarrow> sys_mgt" where
  "sys_mgt_from_bits v =
     (let m = v AND 0x3 in
      if m = 1 then ForwardAll else if m = 2 then ForwardIntx else if m = 3 then SysTranslate
      else TargetAbort)"

fun sys_mgt_bits :: "sys_mgt \<Rightarrow> u8" where
  "sys_mgt_bits TargetAbort = 0"
| "sys_mgt_bits ForwardAll = 1"
| "sys_mgt_bits ForwardIntx = 2"
| "sys_mgt_bits SysTranslate = 3"

section \<open>The entry\<close>

record dte =
  dte_q0 :: u64
  dte_q1 :: u64
  dte_q2 :: u64
  dte_q3 :: u64

definition dte_new :: dte where
  "dte_new = \<lparr>dte_q0 = 0, dte_q1 = 0, dte_q2 = 0, dte_q3 = 0\<rparr>"

definition dte_valid :: "dte \<Rightarrow> bool" where
  "dte_valid d \<longleftrightarrow> dte_q0 d AND 1 \<noteq> 0"

definition with_valid :: "bool \<Rightarrow> dte \<Rightarrow> dte" where
  "with_valid v d = d\<lparr>dte_q0 := (dte_q0 d AND NOT 1) OR ucast (of_bool v :: u8)\<rparr>"

definition translation_valid :: "dte \<Rightarrow> bool" where
  "translation_valid d \<longleftrightarrow> dte_q0 d AND 2 \<noteq> 0"

definition with_translation_valid :: "bool \<Rightarrow> dte \<Rightarrow> dte" where
  "with_translation_valid v d =
     d\<lparr>dte_q0 := (dte_q0 d AND NOT 2) OR push_bit 1 (ucast (of_bool v :: u8))\<rparr>"

definition dte_paging_mode :: "dte \<Rightarrow> paging_mode" where
  "dte_paging_mode d = paging_mode_from_bits (ucast (amd_extract_bits (dte_q0 d) 11 9))"

definition with_paging_mode :: "paging_mode \<Rightarrow> dte \<Rightarrow> dte" where
  "with_paging_mode mode d =
     d\<lparr>dte_q0 := (dte_q0 d AND NOT (push_bit 9 0x7)) OR push_bit 9 (ucast (paging_mode_bits mode AND 0x7))\<rparr>"

definition dte_had :: "dte \<Rightarrow> u8" where
  "dte_had d = ucast (amd_extract_bits (dte_q0 d) 8 7)"

definition host_page_table_root :: "dte \<Rightarrow> u64" where
  "host_page_table_root d = dte_q0 d AND 0x000ffffffffff000"

definition with_host_page_table_root :: "u64 \<Rightarrow> dte \<Rightarrow> dte" where
  "with_host_page_table_root addr d =
     d\<lparr>dte_q0 := (dte_q0 d AND 0xfff) OR (addr AND 0x000ffffffffff000)\<rparr>"

definition ppr_enable :: "dte \<Rightarrow> bool" where
  "ppr_enable d \<longleftrightarrow> dte_q0 d AND push_bit 52 1 \<noteq> 0"

definition with_ppr_enable :: "bool \<Rightarrow> dte \<Rightarrow> dte" where
  "with_ppr_enable en d =
     d\<lparr>dte_q0 := (dte_q0 d AND NOT (push_bit 52 1)) OR push_bit 52 (ucast (of_bool en :: u8))\<rparr>"

definition dte_giov :: "dte \<Rightarrow> bool" where
  "dte_giov d \<longleftrightarrow> dte_q0 d AND push_bit 54 1 \<noteq> 0"

definition guest_translation_valid :: "dte \<Rightarrow> bool" where
  "guest_translation_valid d \<longleftrightarrow> dte_q0 d AND push_bit 55 1 \<noteq> 0"

definition with_guest_translation_valid :: "bool \<Rightarrow> dte \<Rightarrow> dte" where
  "with_guest_translation_valid v d =
     d\<lparr>dte_q0 := (dte_q0 d AND NOT (push_bit 55 1)) OR push_bit 55 (ucast (of_bool v :: u8))\<rparr>"

definition dte_glx :: "dte \<Rightarrow> u8" where
  "dte_glx d = ucast (amd_extract_bits (dte_q0 d) 57 56)"

definition with_glx :: "u8 \<Rightarrow> dte \<Rightarrow> dte" where
  "with_glx glx d =
     d\<lparr>dte_q0 := (dte_q0 d AND NOT (push_bit 56 0x3)) OR push_bit 56 (ucast (glx AND 0x3))\<rparr>"

definition dte_ir :: "dte \<Rightarrow> bool" where
  "dte_ir d \<longleftrightarrow> dte_q0 d AND push_bit 61 1 \<noteq> 0"

definition with_ir :: "bool \<Rightarrow> dte \<Rightarrow> dte" where
  "with_ir en d =
     d\<lparr>dte_q0 := (dte_q0 d AND NOT (push_bit 61 1)) OR push_bit 61 (ucast (of_bool en :: u8))\<rparr>"

definition dte_iw :: "dte \<Rightarrow> bool" where
  "dte_iw d \<longleftrightarrow> dte_q0 d AND push_bit 62 1 \<noteq> 0"

definition with_iw :: "bool \<Rightarrow> dte \<Rightarrow> dte" where
  "with_iw en d =
     d\<lparr>dte_q0 := (dte_q0 d AND NOT (push_bit 62 1)) OR push_bit 62 (ucast (of_bool en :: u8))\<rparr>"

definition snoop_disable :: "dte \<Rightarrow> bool" where
  "snoop_disable d \<longleftrightarrow> dte_q1 d AND push_bit 38 1 \<noteq> 0"

definition with_snoop_disable :: "bool \<Rightarrow> dte \<Rightarrow> dte" where
  "with_snoop_disable en d =
     d\<lparr>dte_q1 := (dte_q1 d AND NOT (push_bit 38 1)) OR push_bit 38 (ucast (of_bool en :: u8))\<rparr>"

definition io_coherent :: "dte \<Rightarrow> bool" where
  "io_coherent d \<longleftrightarrow> \<not> snoop_disable d"

definition with_io_coherent :: "bool \<Rightarrow> dte \<Rightarrow> dte" where
  "with_io_coherent coherent d = with_snoop_disable (\<not> coherent) d"

definition guest_cr3_table :: "dte \<Rightarrow> u64" where
  "guest_cr3_table d =
     (let a = amd_extract_bits (dte_q0 d) 60 58 AND 0x7;
          b = amd_extract_bits (dte_q1 d) 31 16;
          c = amd_extract_bits (dte_q1 d) 63 43
      in push_bit 31 c OR push_bit 15 b OR push_bit 12 a)"

definition with_guest_cr3_table :: "u64 \<Rightarrow> dte \<Rightarrow> dte" where
  "with_guest_cr3_table addr d =
     (let p = drop_bit 12 addr;
          d = d\<lparr>dte_q0 := (dte_q0 d AND NOT (push_bit 58 0x7)) OR push_bit 58 (p AND 0x7)\<rparr>;
          d = d\<lparr>dte_q1 := (dte_q1 d AND NOT (push_bit 16 0xffff)) OR push_bit 16 (drop_bit 3 p AND 0xffff)\<rparr>;
          d = d\<lparr>dte_q1 := (dte_q1 d AND NOT (push_bit 43 0x1fffff)) OR push_bit 43 (drop_bit 19 p AND 0x1fffff)\<rparr>
      in d)"

definition interrupt_map_valid :: "dte \<Rightarrow> bool" where
  "interrupt_map_valid d \<longleftrightarrow> dte_q2 d AND 1 \<noteq> 0"

definition with_interrupt_map_valid :: "bool \<Rightarrow> dte \<Rightarrow> dte" where
  "with_interrupt_map_valid v d = d\<lparr>dte_q2 := (dte_q2 d AND NOT 1) OR ucast (of_bool v :: u8)\<rparr>"

definition interrupt_table_len :: "dte \<Rightarrow> u8" where
  "interrupt_table_len d = ucast (amd_extract_bits (dte_q2 d) 4 1)"

definition with_interrupt_table_len :: "u8 \<Rightarrow> dte \<Rightarrow> dte" where
  "with_interrupt_table_len len d =
     d\<lparr>dte_q2 := (dte_q2 d AND NOT (push_bit 1 0xf)) OR push_bit 1 (ucast (len AND 0xf))\<rparr>"

definition interrupt_table_ptr :: "dte \<Rightarrow> u64" where
  "interrupt_table_ptr d = push_bit 7 (amd_extract_bits (dte_q2 d) 51 6)"

definition with_interrupt_table_ptr :: "u64 \<Rightarrow> dte \<Rightarrow> dte" where
  "with_interrupt_table_ptr addr d =
     (let bits = drop_bit 7 addr AND 0x3ffffffff
      in d\<lparr>dte_q2 := (dte_q2 d AND NOT (push_bit 6 0x3fffffffff)) OR push_bit 6 bits\<rparr>)"

definition guest_paging_mode :: "dte \<Rightarrow> u8" where
  "guest_paging_mode d = ucast (amd_extract_bits (dte_q2 d) 55 54)"

definition with_guest_paging_mode :: "u8 \<Rightarrow> dte \<Rightarrow> dte" where
  "with_guest_paging_mode mode d =
     d\<lparr>dte_q2 := (dte_q2 d AND NOT (push_bit 54 0x3)) OR push_bit 54 (ucast (mode AND 0x3))\<rparr>"

definition dte_domain_id :: "dte \<Rightarrow> u16" where
  "dte_domain_id d = ucast (amd_extract_bits (dte_q2 d) 15 0)"

definition with_domain_id :: "u16 \<Rightarrow> dte \<Rightarrow> dte" where
  "with_domain_id did d = d\<lparr>dte_q2 := (dte_q2 d AND NOT 0xffff) OR ucast did\<rparr>"

definition init_pass :: "dte \<Rightarrow> bool" where
  "init_pass d \<longleftrightarrow> dte_q2 d AND push_bit 56 1 \<noteq> 0"

definition extint_pass :: "dte \<Rightarrow> bool" where
  "extint_pass d \<longleftrightarrow> dte_q2 d AND push_bit 57 1 \<noteq> 0"

definition nmi_pass :: "dte \<Rightarrow> bool" where
  "nmi_pass d \<longleftrightarrow> dte_q2 d AND push_bit 58 1 \<noteq> 0"

definition guest_device_id :: "dte \<Rightarrow> u16" where
  "guest_device_id d = ucast (amd_extract_bits (dte_q3 d) 31 16)"

definition with_guest_device_id :: "u16 \<Rightarrow> dte \<Rightarrow> dte" where
  "with_guest_device_id i d =
     d\<lparr>dte_q3 := (dte_q3 d AND NOT (push_bit 16 0xffff)) OR push_bit 16 (ucast i)\<rparr>"

definition guest_id :: "dte \<Rightarrow> u16" where
  "guest_id d = ucast (amd_extract_bits (dte_q3 d) 47 32)"

definition with_guest_id :: "u16 \<Rightarrow> dte \<Rightarrow> dte" where
  "with_guest_id i d =
     d\<lparr>dte_q3 := (dte_q3 d AND NOT (push_bit 32 0xffff)) OR push_bit 32 (ucast i)\<rparr>"

text \<open>\<^verbatim>\<open>copy_from_slice\<close> into four consecutive parts of the 32-byte array.\<close>

definition dte_into_bytes :: "dte \<Rightarrow> bytes" where
  "dte_into_bytes d =
     to_le_bytes (dte_q0 d) @ to_le_bytes (dte_q1 d) @ to_le_bytes (dte_q2 d) @ to_le_bytes (dte_q3 d)"

section \<open>The contracts\<close>

lemma paging_mode_from_bits_alt:
  "paging_mode_from_bits v = paging_mode_from_bits (take_bit 3 v)"
  by (simp add: paging_mode_from_bits_def take_bit_eq_mask mask_numeral and.assoc)

interpretation paging_mode: exact_enum_codec paging_mode_from_bits paging_mode_bits 3
proof
  fix v show "paging_mode_bits (paging_mode_from_bits v) = take_bit 3 v"
    using mask3_cases [of v]
    by (auto simp: paging_mode_from_bits_def take_bit_eq_mask mask_numeral)
next
  fix e show "take_bit 3 (paging_mode_bits e) = paging_mode_bits e" by (cases e) simp_all
  show "paging_mode_from_bits (paging_mode_bits e) = e" by (cases e) (simp_all add: paging_mode_from_bits_def)
qed (simp add: paging_mode_from_bits_alt [symmetric])

interpretation sys_mgt: exact_enum_codec sys_mgt_from_bits sys_mgt_bits 2
proof
  fix v show "sys_mgt_bits (sys_mgt_from_bits v) = take_bit 2 v"
    using mask2_cases [of v] by (auto simp: sys_mgt_from_bits_def take_bit_eq_mask mask_numeral)
  show "sys_mgt_from_bits (take_bit 2 v) = sys_mgt_from_bits v"
    by (simp add: sys_mgt_from_bits_def take_bit_eq_mask mask_numeral and.assoc)
next
  fix e show "take_bit 2 (sys_mgt_bits e) = sys_mgt_bits e" by (cases e) simp_all
  show "sys_mgt_from_bits (sys_mgt_bits e) = e" by (cases e) (simp_all add: sys_mgt_from_bits_def)
qed

section \<open>Accessors and builders as bit fields\<close>

lemma masked_again: "get_field lo 3 v AND 7 = get_field lo 3 (v :: u64)"
  unfolding mask_words by (simp flip: take_bit_eq_mask)

lemma dte_getters [field_shapes]:
  "dte_valid d = bit (dte_q0 d) 0" "translation_valid d = bit (dte_q0 d) 1"
  "dte_paging_mode d = paging_mode_from_bits (ucast (get_field 9 3 (dte_q0 d)))"
  "dte_had d = ucast (get_field 7 2 (dte_q0 d))"
  "host_page_table_root d = push_bit 12 (get_field 12 40 (dte_q0 d))"
  "ppr_enable d = bit (dte_q0 d) 52" "dte_giov d = bit (dte_q0 d) 54"
  "guest_translation_valid d = bit (dte_q0 d) 55" "dte_glx d = ucast (get_field 56 2 (dte_q0 d))"
  "dte_ir d = bit (dte_q0 d) 61" "dte_iw d = bit (dte_q0 d) 62"
  "snoop_disable d = bit (dte_q1 d) 38" "io_coherent d = (\<not> bit (dte_q1 d) 38)"
  "guest_cr3_table d = push_bit 31 (get_field 43 21 (dte_q1 d)) OR push_bit 15 (get_field 16 16 (dte_q1 d))
     OR push_bit 12 (get_field 58 3 (dte_q0 d))"
  "interrupt_map_valid d = bit (dte_q2 d) 0"
  "interrupt_table_len d = ucast (get_field 1 4 (dte_q2 d))"
  "interrupt_table_ptr d = push_bit 7 (get_field 6 46 (dte_q2 d))"
  "guest_paging_mode d = ucast (get_field 54 2 (dte_q2 d))"
  "dte_domain_id d = ucast (get_field 0 16 (dte_q2 d))"
  "init_pass d = bit (dte_q2 d) 56" "extint_pass d = bit (dte_q2 d) 57" "nmi_pass d = bit (dte_q2 d) 58"
  "guest_device_id d = ucast (get_field 16 16 (dte_q3 d))" "guest_id d = ucast (get_field 32 16 (dte_q3 d))"
proof -
  show "host_page_table_root d = push_bit 12 (get_field 12 40 (dte_q0 d))"
    unfolding host_page_table_root_def mask_words by (rule bit_word_eqI) (auto simp: bit_simps)
  show "guest_cr3_table d = push_bit 31 (get_field 43 21 (dte_q1 d)) OR push_bit 15 (get_field 16 16 (dte_q1 d))
     OR push_bit 12 (get_field 58 3 (dte_q0 d))"
    by (simp add: guest_cr3_table_def Let_def extract_bits_at masked_again)
qed (simp_all only: dte_valid_def translation_valid_def dte_paging_mode_def dte_had_def ppr_enable_def
    dte_giov_def guest_translation_valid_def dte_glx_def dte_ir_def dte_iw_def snoop_disable_def
    io_coherent_def interrupt_map_valid_def interrupt_table_len_def interrupt_table_ptr_def
    guest_paging_mode_def dte_domain_id_def init_pass_def extint_pass_def nmi_pass_def
    guest_device_id_def guest_id_def flag_tests amd_extract_bits_eq, simp_all add: extract_bits_at)

lemma dte_builders [field_shapes]:
  "with_valid b d = d\<lparr>dte_q0 := put_field 0 1 (of_bool b) (dte_q0 d)\<rparr>"
  "with_translation_valid b d = d\<lparr>dte_q0 := put_field 1 1 (of_bool b) (dte_q0 d)\<rparr>"
  "with_paging_mode m d = d\<lparr>dte_q0 := put_field 9 3 (ucast (paging_mode_bits m)) (dte_q0 d)\<rparr>"
  "with_host_page_table_root a d = d\<lparr>dte_q0 := put_field 12 52 (get_field 12 40 a) (dte_q0 d)\<rparr>"
  "with_ppr_enable b d = d\<lparr>dte_q0 := put_field 52 1 (of_bool b) (dte_q0 d)\<rparr>"
  "with_guest_translation_valid b d = d\<lparr>dte_q0 := put_field 55 1 (of_bool b) (dte_q0 d)\<rparr>"
  "with_glx g d = d\<lparr>dte_q0 := put_field 56 2 (ucast g) (dte_q0 d)\<rparr>"
  "with_ir b d = d\<lparr>dte_q0 := put_field 61 1 (of_bool b) (dte_q0 d)\<rparr>"
  "with_iw b d = d\<lparr>dte_q0 := put_field 62 1 (of_bool b) (dte_q0 d)\<rparr>"
  "with_snoop_disable b d = d\<lparr>dte_q1 := put_field 38 1 (of_bool b) (dte_q1 d)\<rparr>"
  "with_io_coherent b d = d\<lparr>dte_q1 := put_field 38 1 (of_bool (\<not> b)) (dte_q1 d)\<rparr>"
  "with_guest_cr3_table a d = d\<lparr>dte_q0 := put_field 58 3 (drop_bit 12 a) (dte_q0 d),
     dte_q1 := put_field 43 21 (drop_bit 31 a) (put_field 16 16 (drop_bit 15 a) (dte_q1 d))\<rparr>"
  "with_interrupt_map_valid b d = d\<lparr>dte_q2 := put_field 0 1 (of_bool b) (dte_q2 d)\<rparr>"
  "with_interrupt_table_len l d = d\<lparr>dte_q2 := put_field 1 4 (ucast l) (dte_q2 d)\<rparr>"
  "with_interrupt_table_ptr a d = d\<lparr>dte_q2 := put_field 6 38 (get_field 7 34 a) (dte_q2 d)\<rparr>"
  "with_guest_paging_mode l d = d\<lparr>dte_q2 := put_field 54 2 (ucast l) (dte_q2 d)\<rparr>"
  "with_domain_id did d = d\<lparr>dte_q2 := put_field 0 16 (ucast did) (dte_q2 d)\<rparr>"
  "with_guest_device_id i d = d\<lparr>dte_q3 := put_field 16 16 (ucast i) (dte_q3 d)\<rparr>"
  "with_guest_id i d = d\<lparr>dte_q3 := put_field 32 16 (ucast i) (dte_q3 d)\<rparr>"
proof -
  show "with_host_page_table_root a d = d\<lparr>dte_q0 := put_field 12 52 (get_field 12 40 a) (dte_q0 d)\<rparr>"
    unfolding with_host_page_table_root_def mask_words
    by (auto intro!: dte.equality bit_word_eqI simp: bit_simps split: if_splits)
  show "with_guest_cr3_table a d = d\<lparr>dte_q0 := put_field 58 3 (drop_bit 12 a) (dte_q0 d),
     dte_q1 := put_field 43 21 (drop_bit 31 a) (put_field 16 16 (drop_bit 15 a) (dte_q1 d))\<rparr>"
    unfolding with_guest_cr3_table_def Let_def mask_words put_shapes by simp
  show "with_interrupt_table_ptr a d = d\<lparr>dte_q2 := put_field 6 38 (get_field 7 34 a) (dte_q2 d)\<rparr>"
    unfolding with_interrupt_table_ptr_def mask_words Let_def
    by (auto intro!: dte.equality bit_word_eqI simp: bit_simps split: if_splits)
qed (unfold with_valid_def with_translation_valid_def with_paging_mode_def with_ppr_enable_def
    with_guest_translation_valid_def with_glx_def with_ir_def with_iw_def with_snoop_disable_def
    with_io_coherent_def with_interrupt_map_valid_def with_interrupt_table_len_def
    with_guest_paging_mode_def with_domain_id_def with_guest_device_id_def with_guest_id_def mask_words,
    simp_all only: put_shape_simps)

section \<open>The abstract view\<close>

text \<open>The value of every accessor.\<close>

record dte_view =
  v_valid :: bool
  v_tv :: bool
  v_mode :: paging_mode
  v_had :: u8
  v_root :: u64
  v_ppr :: bool
  v_giov :: bool
  v_gv :: bool
  v_glx :: u8
  v_ir :: bool
  v_iw :: bool
  v_sd :: bool
  v_coherent :: bool
  v_gcr3 :: u64
  v_iv :: bool
  v_intlen :: u8
  v_intptr :: u64
  v_gpm :: u8
  v_domain :: u16
  v_init :: bool
  v_extint :: bool
  v_nmi :: bool
  v_gdev :: u16
  v_gid :: u16

definition dte_view_of :: "dte \<Rightarrow> dte_view" where
  "dte_view_of d =
     \<lparr>v_valid = dte_valid d, v_tv = translation_valid d, v_mode = dte_paging_mode d, v_had = dte_had d,
      v_root = host_page_table_root d, v_ppr = ppr_enable d, v_giov = dte_giov d,
      v_gv = guest_translation_valid d, v_glx = dte_glx d, v_ir = dte_ir d, v_iw = dte_iw d,
      v_sd = snoop_disable d, v_coherent = io_coherent d, v_gcr3 = guest_cr3_table d, v_iv = interrupt_map_valid d,
      v_intlen = interrupt_table_len d, v_intptr = interrupt_table_ptr d, v_gpm = guest_paging_mode d,
      v_domain = dte_domain_id d, v_init = init_pass d, v_extint = extint_pass d, v_nmi = nmi_pass d,
      v_gdev = guest_device_id d, v_gid = guest_id d\<rparr>"

datatype dte_op =
    SetValid bool
  | SetTranslationValid bool
  | SetPagingMode paging_mode
  | SetHostRoot u64
  | SetPpr bool
  | SetGuestValid bool
  | SetGlx u8
  | SetIr bool
  | SetIw bool
  | SetSnoopDisable bool
  | SetIoCoherent bool
  | SetGcr3 u64
  | SetIntMapValid bool
  | SetIntTableLen u8
  | SetIntTablePtr u64
  | SetGuestPagingMode u8
  | SetDomainId u16
  | SetGuestDeviceId u16
  | SetGuestId u16

fun dte_step :: "dte_op \<Rightarrow> dte \<Rightarrow> dte" where
  "dte_step (SetValid b) = with_valid b"
| "dte_step (SetTranslationValid b) = with_translation_valid b"
| "dte_step (SetPagingMode m) = with_paging_mode m"
| "dte_step (SetHostRoot a) = with_host_page_table_root a"
| "dte_step (SetPpr b) = with_ppr_enable b"
| "dte_step (SetGuestValid b) = with_guest_translation_valid b"
| "dte_step (SetGlx g) = with_glx g"
| "dte_step (SetIr b) = with_ir b"
| "dte_step (SetIw b) = with_iw b"
| "dte_step (SetSnoopDisable b) = with_snoop_disable b"
| "dte_step (SetIoCoherent b) = with_io_coherent b"
| "dte_step (SetGcr3 a) = with_guest_cr3_table a"
| "dte_step (SetIntMapValid b) = with_interrupt_map_valid b"
| "dte_step (SetIntTableLen l) = with_interrupt_table_len l"
| "dte_step (SetIntTablePtr a) = with_interrupt_table_ptr a"
| "dte_step (SetGuestPagingMode m) = with_guest_paging_mode m"
| "dte_step (SetDomainId i) = with_domain_id i"
| "dte_step (SetGuestDeviceId i) = with_guest_device_id i"
| "dte_step (SetGuestId i) = with_guest_id i"

text \<open>
  What each builder does to the view.  Most change their own value only; the host root also clears
  every field above bit 51 of its word, and the domain id shares its bits with the interrupt fields.
\<close>

fun dte_view_step :: "dte_op \<Rightarrow> dte_view \<Rightarrow> dte_view" where
  "dte_view_step (SetValid b) v = v\<lparr>v_valid := b\<rparr>"
| "dte_view_step (SetTranslationValid b) v = v\<lparr>v_tv := b\<rparr>"
| "dte_view_step (SetPagingMode m) v = v\<lparr>v_mode := m\<rparr>"
| "dte_view_step (SetHostRoot a) v = v\<lparr>v_root := a AND 0x000ffffffffff000, v_ppr := False,
     v_giov := False, v_gv := False, v_glx := 0, v_ir := False, v_iw := False,
     v_gcr3 := put_field 12 3 0 (v_gcr3 v)\<rparr>"
| "dte_view_step (SetPpr b) v = v\<lparr>v_ppr := b\<rparr>"
| "dte_view_step (SetGuestValid b) v = v\<lparr>v_gv := b\<rparr>"
| "dte_view_step (SetGlx g) v = v\<lparr>v_glx := take_bit 2 g\<rparr>"
| "dte_view_step (SetIr b) v = v\<lparr>v_ir := b\<rparr>"
| "dte_view_step (SetIw b) v = v\<lparr>v_iw := b\<rparr>"
| "dte_view_step (SetSnoopDisable b) v = v\<lparr>v_sd := b, v_coherent := \<not> b\<rparr>"
| "dte_view_step (SetIoCoherent b) v = v\<lparr>v_sd := \<not> b, v_coherent := b\<rparr>"
| "dte_view_step (SetGcr3 a) v = v\<lparr>v_gcr3 := a AND 0x000ffffffffff000\<rparr>"
| "dte_view_step (SetIntMapValid b) v =
     v\<lparr>v_iv := b, v_domain := put_field 0 1 (of_bool b) (v_domain v)\<rparr>"
| "dte_view_step (SetIntTableLen l) v =
     v\<lparr>v_intlen := take_bit 4 l, v_domain := put_field 1 4 (ucast l) (v_domain v)\<rparr>"
| "dte_view_step (SetIntTablePtr a) v =
     v\<lparr>v_intptr := put_field 7 38 (get_field 7 34 a) (v_intptr v),
       v_domain := put_field 6 10 (ucast (drop_bit 7 a)) (v_domain v)\<rparr>"
| "dte_view_step (SetGuestPagingMode m) v = v\<lparr>v_gpm := take_bit 2 m\<rparr>"
| "dte_view_step (SetDomainId i) v =
     v\<lparr>v_domain := i, v_iv := bit i 0, v_intlen := ucast (get_field 1 4 i),
       v_intptr := put_field 7 10 (ucast (drop_bit 6 i)) (v_intptr v)\<rparr>"
| "dte_view_step (SetGuestDeviceId i) v = v\<lparr>v_gdev := i\<rparr>"
| "dte_view_step (SetGuestId i) v = v\<lparr>v_gid := i\<rparr>"

lemma view_frame_mask: "(0x000ffffffffff000 :: u64) = push_bit 12 (mask 40)"
  by (simp add: mask_numeral)

text \<open>What a builder that covers several fields leaves in each of them.\<close>

lemma host_root_fields:
  "push_bit 12 (get_field 12 40 (put_field 12 52 (get_field 12 40 a) q)) = a AND push_bit 12 (mask 40)"
  "\<not> bit (put_field 12 52 (get_field 12 40 a) q) 52" "\<not> bit (put_field 12 52 (get_field 12 40 a) q) 54"
  "\<not> bit (put_field 12 52 (get_field 12 40 a) q) 55" "\<not> bit (put_field 12 52 (get_field 12 40 a) q) 61"
  "\<not> bit (put_field 12 52 (get_field 12 40 a) q) 62"
  "get_field 56 2 (put_field 12 52 (get_field 12 40 a) q) = 0"
  "get_field 58 3 (put_field 12 52 (get_field 12 40 a) q) = 0"
  "put_field 12 3 0 (push_bit 31 x OR push_bit 15 y OR push_bit 12 (get_field 58 3 z))
    = push_bit 31 x OR push_bit 15 y"
  for a q x y z :: u64
  by (auto intro!: bit_word_eqI simp: bit_simps split: if_splits)

lemma gcr3_pieces:
  "push_bit 31 (take_bit 21 (drop_bit 31 a)) OR push_bit 15 (take_bit 16 (drop_bit 15 a)) OR
    push_bit 12 (take_bit 3 (drop_bit 12 a)) = a AND push_bit 12 (mask 40)" for a :: u64
proof (rule bit_word_eqI)
  fix n show "bit (push_bit 31 (take_bit 21 (drop_bit 31 a)) OR push_bit 15 (take_bit 16 (drop_bit 15 a)) OR
      push_bit 12 (take_bit 3 (drop_bit 12 a))) n = bit (a AND push_bit 12 (mask 40)) n"
    by (cases "31 \<le> n"; cases "15 \<le> n") (auto simp: bit_simps dest: bit_imp_le_length)
qed

text \<open>The domain id and the interrupt table fields share the low bits of the third word.\<close>

lemma shared_word_fields:
  "(ucast (get_field 0 16 (put_field 0 1 (of_bool b) q)) :: u16)
    = put_field 0 1 (of_bool b) (ucast (get_field 0 16 q))"
  "(ucast (get_field 0 16 (put_field 1 4 (ucast l) q)) :: u16)
    = put_field 1 4 (ucast l) (ucast (get_field 0 16 q))"
  "push_bit 7 (get_field 6 46 (put_field 6 38 (get_field 7 34 a) q))
    = put_field 7 38 (get_field 7 34 a) (push_bit 7 (get_field 6 46 q))"
  "(ucast (get_field 0 16 (put_field 6 38 (get_field 7 34 a) q)) :: u16)
    = put_field 6 10 (ucast (drop_bit 7 a)) (ucast (get_field 0 16 q))"
  "(ucast (get_field 1 4 (put_field 0 16 (ucast i) q)) :: u8) = ucast (get_field 1 4 i)"
  "push_bit 7 (get_field 6 46 (put_field 0 16 (ucast i) q))
    = put_field 7 10 (ucast (drop_bit 6 i)) (push_bit 7 (get_field 6 46 q))"
  for q a :: u64 and l :: u8 and i :: u16
  by (rule bit_word_eqI, auto simp: bit_simps dest: bit_imp_le_length)+

lemma shared_word_valid: "bit (put_field 0 16 (ucast i) q) 0 = bit i 0" for q :: u64 and i :: u16
  by (simp add: bit_simps)

lemma dte_step_view: "dte_view_of (dte_step op d) = dte_view_step op (dte_view_of d)"
  by (cases op) (simp_all add: dte_view_of_def dte_getters dte_builders paging_mode.to_bits_fits
      paging_mode.from_to view_frame_mask host_root_fields gcr3_pieces shared_word_valid shared_word_fields
      shared_word_fields(1) [of True, simplified] shared_word_fields(1) [of False, simplified]
      shared_word_fields(2,5) [unfolded One_nat_def])

section \<open>Properties\<close>

text \<open>C15: Whatever sequence of builders is applied to an entry, every accessor returns what the abstract view
  predicts: each builder stores its argument, cut to the width of its field, and changes no other value, with
  three exceptions.  The host root clears PPR, GIOV, GV, GLX, IR, IW and the bits 14:12 of the guest CR3
  pointer.  The domain id occupies the bits of the interrupt map valid flag, of the interrupt table
  length and of the bits 16:7 of the interrupt table pointer, so these overwrite one another.  And the interrupt
  table pointer is not cut to its 46-bit field, bits 52:7: only the bits 40:7 of the address are stored, the
  bits 44:41 are cleared, and the bits 52:45 keep what they held before.  The snoop disable flag and
  \<^verbatim>\<open>io_coherent\<close> are complements, and each builder of one sets both.\<close>

theorem dte_builders_refine:
  "dte_view_of (fold dte_step ops d) = fold dte_view_step ops (dte_view_of d)"
  by (induction ops arbitrary: d) (simp_all add: dte_step_view)

text \<open>Storing the host root pointer leaves the other fields of the word alone exactly when its
  twelve top bits (PPR, GIOV, GV, GLX, GCR3, IR, IW) are still zero: the builder depends on being
  called before theirs.\<close>

lemma host_root_preserves_iff:
  "dte_q0 (with_host_page_table_root a d) = put_field 12 40 (drop_bit 12 a) (dte_q0 d)
   \<longleftrightarrow> drop_bit 52 (dte_q0 d) = 0"
proof -
  have "put_field 12 52 (get_field 12 40 a) q = put_field 12 40 (drop_bit 12 a) q
      \<longleftrightarrow> (\<forall>n. 52 \<le> n \<longrightarrow> \<not> bit q n)" for q :: u64
  proof
    assume eq: "put_field 12 52 (get_field 12 40 a) q = put_field 12 40 (drop_bit 12 a) q"
    have "\<not> bit q n" if "52 \<le> n" for n
      using arg_cong [OF eq, of "\<lambda>w. bit w n"] that
      by (auto simp: bit_simps split: if_splits dest: bit_imp_le_length)
    then show "\<forall>n. 52 \<le> n \<longrightarrow> \<not> bit q n" by blast
  next
    assume "\<forall>n. 52 \<le> n \<longrightarrow> \<not> bit q n"
    then show "put_field 12 52 (get_field 12 40 a) q = put_field 12 40 (drop_bit 12 a) q"
      by (intro bit_word_eqI) (auto simp: bit_simps)
  qed
  then show ?thesis by (simp add: dte_builders drop_bit_eq_iff)
qed

text \<open>The interrupt table pointer reads back as stored only for 128-byte aligned addresses whose
  bits 44:41 are zero and whose bits 52:45 happen to be those already in the entry: the builder keeps
  34 address bits and clears 38 of the 46 the accessor reads.\<close>

lemma interrupt_table_ptr_readback_iff:
  "interrupt_table_ptr (with_interrupt_table_ptr a d) = a \<longleftrightarrow>
     take_bit 7 a = 0 \<and> get_field 41 4 a = 0 \<and> drop_bit 45 a = get_field 44 8 (dte_q2 d)"
proof -
  have read: "bit (interrupt_table_ptr (with_interrupt_table_ptr a d)) n \<longleftrightarrow>
      7 \<le> n \<and> n < 41 \<and> bit a n \<or> 45 \<le> n \<and> n < 53 \<and> bit (dte_q2 d) (n - 1)" for n
    by (auto simp: dte_getters dte_builders bit_simps split: if_splits dest: bit_imp_le_length)
  let ?P = "\<lambda>n. 7 \<le> n \<and> n < 41 \<and> bit a n \<or> 45 \<le> n \<and> n < 53 \<and> bit (dte_q2 d) (n - 1)"
  have "(\<forall>n. ?P n \<longleftrightarrow> bit a n) \<longleftrightarrow> (\<forall>n < 7. \<not> bit a n) \<and> (\<forall>n. 41 \<le> n \<longrightarrow> n < 45 \<longrightarrow> \<not> bit a n) \<and>
      (\<forall>n \<ge> 45. bit a n \<longleftrightarrow> n < 53 \<and> bit (dte_q2 d) (n - 1))" (is "?l \<longleftrightarrow> ?r")
  proof
    assume l: ?l
    show ?r
    proof (intro conjI allI impI)
      fix n show "n < 7 \<Longrightarrow> \<not> bit a n" "41 \<le> n \<Longrightarrow> n < 45 \<Longrightarrow> \<not> bit a n"
        "45 \<le> n \<Longrightarrow> bit a n \<longleftrightarrow> n < 53 \<and> bit (dte_q2 d) (n - 1)"
        using l [THEN spec, of n] by auto
    qed
  next
    assume r: ?r
    show ?l
    proof
      fix n show "?P n \<longleftrightarrow> bit a n"
        using r by (cases "n < 7"; cases "n < 41"; cases "n < 45") auto
    qed
  qed
  moreover have "interrupt_table_ptr (with_interrupt_table_ptr a d) = a \<longleftrightarrow> (\<forall>n. ?P n \<longleftrightarrow> bit a n)"
    unfolding read [symmetric] by (auto intro: bit_word_eqI)
  ultimately have "interrupt_table_ptr (with_interrupt_table_ptr a d) = a \<longleftrightarrow>
      (\<forall>n < 7. \<not> bit a n) \<and> (\<forall>n. 41 \<le> n \<longrightarrow> n < 45 \<longrightarrow> \<not> bit a n) \<and>
      (\<forall>n \<ge> 45. bit a n \<longleftrightarrow> n < 53 \<and> bit (dte_q2 d) (n - 1))" by simp
  then show ?thesis
    by (simp add: take_bit_zero_iff get_field_zero_iff drop_bit_eq_iff bit_get_field) auto
qed

text \<open>A domain id stored before the interrupt fields survives them exactly when its bits happen to
  be the valid flag, the table length and the low bits of the table pointer: the fields overlap.\<close>

lemma domain_id_survives_iff:
  "dte_domain_id (with_interrupt_table_ptr a (with_interrupt_table_len l
      (with_interrupt_map_valid b (with_domain_id did d)))) = did \<longleftrightarrow>
   bit did 0 = b \<and> get_field 1 4 did = take_bit 4 (ucast l) \<and> get_field 6 10 did = ucast (get_field 7 10 a)"
proof -
  let ?a = "ucast (drop_bit 7 a) :: u16"
  let ?w = "put_field 6 10 ?a (put_field 1 4 (ucast l) (put_field 0 1 (of_bool b) did))"
  have "dte_domain_id (with_interrupt_table_ptr a (with_interrupt_table_len l
      (with_interrupt_map_valid b (with_domain_id did d)))) = v_domain (dte_view_of
      (fold dte_step [SetDomainId did, SetIntMapValid b, SetIntTableLen l, SetIntTablePtr a] d))"
    by (simp add: dte_view_of_def)
  also have "\<dots> = ?w"
    by (simp only: fold.simps id_comp comp_apply dte_step_view id_apply) simp
  finally have w: "dte_domain_id (with_interrupt_table_ptr a (with_interrupt_table_len l
      (with_interrupt_map_valid b (with_domain_id did d)))) = ?w" .
  have a: "(ucast (get_field 7 10 a) :: u16) = take_bit 10 ?a"
    by (rule bit_word_eqI) (auto simp: bit_simps)
  show ?thesis
    unfolding w a
  proof
    assume eq: "?w = did"
    show "bit did 0 = b \<and> get_field 1 4 did = take_bit 4 (ucast l) \<and> get_field 6 10 did = take_bit 10 ?a"
      by (subst (1 2 3) eq [symmetric]) simp
  next
    assume *: "bit did 0 = b \<and> get_field 1 4 did = take_bit 4 (ucast l) \<and> get_field 6 10 did = take_bit 10 ?a"
    have "put_field 0 1 (of_bool b) did = did"
      using put_field_bit [of 0 did] * by (simp add: One_nat_def)
    moreover have "put_field 1 4 (ucast l) did = did"
      using * by (metis put_field_take_bit put_get_same)
    moreover have "put_field 6 10 ?a did = did"
      using * by (metis put_field_take_bit put_get_same)
    ultimately show "?w = did" by simp
  qed
qed

text \<open>C27: What the entry builders lose, exactly. Storing the host root pointer leaves the other fields of
  the word alone if and only if its twelve top bits (PPR, GIOV, GV, GLX, GCR3, IR, IW) are still zero;
  the interrupt table pointer reads back if and only if the address is 128-byte aligned, its bits
  44:41 are zero and the rest happen to be in the entry already; a domain id stored before the
  interrupt fields survives them if and only if its bits happen to be the valid flag, the length and
  the low bits of the pointer, and stored after them it overwrites all three.\<close>

theorem dte_lossy_builders:
  "(dte_q0 (with_host_page_table_root a d) = put_field 12 40 (drop_bit 12 a) (dte_q0 d)
      \<longleftrightarrow> drop_bit 52 (dte_q0 d) = 0) \<and>
   (interrupt_table_ptr (with_interrupt_table_ptr a d) = a
      \<longleftrightarrow> take_bit 7 a = 0 \<and> get_field 41 4 a = 0 \<and> drop_bit 45 a = get_field 44 8 (dte_q2 d)) \<and>
   (dte_domain_id (with_interrupt_table_ptr a (with_interrupt_table_len l
       (with_interrupt_map_valid b (with_domain_id did d)))) = did
      \<longleftrightarrow> bit did 0 = b \<and> get_field 1 4 did = take_bit 4 (ucast l) \<and>
          get_field 6 10 did = ucast (get_field 7 10 a)) \<and>
   (let e = with_domain_id did d
    in interrupt_map_valid e = bit did 0 \<and> interrupt_table_len e = ucast (get_field 1 4 did) \<and>
       get_field 7 10 (interrupt_table_ptr e) = ucast (get_field 6 10 did))"
proof -
  have "interrupt_map_valid (with_domain_id did d) = bit did 0"
    and "interrupt_table_len (with_domain_id did d) = ucast (get_field 1 4 did)"
    by (auto simp: dte_getters dte_builders bit_simps split: if_splits intro!: bit_word_eqI)
  moreover have "get_field 7 10 (interrupt_table_ptr (with_domain_id did d)) = ucast (get_field 6 10 did)"
    by (auto simp: dte_getters dte_builders bit_simps split: if_splits intro!: bit_word_eqI)
  ultimately show ?thesis
    by (simp add: host_root_preserves_iff interrupt_table_ptr_readback_iff domain_id_survives_iff Let_def)
qed

text \<open>The byte image of an entry is 32 bytes long and determines it: its four little-endian
  quadwords are read back at offsets 0, 8, 16 and 24.\<close>

lemma dte_into_bytes_roundtrip:
  "length (dte_into_bytes d) = 32 \<and>
   map (\<lambda>i. slice_get (dte_into_bytes d) (8 * i) (8 * i + 8)) [0, 1, 2, 3]
     = map (\<lambda>q. Some (to_le_bytes q)) [dte_q0 d, dte_q1 d, dte_q2 d, dte_q3 d] \<and>
   (dte_into_bytes d = dte_into_bytes d' \<longleftrightarrow> d = d')"
proof -
  have inj: "to_le_bytes x = to_le_bytes y \<longleftrightarrow> x = y" for x y :: u64
    by (metis from_to_le_bytes le_round_trips(3))
  show ?thesis
    by (auto simp: dte_into_bytes_def slice_get_def inj intro!: dte.equality)
qed

section \<open>Bits outside the fields\<close>

text \<open>The bits of an entry that no accessor or builder of the crate covers.\<close>

definition dte_clean :: "dte \<Rightarrow> bool" where
  "dte_clean d \<longleftrightarrow> get_field 2 5 (dte_q0 d) = 0 \<and> get_field 53 1 (dte_q0 d) = 0 \<and> get_field 63 1 (dte_q0 d) = 0 \<and>
     get_field 0 16 (dte_q1 d) = 0 \<and> get_field 32 6 (dte_q1 d) = 0 \<and> get_field 39 4 (dte_q1 d) = 0 \<and>
     get_field 52 2 (dte_q2 d) = 0 \<and> get_field 59 5 (dte_q2 d) = 0 \<and>
     get_field 0 16 (dte_q3 d) = 0 \<and> get_field 48 16 (dte_q3 d) = 0"

lemma dte_clean_step: "dte_clean d \<Longrightarrow> dte_clean (dte_step op d)"
proof (cases op)
  case (SetHostRoot a)
  have "get_field k w (put_field 12 52 (get_field 12 40 a) q) = 0" if "52 \<le> k" "k + w \<le> 64" for k w and q :: u64
    by (rule bit_word_eqI) (use that in \<open>auto simp: bit_simps\<close>)
  then show "dte_clean d \<Longrightarrow> ?thesis" using SetHostRoot by (simp add: dte_clean_def dte_builders)
qed (simp_all add: dte_clean_def dte_builders)

lemma dte_clean_new: "dte_clean dte_new"
  by (simp add: dte_clean_def dte_new_def)

end
