(* ===== verification/Intel_Context.thy ===== *)
theory Intel_Context
  imports Acpi Bits
begin

text \<open>
  \<^verbatim>\<open>intel-iommu/src/context.rs\<close>: root, context, scalable context, PASID directory and PASID
  table entries.  Each entry with builders has an abstract view that holds the value of every accessor,
  and its builders are refined by updates of that view.
\<close>

section \<open>Root entries\<close>

record root_entry =
  re_low :: u64
  re_high :: u64

definition root_new :: "u64 \<Rightarrow> root_entry" where
  "root_new context_table = \<lparr>re_low = (context_table AND NOT 0xfff) OR 1, re_high = 0\<rparr>"

definition root_present :: "root_entry \<Rightarrow> bool" where
  "root_present r \<longleftrightarrow> re_low r AND 1 \<noteq> 0"

definition root_context_table :: "root_entry \<Rightarrow> u64" where
  "root_context_table r = re_low r AND NOT 0xfff"

type_synonym scalable_root_entry = root_entry

section \<open>Enumerations\<close>

datatype addr_width =
    AwReserved0
  | Agaw39
  | Agaw48
  | Agaw57
  | AwReserved u8

definition addr_width_from_bits :: "u8 \<Rightarrow> addr_width" where
  "addr_width_from_bits v =
     (let m = v AND 0x7 in
      if m = 1 then Agaw39
      else if m = 2 then Agaw48
      else if m = 3 then Agaw57
      else if m = 0 then AwReserved0
      else AwReserved m)"

definition addr_width_from :: "u8 \<Rightarrow> addr_width" where
  "addr_width_from v = addr_width_from_bits v"

fun addr_width_bits :: "addr_width \<Rightarrow> u8" where
  "addr_width_bits AwReserved0 = 0"
| "addr_width_bits Agaw39 = 1"
| "addr_width_bits Agaw48 = 2"
| "addr_width_bits Agaw57 = 3"
| "addr_width_bits (AwReserved v) = v AND 0x7"

fun address_bits :: "addr_width \<Rightarrow> u32" where
  "address_bits Agaw39 = 39"
| "address_bits Agaw48 = 48"
| "address_bits Agaw57 = 57"
| "address_bits _ = 0"

text \<open>The derived order: by variant, then by payload.\<close>

fun addr_width_rank :: "addr_width \<Rightarrow> nat" where
  "addr_width_rank AwReserved0 = 0"
| "addr_width_rank Agaw39 = 1"
| "addr_width_rank Agaw48 = 2"
| "addr_width_rank Agaw57 = 3"
| "addr_width_rank (AwReserved v) = 4 + unat v"

lemma addr_width_rank_inj: "addr_width_rank a = addr_width_rank b \<Longrightarrow> a = b"
  by (cases a; cases b) (simp_all add: word_unat_eq_iff)

instantiation addr_width :: linorder
begin

definition less_eq_addr_width :: "addr_width \<Rightarrow> addr_width \<Rightarrow> bool" where
  "a \<le> b \<longleftrightarrow> addr_width_rank a \<le> addr_width_rank b"

definition less_addr_width :: "addr_width \<Rightarrow> addr_width \<Rightarrow> bool" where
  "a < b \<longleftrightarrow> addr_width_rank a < addr_width_rank b"

instance
  by standard (auto simp: less_eq_addr_width_def less_addr_width_def intro: addr_width_rank_inj)

end

datatype trans_type =
    TtSecondStage
  | TtReserved01
  | TtPassThrough
  | TtReserved11

definition trans_type_from_bits :: "u8 \<Rightarrow> trans_type" where
  "trans_type_from_bits v =
     (let m = v AND 0x3 in
      if m = 0 then TtSecondStage
      else if m = 1 then TtReserved01
      else if m = 2 then TtPassThrough
      else TtReserved11)"

definition trans_type_from :: "u8 \<Rightarrow> trans_type" where
  "trans_type_from v = trans_type_from_bits v"

fun trans_type_bits :: "trans_type \<Rightarrow> u8" where
  "trans_type_bits TtSecondStage = 0"
| "trans_type_bits TtReserved01 = 1"
| "trans_type_bits TtPassThrough = 2"
| "trans_type_bits TtReserved11 = 3"

section \<open>Context entries\<close>

record context_entry =
  ce_q0 :: u64
  ce_q1 :: u64

definition ce_new :: context_entry where
  "ce_new = \<lparr>ce_q0 = 0, ce_q1 = 0\<rparr>"

definition ce_with_present :: "bool \<Rightarrow> context_entry \<Rightarrow> context_entry" where
  "ce_with_present p c = c\<lparr>ce_q0 := (ce_q0 c AND NOT 1) OR ucast (of_bool p :: u8)\<rparr>"

definition ce_present :: "context_entry \<Rightarrow> bool" where
  "ce_present c \<longleftrightarrow> ce_q0 c AND 1 \<noteq> 0"

definition ce_with_fault_disable :: "bool \<Rightarrow> context_entry \<Rightarrow> context_entry" where
  "ce_with_fault_disable fpd c = c\<lparr>ce_q0 := (ce_q0 c AND NOT 2) OR push_bit 1 (ucast (of_bool fpd :: u8))\<rparr>"

definition ce_fault_disable :: "context_entry \<Rightarrow> bool" where
  "ce_fault_disable c \<longleftrightarrow> ce_q0 c AND 2 \<noteq> 0"

definition ce_with_translation_type :: "trans_type \<Rightarrow> context_entry \<Rightarrow> context_entry" where
  "ce_with_translation_type tt c =
     c\<lparr>ce_q0 := (ce_q0 c AND NOT 0xc) OR (push_bit 2 (ucast (trans_type_bits tt)) AND 0xc)\<rparr>"

definition ce_translation_type :: "context_entry \<Rightarrow> trans_type" where
  "ce_translation_type c = trans_type_from_bits (ucast (extract_bits (ce_q0 c) 3 2))"

definition ce_with_second_stage_ptr :: "u64 \<Rightarrow> context_entry \<Rightarrow> context_entry" where
  "ce_with_second_stage_ptr addr c = c\<lparr>ce_q0 := (ce_q0 c AND 0xfff) OR (addr AND NOT 0xfff)\<rparr>"

definition ce_second_stage_ptr :: "context_entry \<Rightarrow> u64" where
  "ce_second_stage_ptr c = ce_q0 c AND NOT 0xfff"

definition ce_with_address_width :: "addr_width \<Rightarrow> context_entry \<Rightarrow> context_entry" where
  "ce_with_address_width aw c =
     c\<lparr>ce_q1 := (ce_q1 c AND NOT 0x7) OR (ucast (addr_width_bits aw) AND 0x7)\<rparr>"

definition ce_address_width :: "context_entry \<Rightarrow> addr_width" where
  "ce_address_width c = addr_width_from_bits (ucast (extract_bits (ce_q1 c) 2 0))"

definition ce_with_domain_id :: "u16 \<Rightarrow> context_entry \<Rightarrow> context_entry" where
  "ce_with_domain_id did c =
     c\<lparr>ce_q1 := (ce_q1 c AND NOT (push_bit 8 0xffff)) OR push_bit 8 (ucast did)\<rparr>"

definition ce_domain_id :: "context_entry \<Rightarrow> u16" where
  "ce_domain_id c = ucast (extract_bits (ce_q1 c) 23 8)"

definition ce_into_bytes :: "context_entry \<Rightarrow> bytes" where
  "ce_into_bytes c = to_le_bytes (ce_q0 c) @ to_le_bytes (ce_q1 c)"

section \<open>Scalable context entries\<close>

text \<open>The reserved array \<^verbatim>\<open>[u64; 2]\<close> is a pair.\<close>

record scalable_context_entry =
  sc_q0 :: u64
  sc_q1 :: u64
  sc_reserved :: "u64 \<times> u64"

definition sc_new :: scalable_context_entry where
  "sc_new = \<lparr>sc_q0 = 0, sc_q1 = 0, sc_reserved = (0, 0)\<rparr>"

definition sc_present :: "scalable_context_entry \<Rightarrow> bool" where
  "sc_present c \<longleftrightarrow> sc_q0 c AND 1 \<noteq> 0"

definition sc_with_present :: "bool \<Rightarrow> scalable_context_entry \<Rightarrow> scalable_context_entry" where
  "sc_with_present p c = c\<lparr>sc_q0 := (sc_q0 c AND NOT 1) OR ucast (of_bool p :: u8)\<rparr>"

definition sc_fault_disable :: "scalable_context_entry \<Rightarrow> bool" where
  "sc_fault_disable c \<longleftrightarrow> sc_q0 c AND 2 \<noteq> 0"

definition sc_device_tlb_enable :: "scalable_context_entry \<Rightarrow> bool" where
  "sc_device_tlb_enable c \<longleftrightarrow> sc_q0 c AND 4 \<noteq> 0"

definition sc_pasid_enable :: "scalable_context_entry \<Rightarrow> bool" where
  "sc_pasid_enable c \<longleftrightarrow> sc_q0 c AND 8 \<noteq> 0"

definition sc_with_pasid_enable :: "bool \<Rightarrow> scalable_context_entry \<Rightarrow> scalable_context_entry" where
  "sc_with_pasid_enable en c =
     c\<lparr>sc_q0 := (sc_q0 c AND NOT (push_bit 3 1)) OR push_bit 3 (ucast (of_bool en :: u8))\<rparr>"

definition sc_page_request_enable :: "scalable_context_entry \<Rightarrow> bool" where
  "sc_page_request_enable c \<longleftrightarrow> sc_q0 c AND 0x10 \<noteq> 0"

definition sc_with_page_request_enable :: "bool \<Rightarrow> scalable_context_entry \<Rightarrow> scalable_context_entry" where
  "sc_with_page_request_enable en c =
     c\<lparr>sc_q0 := (sc_q0 c AND NOT (push_bit 4 1)) OR push_bit 4 (ucast (of_bool en :: u8))\<rparr>"

definition sc_hpt_enable :: "scalable_context_entry \<Rightarrow> bool" where
  "sc_hpt_enable c \<longleftrightarrow> sc_q0 c AND 0x20 \<noteq> 0"

definition sc_eptr_enable :: "scalable_context_entry \<Rightarrow> bool" where
  "sc_eptr_enable c \<longleftrightarrow> sc_q0 c AND 0x40 \<noteq> 0"

definition sc_pasid_dir_size :: "scalable_context_entry \<Rightarrow> u8" where
  "sc_pasid_dir_size c = ucast (extract_bits (sc_q0 c) 11 9)"

definition sc_with_pasid_dir_size :: "u8 \<Rightarrow> scalable_context_entry \<Rightarrow> scalable_context_entry" where
  "sc_with_pasid_dir_size order c =
     c\<lparr>sc_q0 := (sc_q0 c AND NOT (push_bit 9 0x7)) OR push_bit 9 (ucast (order AND 0x7))\<rparr>"

definition sc_with_pasid_dir_ptr :: "u64 \<Rightarrow> scalable_context_entry \<Rightarrow> scalable_context_entry" where
  "sc_with_pasid_dir_ptr addr c = c\<lparr>sc_q0 := (sc_q0 c AND 0xfff) OR (addr AND NOT 0xfff)\<rparr>"

definition sc_pasid_dir_ptr :: "scalable_context_entry \<Rightarrow> u64" where
  "sc_pasid_dir_ptr c = sc_q0 c AND NOT 0xfff"

definition sc_rid_pasid :: "scalable_context_entry \<Rightarrow> u32" where
  "sc_rid_pasid c = ucast (extract_bits (sc_q1 c) 19 0)"

definition sc_with_rid_pasid :: "u32 \<Rightarrow> scalable_context_entry \<Rightarrow> scalable_context_entry" where
  "sc_with_rid_pasid pasid c = c\<lparr>sc_q1 := (sc_q1 c AND NOT 0xfffff) OR ucast (pasid AND 0xfffff)\<rparr>"

definition sc_rid_priv :: "scalable_context_entry \<Rightarrow> bool" where
  "sc_rid_priv c \<longleftrightarrow> sc_q1 c AND push_bit 20 1 \<noteq> 0"

definition sc_with_rid_priv :: "bool \<Rightarrow> scalable_context_entry \<Rightarrow> scalable_context_entry" where
  "sc_with_rid_priv en c =
     c\<lparr>sc_q1 := (sc_q1 c AND NOT (push_bit 20 1)) OR push_bit 20 (ucast (of_bool en :: u8))\<rparr>"

definition sc_into_bytes :: "scalable_context_entry \<Rightarrow> bytes" where
  "sc_into_bytes c = to_le_bytes (sc_q0 c) @ to_le_bytes (sc_q1 c) @
     to_le_bytes (fst (sc_reserved c)) @ to_le_bytes (snd (sc_reserved c))"

section \<open>PASID directory entries\<close>

record pasid_dir_entry =
  pd_low :: u64
  pd_high :: u64

definition pd_new :: "u64 \<Rightarrow> pasid_dir_entry" where
  "pd_new pasid_table = \<lparr>pd_low = (pasid_table AND NOT 0xfff) OR 1, pd_high = 0\<rparr>"

definition pd_present :: "pasid_dir_entry \<Rightarrow> bool" where
  "pd_present p \<longleftrightarrow> pd_low p AND 1 \<noteq> 0"

definition pd_fault_disable :: "pasid_dir_entry \<Rightarrow> bool" where
  "pd_fault_disable p \<longleftrightarrow> pd_low p AND 2 \<noteq> 0"

definition pd_pasid_table_ptr :: "pasid_dir_entry \<Rightarrow> u64" where
  "pd_pasid_table_ptr p = pd_low p AND NOT 0xfff"

section \<open>PASID table entries\<close>

datatype pgtt =
    PgReserved0
  | FirstStageOnly
  | SecondStageOnly
  | Nested
  | PgPassThrough
  | PgReserved u8

definition pgtt_from_bits :: "u8 \<Rightarrow> pgtt" where
  "pgtt_from_bits v =
     (let m = v AND 0x7 in
      if m = 1 then FirstStageOnly
      else if m = 2 then SecondStageOnly
      else if m = 3 then Nested
      else if m = 4 then PgPassThrough
      else if m = 0 then PgReserved0
      else PgReserved m)"

definition pgtt_from :: "u8 \<Rightarrow> pgtt" where
  "pgtt_from v = pgtt_from_bits v"

fun pgtt_bits :: "pgtt \<Rightarrow> u8" where
  "pgtt_bits PgReserved0 = 0"
| "pgtt_bits FirstStageOnly = 1"
| "pgtt_bits SecondStageOnly = 2"
| "pgtt_bits Nested = 3"
| "pgtt_bits PgPassThrough = 4"
| "pgtt_bits (PgReserved v) = v AND 0x7"

datatype flpm =
    FourLevel
  | FiveLevel
  | FlReserved u8

definition flpm_from_bits :: "u8 \<Rightarrow> flpm" where
  "flpm_from_bits v =
     (let m = v AND 0x3 in
      if m = 0 then FourLevel else if m = 1 then FiveLevel else FlReserved m)"

fun flpm_bits :: "flpm \<Rightarrow> u8" where
  "flpm_bits FourLevel = 0"
| "flpm_bits FiveLevel = 1"
| "flpm_bits (FlReserved v) = v AND 0x3"

text \<open>The array \<^verbatim>\<open>hpt: [u64; 4]\<close> is four fields.\<close>

record pasid_table_entry =
  pt_q0 :: u64
  pt_q1 :: u64
  pt_q2 :: u64
  pt_q3 :: u64
  pt_hpt0 :: u64
  pt_hpt1 :: u64
  pt_hpt2 :: u64
  pt_hpt3 :: u64

definition pt_new :: pasid_table_entry where
  "pt_new = \<lparr>pt_q0 = 0, pt_q1 = 0, pt_q2 = 0, pt_q3 = 0, pt_hpt0 = 0, pt_hpt1 = 0, pt_hpt2 = 0, pt_hpt3 = 0\<rparr>"

definition pt_present :: "pasid_table_entry \<Rightarrow> bool" where
  "pt_present p \<longleftrightarrow> pt_q0 p AND 1 \<noteq> 0"

definition pt_with_present :: "bool \<Rightarrow> pasid_table_entry \<Rightarrow> pasid_table_entry" where
  "pt_with_present b p = p\<lparr>pt_q0 := (pt_q0 p AND NOT 1) OR ucast (of_bool b :: u8)\<rparr>"

definition pt_fault_disable :: "pasid_table_entry \<Rightarrow> bool" where
  "pt_fault_disable p \<longleftrightarrow> pt_q0 p AND 2 \<noteq> 0"

definition ss_accessed_dirty :: "pasid_table_entry \<Rightarrow> bool" where
  "ss_accessed_dirty p \<longleftrightarrow> pt_q0 p AND push_bit 9 1 \<noteq> 0"

definition with_ss_accessed_dirty :: "bool \<Rightarrow> pasid_table_entry \<Rightarrow> pasid_table_entry" where
  "with_ss_accessed_dirty en p =
     p\<lparr>pt_q0 := (pt_q0 p AND NOT (push_bit 9 1)) OR push_bit 9 (ucast (of_bool en :: u8))\<rparr>"

definition pt_pgtt :: "pasid_table_entry \<Rightarrow> pgtt" where
  "pt_pgtt p = pgtt_from_bits (ucast (extract_bits (pt_q0 p) 8 6))"

definition with_pgtt :: "pgtt \<Rightarrow> pasid_table_entry \<Rightarrow> pasid_table_entry" where
  "with_pgtt t p = p\<lparr>pt_q0 := (pt_q0 p AND NOT (push_bit 6 0x7)) OR push_bit 6 (ucast (pgtt_bits t AND 0x7))\<rparr>"

definition page_table_ptr :: "pasid_table_entry \<Rightarrow> u64" where
  "page_table_ptr p = pt_q0 p AND NOT 0xfff"

definition with_page_table_ptr :: "u64 \<Rightarrow> pasid_table_entry \<Rightarrow> pasid_table_entry" where
  "with_page_table_ptr addr p = p\<lparr>pt_q0 := (pt_q0 p AND 0xfff) OR (addr AND NOT 0xfff)\<rparr>"

definition pt_domain_id :: "pasid_table_entry \<Rightarrow> u16" where
  "pt_domain_id p = ucast (pt_q1 p)"

definition pt_with_domain_id :: "u16 \<Rightarrow> pasid_table_entry \<Rightarrow> pasid_table_entry" where
  "pt_with_domain_id did p = p\<lparr>pt_q1 := (pt_q1 p AND NOT 0xffff) OR ucast did\<rparr>"

definition page_snoop :: "pasid_table_entry \<Rightarrow> bool" where
  "page_snoop p \<longleftrightarrow> pt_q1 p AND push_bit 24 1 \<noteq> 0"

definition cache_disable :: "pasid_table_entry \<Rightarrow> bool" where
  "cache_disable p \<longleftrightarrow> pt_q1 p AND push_bit 25 1 \<noteq> 0"

definition supervisor_requests :: "pasid_table_entry \<Rightarrow> bool" where
  "supervisor_requests p \<longleftrightarrow> pt_q2 p AND 1 \<noteq> 0"

definition with_supervisor_requests :: "bool \<Rightarrow> pasid_table_entry \<Rightarrow> pasid_table_entry" where
  "with_supervisor_requests en p = p\<lparr>pt_q2 := (pt_q2 p AND NOT 1) OR ucast (of_bool en :: u8)\<rparr>"

definition pt_flpm :: "pasid_table_entry \<Rightarrow> flpm" where
  "pt_flpm p = flpm_from_bits (ucast (extract_bits (pt_q2 p) 3 2))"

definition with_flpm :: "flpm \<Rightarrow> pasid_table_entry \<Rightarrow> pasid_table_entry" where
  "with_flpm m p = p\<lparr>pt_q2 := (pt_q2 p AND NOT (push_bit 2 0x3)) OR push_bit 2 (ucast (flpm_bits m AND 0x3))\<rparr>"

definition first_level_ptr :: "pasid_table_entry \<Rightarrow> u64" where
  "first_level_ptr p = pt_q2 p AND 0x000ffffffffff000"

definition with_first_level_ptr :: "u64 \<Rightarrow> pasid_table_entry \<Rightarrow> pasid_table_entry" where
  "with_first_level_ptr addr p =
     p\<lparr>pt_q2 := (pt_q2 p AND NOT 0x000ffffffffff000) OR (addr AND 0x000ffffffffff000)\<rparr>"

definition write_protect_enable :: "pasid_table_entry \<Rightarrow> bool" where
  "write_protect_enable p \<longleftrightarrow> pt_q2 p AND push_bit 4 1 \<noteq> 0"

definition ext_accessed_flag :: "pasid_table_entry \<Rightarrow> bool" where
  "ext_accessed_flag p \<longleftrightarrow> pt_q2 p AND push_bit 7 1 \<noteq> 0"

definition hpt_size :: "pasid_table_entry \<Rightarrow> u8" where
  "hpt_size p = ucast (extract_bits (pt_hpt1 p) 1 0)"

definition hpt_domain_id :: "pasid_table_entry \<Rightarrow> u16" where
  "hpt_domain_id p = ucast (pt_hpt2 p)"

definition hpt_root_raw :: "pasid_table_entry \<Rightarrow> u64 \<times> u64" where
  "hpt_root_raw p = (pt_hpt3 p, pt_hpt2 p AND 0xfff)"

definition pt_into_bytes :: "pasid_table_entry \<Rightarrow> bytes" where
  "pt_into_bytes p = to_le_bytes (pt_q0 p) @ to_le_bytes (pt_q1 p) @ to_le_bytes (pt_q2 p) @
     to_le_bytes (pt_q3 p) @ concat (map to_le_bytes [pt_hpt0 p, pt_hpt1 p, pt_hpt2 p, pt_hpt3 p])"

section \<open>Raw overlays\<close>

text \<open>\<^verbatim>\<open>ref_from_bytes\<close> of the \<open>zerocopy\<close> crate is the parameter of the overlay helpers.\<close>

definition root_entry_overlay :: "(bytes \<Rightarrow> root_entry option) \<Rightarrow> bytes \<Rightarrow> root_entry option" where
  "root_entry_overlay ref_from_bytes bs = ref_from_bytes bs"

definition context_entry_overlay :: "(bytes \<Rightarrow> context_entry option) \<Rightarrow> bytes \<Rightarrow> context_entry option" where
  "context_entry_overlay ref_from_bytes bs = ref_from_bytes bs"

definition scalable_context_entry_overlay ::
  "(bytes \<Rightarrow> scalable_context_entry option) \<Rightarrow> bytes \<Rightarrow> scalable_context_entry option" where
  "scalable_context_entry_overlay ref_from_bytes bs = ref_from_bytes bs"

definition pasid_table_entry_overlay ::
  "(bytes \<Rightarrow> pasid_table_entry option) \<Rightarrow> bytes \<Rightarrow> pasid_table_entry option" where
  "pasid_table_entry_overlay ref_from_bytes bs = ref_from_bytes bs"

text \<open>Division by zero panics.\<close>

definition entries_per_page :: "nat \<Rightarrow> nat option" where
  "entries_per_page entry_size = (if entry_size = 0 then None else Some (4096 div entry_size))"

section \<open>The codecs\<close>

interpretation addr_width: enum_codec addr_width_from_bits addr_width_bits 3
proof
  fix v show "addr_width_bits (addr_width_from_bits v) = take_bit 3 v"
    using mask3_cases [of v] by (auto simp: addr_width_from_bits_def masked_literal Let_def)
  show "addr_width_from_bits (take_bit 3 v) = addr_width_from_bits v"
    by (simp add: addr_width_from_bits_def masked_literal)
next
  fix e show "take_bit 3 (addr_width_bits e) = addr_width_bits e" by (cases e) (simp_all add: masked_literal)
qed

interpretation trans_type: exact_enum_codec trans_type_from_bits trans_type_bits 2
proof
  fix v show "trans_type_bits (trans_type_from_bits v) = take_bit 2 v"
    using mask2_cases [of v] by (auto simp: trans_type_from_bits_def masked_literal Let_def)
  show "trans_type_from_bits (take_bit 2 v) = trans_type_from_bits v"
    by (simp add: trans_type_from_bits_def masked_literal)
next
  fix e show "take_bit 2 (trans_type_bits e) = trans_type_bits e" by (cases e) simp_all
  show "trans_type_from_bits (trans_type_bits e) = e" by (cases e) (simp_all add: trans_type_from_bits_def)
qed

interpretation pgtt: enum_codec pgtt_from_bits pgtt_bits 3
proof
  fix v show "pgtt_bits (pgtt_from_bits v) = take_bit 3 v"
    using mask3_cases [of v] by (auto simp: pgtt_from_bits_def masked_literal Let_def)
  show "pgtt_from_bits (take_bit 3 v) = pgtt_from_bits v"
    by (simp add: pgtt_from_bits_def masked_literal)
next
  fix e show "take_bit 3 (pgtt_bits e) = pgtt_bits e" by (cases e) (simp_all add: masked_literal)
qed

interpretation flpm: enum_codec flpm_from_bits flpm_bits 2
proof
  fix v show "flpm_bits (flpm_from_bits v) = take_bit 2 v"
    using mask2_cases [of v] by (auto simp: flpm_from_bits_def masked_literal Let_def)
  show "flpm_from_bits (take_bit 2 v) = flpm_from_bits v"
    by (simp add: flpm_from_bits_def masked_literal)
next
  fix e show "take_bit 2 (flpm_bits e) = flpm_bits e" by (cases e) (simp_all add: masked_literal)
qed

section \<open>Accessors and builders as bit fields\<close>

lemma type_put: "(q AND NOT 0xc) OR (push_bit 2 (ucast t) AND 0xc) = put_field 2 2 (ucast t) q"
  for q :: u64 and t :: u8
  unfolding mask_words
  by (rule bit_word_eqI) (auto simp: bit_simps split: if_splits dest: bit_imp_le_length)

lemma ce_getters [field_shapes]:
  "ce_present c = bit (ce_q0 c) 0" "ce_fault_disable c = bit (ce_q0 c) 1"
  "ce_translation_type c = trans_type_from_bits (ucast (get_field 2 2 (ce_q0 c)))"
  "ce_second_stage_ptr c = push_bit 12 (get_field 12 52 (ce_q0 c))"
  "ce_address_width c = addr_width_from_bits (ucast (get_field 0 3 (ce_q1 c)))"
  "ce_domain_id c = ucast (get_field 8 16 (ce_q1 c))"
  by (simp_all only: ce_present_def ce_fault_disable_def ce_translation_type_def ce_second_stage_ptr_def
      ce_address_width_def ce_domain_id_def flag_tests page_frame) (simp_all add: extract_bits_at)

lemma ce_builders [field_shapes]:
  "ce_with_present b c = c\<lparr>ce_q0 := put_field 0 1 (of_bool b) (ce_q0 c)\<rparr>"
  "ce_with_fault_disable b c = c\<lparr>ce_q0 := put_field 1 1 (of_bool b) (ce_q0 c)\<rparr>"
  "ce_with_translation_type t c = c\<lparr>ce_q0 := put_field 2 2 (ucast (trans_type_bits t)) (ce_q0 c)\<rparr>"
  "ce_with_second_stage_ptr a c = c\<lparr>ce_q0 := put_field 12 52 (drop_bit 12 a) (ce_q0 c)\<rparr>"
  "ce_with_address_width w c = c\<lparr>ce_q1 := put_field 0 3 (ucast (addr_width_bits w)) (ce_q1 c)\<rparr>"
  "ce_with_domain_id i c = c\<lparr>ce_q1 := put_field 8 16 (ucast i) (ce_q1 c)\<rparr>"
  unfolding ce_with_present_def ce_with_fault_disable_def ce_with_translation_type_def
    ce_with_second_stage_ptr_def ce_with_address_width_def ce_with_domain_id_def page_frame_put type_put
  by (simp_all only: mask_words put_shape_simps)

lemma sc_getters [field_shapes]:
  "sc_present c = bit (sc_q0 c) 0" "sc_fault_disable c = bit (sc_q0 c) 1"
  "sc_device_tlb_enable c = bit (sc_q0 c) 2" "sc_pasid_enable c = bit (sc_q0 c) 3"
  "sc_page_request_enable c = bit (sc_q0 c) 4" "sc_hpt_enable c = bit (sc_q0 c) 5"
  "sc_eptr_enable c = bit (sc_q0 c) 6" "sc_pasid_dir_size c = ucast (get_field 9 3 (sc_q0 c))"
  "sc_pasid_dir_ptr c = push_bit 12 (get_field 12 52 (sc_q0 c))"
  "sc_rid_pasid c = ucast (get_field 0 20 (sc_q1 c))" "sc_rid_priv c = bit (sc_q1 c) 20"
  by (simp_all only: sc_present_def sc_fault_disable_def sc_device_tlb_enable_def sc_pasid_enable_def
      sc_page_request_enable_def sc_hpt_enable_def sc_eptr_enable_def sc_pasid_dir_size_def
      sc_pasid_dir_ptr_def sc_rid_pasid_def sc_rid_priv_def flag_tests page_frame)
    (simp_all add: extract_bits_at)

lemma sc_builders [field_shapes]:
  "sc_with_present b c = c\<lparr>sc_q0 := put_field 0 1 (of_bool b) (sc_q0 c)\<rparr>"
  "sc_with_pasid_enable b c = c\<lparr>sc_q0 := put_field 3 1 (of_bool b) (sc_q0 c)\<rparr>"
  "sc_with_page_request_enable b c = c\<lparr>sc_q0 := put_field 4 1 (of_bool b) (sc_q0 c)\<rparr>"
  "sc_with_pasid_dir_size n c = c\<lparr>sc_q0 := put_field 9 3 (ucast n) (sc_q0 c)\<rparr>"
  "sc_with_pasid_dir_ptr a c = c\<lparr>sc_q0 := put_field 12 52 (drop_bit 12 a) (sc_q0 c)\<rparr>"
  "sc_with_rid_pasid i c = c\<lparr>sc_q1 := put_field 0 20 (ucast i) (sc_q1 c)\<rparr>"
  "sc_with_rid_priv b c = c\<lparr>sc_q1 := put_field 20 1 (of_bool b) (sc_q1 c)\<rparr>"
  unfolding sc_with_present_def sc_with_pasid_enable_def sc_with_page_request_enable_def
    sc_with_pasid_dir_size_def sc_with_pasid_dir_ptr_def sc_with_rid_pasid_def sc_with_rid_priv_def page_frame_put
  by (simp_all only: mask_words put_shape_simps)

lemma pt_getters [field_shapes]:
  "pt_present p = bit (pt_q0 p) 0" "pt_fault_disable p = bit (pt_q0 p) 1"
  "ss_accessed_dirty p = bit (pt_q0 p) 9"
  "pt_pgtt p = pgtt_from_bits (ucast (get_field 6 3 (pt_q0 p)))"
  "page_table_ptr p = push_bit 12 (get_field 12 52 (pt_q0 p))"
  "page_snoop p = bit (pt_q1 p) 24" "cache_disable p = bit (pt_q1 p) 25"
  "supervisor_requests p = bit (pt_q2 p) 0"
  "pt_flpm p = flpm_from_bits (ucast (get_field 2 2 (pt_q2 p)))"
  "first_level_ptr p = push_bit 12 (get_field 12 40 (pt_q2 p))"
  "write_protect_enable p = bit (pt_q2 p) 4" "ext_accessed_flag p = bit (pt_q2 p) 7"
  by (simp_all only: pt_present_def pt_fault_disable_def ss_accessed_dirty_def pt_pgtt_def
      page_table_ptr_def page_snoop_def cache_disable_def supervisor_requests_def
      pt_flpm_def first_level_ptr_def write_protect_enable_def ext_accessed_flag_def flag_tests page_frame)
    (simp_all add: extract_bits_at)

lemma pt_builders [field_shapes]:
  "pt_with_present b p = p\<lparr>pt_q0 := put_field 0 1 (of_bool b) (pt_q0 p)\<rparr>"
  "with_ss_accessed_dirty b p = p\<lparr>pt_q0 := put_field 9 1 (of_bool b) (pt_q0 p)\<rparr>"
  "with_pgtt t p = p\<lparr>pt_q0 := put_field 6 3 (ucast (pgtt_bits t)) (pt_q0 p)\<rparr>"
  "with_page_table_ptr a p = p\<lparr>pt_q0 := put_field 12 52 (drop_bit 12 a) (pt_q0 p)\<rparr>"
  "pt_with_domain_id i p = p\<lparr>pt_q1 := put_field 0 16 (ucast i) (pt_q1 p)\<rparr>"
  "with_supervisor_requests b p = p\<lparr>pt_q2 := put_field 0 1 (of_bool b) (pt_q2 p)\<rparr>"
  "with_flpm m p = p\<lparr>pt_q2 := put_field 2 2 (ucast (flpm_bits m)) (pt_q2 p)\<rparr>"
  "with_first_level_ptr a p = p\<lparr>pt_q2 := put_field 12 40 (drop_bit 12 a) (pt_q2 p)\<rparr>"
  unfolding pt_with_present_def with_ss_accessed_dirty_def with_pgtt_def with_page_table_ptr_def
    pt_with_domain_id_def with_supervisor_requests_def with_flpm_def with_first_level_ptr_def page_frame_put
  by (simp_all only: mask_words put_shape_simps)

section \<open>The abstract views\<close>

record ce_view =
  cv_present :: bool
  cv_fpd :: bool
  cv_type :: trans_type
  cv_table :: u64
  cv_width :: addr_width
  cv_domain :: u16

definition ce_view_of :: "context_entry \<Rightarrow> ce_view" where
  "ce_view_of c = \<lparr>cv_present = ce_present c, cv_fpd = ce_fault_disable c, cv_type = ce_translation_type c,
     cv_table = ce_second_stage_ptr c, cv_width = ce_address_width c, cv_domain = ce_domain_id c\<rparr>"

datatype ce_op =
    CePresent bool
  | CeFaultDisable bool
  | CeType trans_type
  | CeTable u64
  | CeWidth addr_width
  | CeDomain u16

fun ce_step :: "ce_op \<Rightarrow> context_entry \<Rightarrow> context_entry" where
  "ce_step (CePresent b) = ce_with_present b"
| "ce_step (CeFaultDisable b) = ce_with_fault_disable b"
| "ce_step (CeType t) = ce_with_translation_type t"
| "ce_step (CeTable a) = ce_with_second_stage_ptr a"
| "ce_step (CeWidth w) = ce_with_address_width w"
| "ce_step (CeDomain i) = ce_with_domain_id i"

text \<open>A reserved width is stored as its low three bits, a table address as its page.\<close>

fun ce_view_step :: "ce_op \<Rightarrow> ce_view \<Rightarrow> ce_view" where
  "ce_view_step (CePresent b) v = v\<lparr>cv_present := b\<rparr>"
| "ce_view_step (CeFaultDisable b) v = v\<lparr>cv_fpd := b\<rparr>"
| "ce_view_step (CeType t) v = v\<lparr>cv_type := t\<rparr>"
| "ce_view_step (CeTable a) v = v\<lparr>cv_table := a AND NOT 0xfff\<rparr>"
| "ce_view_step (CeWidth w) v = v\<lparr>cv_width := addr_width_from_bits (addr_width_bits w)\<rparr>"
| "ce_view_step (CeDomain i) v = v\<lparr>cv_domain := i\<rparr>"

lemma page_of_field: "push_bit 12 (take_bit 52 (drop_bit 12 a)) = push_bit 12 (get_field 12 52 a)"
  "push_bit 12 (take_bit 40 (drop_bit 12 a)) = push_bit 12 (get_field 12 40 a)" for a :: u64
  by (simp_all add: get_field_def)

lemmas field_views = page_frame page_frame_negative page_of_field addr_width.to_bits_fits trans_type.to_bits_fits
  trans_type.from_to pgtt.to_bits_fits flpm.to_bits_fits

lemma ce_step_view: "ce_view_of (ce_step op c) = ce_view_step op (ce_view_of c)"
  by (cases op) (simp_all add: ce_view_of_def ce_getters ce_builders field_views)

text \<open>Whatever sequence of builders is applied to a context entry, every accessor returns what
  was stored last for its field (domain id, width, type, table page, flags), and no builder disturbs
  another field.\<close>

lemma ce_builders_refine:
  "ce_view_of (fold ce_step ops c) = fold ce_view_step ops (ce_view_of c)"
  by (induction ops arbitrary: c) (simp_all add: ce_step_view)

record sc_view =
  sv_present :: bool
  sv_fpd :: bool
  sv_dte :: bool
  sv_paside :: bool
  sv_pre :: bool
  sv_hpte :: bool
  sv_eptr :: bool
  sv_dir_size :: u8
  sv_dir :: u64
  sv_rid_pasid :: u32
  sv_rid_priv :: bool

definition sc_view_of :: "scalable_context_entry \<Rightarrow> sc_view" where
  "sc_view_of c = \<lparr>sv_present = sc_present c, sv_fpd = sc_fault_disable c, sv_dte = sc_device_tlb_enable c,
     sv_paside = sc_pasid_enable c, sv_pre = sc_page_request_enable c, sv_hpte = sc_hpt_enable c,
     sv_eptr = sc_eptr_enable c, sv_dir_size = sc_pasid_dir_size c, sv_dir = sc_pasid_dir_ptr c,
     sv_rid_pasid = sc_rid_pasid c, sv_rid_priv = sc_rid_priv c\<rparr>"

datatype sc_op =
    ScPresent bool
  | ScPasidEnable bool
  | ScPageRequest bool
  | ScDirSize u8
  | ScDir u64
  | ScRidPasid u32
  | ScRidPriv bool

fun sc_step :: "sc_op \<Rightarrow> scalable_context_entry \<Rightarrow> scalable_context_entry" where
  "sc_step (ScPresent b) = sc_with_present b"
| "sc_step (ScPasidEnable b) = sc_with_pasid_enable b"
| "sc_step (ScPageRequest b) = sc_with_page_request_enable b"
| "sc_step (ScDirSize n) = sc_with_pasid_dir_size n"
| "sc_step (ScDir a) = sc_with_pasid_dir_ptr a"
| "sc_step (ScRidPasid i) = sc_with_rid_pasid i"
| "sc_step (ScRidPriv b) = sc_with_rid_priv b"

fun sc_view_step :: "sc_op \<Rightarrow> sc_view \<Rightarrow> sc_view" where
  "sc_view_step (ScPresent b) v = v\<lparr>sv_present := b\<rparr>"
| "sc_view_step (ScPasidEnable b) v = v\<lparr>sv_paside := b\<rparr>"
| "sc_view_step (ScPageRequest b) v = v\<lparr>sv_pre := b\<rparr>"
| "sc_view_step (ScDirSize n) v = v\<lparr>sv_dir_size := take_bit 3 n\<rparr>"
| "sc_view_step (ScDir a) v = v\<lparr>sv_dir := a AND NOT 0xfff\<rparr>"
| "sc_view_step (ScRidPasid i) v = v\<lparr>sv_rid_pasid := take_bit 20 i\<rparr>"
| "sc_view_step (ScRidPriv b) v = v\<lparr>sv_rid_priv := b\<rparr>"

lemma sc_step_view: "sc_view_of (sc_step op c) = sc_view_step op (sc_view_of c)"
  by (cases op) (simp_all add: sc_view_of_def sc_getters sc_builders field_views)

text \<open>The same for a scalable context entry: each builder stores its argument cut to its field,
  and leaves the other ten accessors alone.\<close>

lemma sc_builders_refine:
  "sc_view_of (fold sc_step ops c) = fold sc_view_step ops (sc_view_of c)"
  by (induction ops arbitrary: c) (simp_all add: sc_step_view)

record pt_view =
  pv_present :: bool
  pv_fpd :: bool
  pv_ssade :: bool
  pv_pgtt :: pgtt
  pv_table :: u64
  pv_domain :: u16
  pv_snoop :: bool
  pv_cd :: bool
  pv_sre :: bool
  pv_flpm :: flpm
  pv_first :: u64
  pv_wpe :: bool
  pv_eafe :: bool
  pv_hpt :: "u8 \<times> u16 \<times> u64 \<times> u64"

definition pt_view_of :: "pasid_table_entry \<Rightarrow> pt_view" where
  "pt_view_of p = \<lparr>pv_present = pt_present p, pv_fpd = pt_fault_disable p, pv_ssade = ss_accessed_dirty p,
     pv_pgtt = pt_pgtt p, pv_table = page_table_ptr p, pv_domain = pt_domain_id p, pv_snoop = page_snoop p,
     pv_cd = cache_disable p, pv_sre = supervisor_requests p, pv_flpm = pt_flpm p,
     pv_first = first_level_ptr p, pv_wpe = write_protect_enable p, pv_eafe = ext_accessed_flag p,
     pv_hpt = (hpt_size p, hpt_domain_id p, hpt_root_raw p)\<rparr>"

datatype pt_op =
    PtPresent bool
  | PtAccessedDirty bool
  | PtType pgtt
  | PtTable u64
  | PtDomain u16
  | PtSupervisor bool
  | PtFlpm flpm
  | PtFirst u64

fun pt_step :: "pt_op \<Rightarrow> pasid_table_entry \<Rightarrow> pasid_table_entry" where
  "pt_step (PtPresent b) = pt_with_present b"
| "pt_step (PtAccessedDirty b) = with_ss_accessed_dirty b"
| "pt_step (PtType t) = with_pgtt t"
| "pt_step (PtTable a) = with_page_table_ptr a"
| "pt_step (PtDomain i) = pt_with_domain_id i"
| "pt_step (PtSupervisor b) = with_supervisor_requests b"
| "pt_step (PtFlpm m) = with_flpm m"
| "pt_step (PtFirst a) = with_first_level_ptr a"

fun pt_view_step :: "pt_op \<Rightarrow> pt_view \<Rightarrow> pt_view" where
  "pt_view_step (PtPresent b) v = v\<lparr>pv_present := b\<rparr>"
| "pt_view_step (PtAccessedDirty b) v = v\<lparr>pv_ssade := b\<rparr>"
| "pt_view_step (PtType t) v = v\<lparr>pv_pgtt := pgtt_from_bits (pgtt_bits t)\<rparr>"
| "pt_view_step (PtTable a) v = v\<lparr>pv_table := a AND NOT 0xfff\<rparr>"
| "pt_view_step (PtDomain i) v = v\<lparr>pv_domain := i\<rparr>"
| "pt_view_step (PtSupervisor b) v = v\<lparr>pv_sre := b\<rparr>"
| "pt_view_step (PtFlpm m) v = v\<lparr>pv_flpm := flpm_from_bits (flpm_bits m)\<rparr>"
| "pt_view_step (PtFirst a) v = v\<lparr>pv_first := a AND 0x000ffffffffff000\<rparr>"

lemma low_half: "(ucast (put_field 0 16 (ucast i) q) :: u16) = i" for q :: u64 and i :: u16
  by (rule bit_word_eqI) (auto simp: bit_simps dest: bit_imp_le_length)

lemma pt_step_view: "pt_view_of (pt_step op p) = pt_view_step op (pt_view_of p)"
  by (cases op) (simp_all add: pt_view_of_def pt_getters pt_builders field_views low_half
      pt_domain_id_def hpt_size_def hpt_domain_id_def hpt_root_raw_def)

text \<open>The same for a PASID table entry: translation type, both table pointers, domain id, modes
  and flags are stored independently, and the HPT fields are never touched.\<close>

lemma pt_builders_refine:
  "pt_view_of (fold pt_step ops p) = fold pt_view_step ops (pt_view_of p)"
  by (induction ops arbitrary: p) (simp_all add: pt_step_view)

text \<open>C16: Whatever sequences of builders are applied to a context entry, a scalable context entry and a PASID
  table entry, every accessor returns what was stored last for its field, cut to the field: the second-stage,
  PASID directory and page-table pointers to bits 63:12, the first-level pointer only to bits 51:12,
  although it is documented at 63:12 like the others, the PASID directory size to 3 bits and the RID PASID to 20,
  widths, types and modes to the variant of their code, which for a reserved variant built with a code of
  another one is that other one.  No builder disturbs another field, and the HPT fields of a PASID entry are
  never touched; their accessors are those of the code, which reads the HPT fields at other positions than its
  comments give.\<close>

theorem context_entries_refine:
  "ce_view_of (fold ce_step ce_ops c) = fold ce_view_step ce_ops (ce_view_of c) \<and>
   sc_view_of (fold sc_step sc_ops s) = fold sc_view_step sc_ops (sc_view_of s) \<and>
   pt_view_of (fold pt_step pt_ops p) = fold pt_view_step pt_ops (pt_view_of p)"
  by (simp only: ce_builders_refine sc_builders_refine pt_builders_refine)

section \<open>Wire images and overlays\<close>

text \<open>The documented behaviour of \<open>ref_from_bytes\<close> on a little-endian target: it succeeds only on a
  slice of exactly the size of the entry, and the entry it returns has that slice as its image.\<close>

definition overlay_ok :: "('e \<Rightarrow> bytes) \<Rightarrow> (bytes \<Rightarrow> 'e option) \<Rightarrow> bool" where
  "overlay_ok wire ref_from_bytes \<longleftrightarrow> (\<forall>bs e. ref_from_bytes bs = Some e \<longrightarrow> wire e = bs)"

lemma overlay_laws:
  assumes "overlay_ok wire ref" "\<And>x y. wire x = wire y \<longleftrightarrow> x = y" "\<And>x. length (wire x) = n"
  shows "ref (wire e) \<in> {None, Some e} \<and> (ref bs \<noteq> None \<longrightarrow> length bs = n)"
proof -
  have "wire x = b" if "ref b = Some x" for x b
    using assms(1) that by (simp add: overlay_ok_def)
  then show ?thesis using assms(2,3) by (cases "ref (wire e)"; cases "ref bs") fastforce+
qed

lemma to_le_inj: "to_le_bytes x = to_le_bytes y \<longleftrightarrow> x = y" for x y :: u64
  by (metis from_to_le_bytes le_round_trips(3))

lemma ce_image_inj: "ce_into_bytes c = ce_into_bytes c' \<longleftrightarrow> c = c'"
  by (auto simp: ce_into_bytes_def to_le_inj intro: context_entry.equality)

lemma sc_image_inj: "sc_into_bytes c = sc_into_bytes c' \<longleftrightarrow> c = c'"
  by (auto simp: sc_into_bytes_def to_le_inj prod_eq_iff intro: scalable_context_entry.equality)

lemma pt_image_inj: "pt_into_bytes p = pt_into_bytes p' \<longleftrightarrow> p = p'"
  by (auto simp: pt_into_bytes_def to_le_inj intro: pasid_table_entry.equality)

text \<open>Storing entries and overlaying them agree: the images are 16, 32 and 64 bytes long, and an
  overlay of an entry's image, when the library grants one, is that entry; slices of another length are
  refused.\<close>

lemma overlay_roundtrip:
  assumes "overlay_ok ce_into_bytes ref_ce" "overlay_ok sc_into_bytes ref_sc" "overlay_ok pt_into_bytes ref_pt"
  shows "(context_entry_overlay ref_ce (ce_into_bytes c) \<in> {None, Some c}) \<and>
    (scalable_context_entry_overlay ref_sc (sc_into_bytes s) \<in> {None, Some s}) \<and>
    (pasid_table_entry_overlay ref_pt (pt_into_bytes p) \<in> {None, Some p}) \<and>
    (context_entry_overlay ref_ce bs \<noteq> None \<longrightarrow> length bs = 16) \<and>
    (scalable_context_entry_overlay ref_sc bs \<noteq> None \<longrightarrow> length bs = 32) \<and>
    (pasid_table_entry_overlay ref_pt bs \<noteq> None \<longrightarrow> length bs = 64)"
  using overlay_laws [OF assms(1) ce_image_inj, of 16 c bs] overlay_laws [OF assms(2) sc_image_inj, of 32 s bs]
    overlay_laws [OF assms(3) pt_image_inj, of 64 p bs]
  by (simp add: context_entry_overlay_def scalable_context_entry_overlay_def pasid_table_entry_overlay_def
      ce_into_bytes_def sc_into_bytes_def pt_into_bytes_def)

section \<open>Reserved bits\<close>

text \<open>The bits the layouts of the three entries reserve (or ignore) are zero.\<close>

definition ce_clean :: "context_entry \<Rightarrow> bool" where
  "ce_clean c \<longleftrightarrow> get_field 4 8 (ce_q0 c) = 0 \<and> get_field 3 5 (ce_q1 c) = 0 \<and> get_field 24 40 (ce_q1 c) = 0"

definition sc_clean :: "scalable_context_entry \<Rightarrow> bool" where
  "sc_clean c \<longleftrightarrow> get_field 7 2 (sc_q0 c) = 0 \<and> get_field 21 43 (sc_q1 c) = 0 \<and> sc_reserved c = (0, 0)"

definition pt_clean :: "pasid_table_entry \<Rightarrow> bool" where
  "pt_clean p \<longleftrightarrow> get_field 5 1 (pt_q0 p) = 0 \<and> get_field 10 2 (pt_q0 p) = 0 \<and> get_field 16 8 (pt_q1 p) = 0 \<and>
     get_field 26 38 (pt_q1 p) = 0 \<and> get_field 1 1 (pt_q2 p) = 0 \<and> get_field 5 2 (pt_q2 p) = 0 \<and>
     get_field 8 4 (pt_q2 p) = 0 \<and> get_field 52 12 (pt_q2 p) = 0 \<and> pt_q3 p = 0"

lemma ce_clean_step: "ce_clean c \<Longrightarrow> ce_clean (ce_step op c)"
  by (cases op) (simp_all add: ce_clean_def ce_builders)

lemma sc_clean_step: "sc_clean c \<Longrightarrow> sc_clean (sc_step op c)"
  by (cases op) (simp_all add: sc_clean_def sc_builders)

lemma pt_clean_step: "pt_clean p \<Longrightarrow> pt_clean (pt_step op p)"
  by (cases op) (simp_all add: pt_clean_def pt_builders)

lemma clean_new: "ce_clean ce_new" "sc_clean sc_new" "pt_clean pt_new"
  by (simp_all add: ce_clean_def sc_clean_def pt_clean_def ce_new_def sc_new_def pt_new_def)

end
