(* ===== verification/Devices.thy ===== *)
theory Devices
  imports Translation Amd_Dte Intel_Context
begin

text \<open>
  The composition of translation structures and walkers: device table, context and PASID entries set up
  with the builders, tables built by the entry builders, and the addresses that a device reaches through
  them.
\<close>

section \<open>Translation structures and walkers\<close>

text \<open>
  The table pointers that the translation structures carry are page aligned whatever the entries hold,
  which is what the walkers need of a root.
\<close>

lemma page_field_aligned: "take_bit 12 (push_bit 12 x) = 0" for x :: u64
  by (rule bit_word_eqI) (auto simp: bit_simps)

lemma guest_cr3_aligned: "take_bit 12 (guest_cr3_table d) = 0"
  unfolding dte_getters by (rule bit_word_eqI) (auto simp: bit_simps)

lemma stored_pointers_fit:
  "table_fits (host_page_table_root d)" "table_fits (guest_cr3_table d)"
  "table_fits (ce_second_stage_ptr c)" "table_fits (page_table_ptr p)" "table_fits (first_level_ptr p)"
  by (simp_all add: aligned_fits guest_cr3_aligned) (simp_all add: aligned_fits page_field_aligned
      dte_getters ce_getters pt_getters)

lemma amd_walk_returns:
  assumes "1 \<le> levels" "levels \<le> 5" "table_fits root"
  shows "\<exists>x. amd_walk fmt levels root iova fetch = Inr x"
  using amd_pt.loop_returns [of "unat levels" root fetch iova] u8_pos_nat assms
  by (auto simp: amd_walk_start)

lemma intel_walk_returns:
  assumes "1 \<le> levels" "levels \<le> 5" "table_fits root"
  shows "\<exists>x. intel_walk trunc stage levels root va fetch = Inr x"
  using intel_pt.loop_returns [of "unat levels" root trunc fetch va] u8_pos_nat assms
  by (auto simp: intel_walk_start)

text \<open>A walk from any table pointer a translation structure holds returns, for one to five levels,
  any memory and any address: neither the bytes of a device table, context or PASID entry nor those of the
  tables can make a walker panic.\<close>

lemma walks_from_entries_return:
  assumes "1 \<le> levels" "levels \<le> 5"
  shows "(\<exists>x. amd_walk fmt levels (host_page_table_root d) va fetch = Inr x) \<and>
    (\<exists>x. amd_walk fmt levels (guest_cr3_table d) va fetch = Inr x) \<and>
    (\<exists>x. intel_walk trunc stage levels (ce_second_stage_ptr c) va fetch = Inr x) \<and>
    (\<exists>x. intel_walk trunc stage levels (page_table_ptr p) va fetch = Inr x) \<and>
    (\<exists>x. intel_walk trunc stage levels (first_level_ptr p) va fetch = Inr x)"
  using amd_walk_returns [OF assms] intel_walk_returns [OF assms] stored_pointers_fit by blast

lemma walks_from_entries_return_example:
  "\<exists>x. intel_walk (\<lambda>e. e) Second 4 (ce_second_stage_ptr \<lparr>ce_q0 = - 1, ce_q1 = 0\<rparr>) (- 1) (\<lambda>_. - 1) = Inr x"
  using walks_from_entries_return [of 4 V2 dte_new "- 1" "\<lambda>_. - 1" "\<lambda>e. e" Second
      "\<lparr>ce_q0 = - 1, ce_q1 = 0\<rparr>" pt_new] by simp

text \<open>The depth of the tree that the documentation of \<^verbatim>\<open>AddrWidth\<close> gives for each width.\<close>

fun agaw_levels :: "addr_width \<Rightarrow> u8" where
  "agaw_levels Agaw39 = 3"
| "agaw_levels Agaw48 = 4"
| "agaw_levels Agaw57 = 5"
| "agaw_levels _ = 0"

lemma agaw_tree:
  assumes "address_bits aw \<noteq> 0"
  shows "1 \<le> agaw_levels aw" "agaw_levels aw \<le> 5" "tree_width (agaw_levels aw) = unat (address_bits aw)"
    "of_nat (tree_width (agaw_levels aw)) = address_bits aw" "unat (address_bits aw) < 64"
  using assms by (cases aw; simp add: level_bits_def)+

lemma intel_loop_not_range:
  assumes "1 \<le> levels" "levels \<le> 5" "table_fits root"
  shows "intel_walk_loop trunc fetch va root levels \<noteq> Inr (Inl (IntelAddressTooLarge n))"
proof
  assume "intel_walk_loop trunc fetch va root levels = Inr (Inl (IntelAddressTooLarge n))"
  moreover have "0 < unat levels" "unat levels \<le> 5" using u8_pos_nat assms by auto
  ultimately obtain r where "Inl (IntelAddressTooLarge n) = walk_answer IntelNotPresent (intel_hit trunc) va r"
    using intel_pt.loop_iff [of "unat levels" root trunc fetch va] assms(3) by force
  then show False by (cases r) auto
qed

text \<open>C25: The address width of a context entry and the walker agree: a second-stage walk from the entry,
  with the depth its width stands for, refuses an address with exactly that width when and only when the
  address does not fit it.\<close>

theorem context_width_bounds_walk:
  assumes "address_bits (ce_address_width c) \<noteq> 0"
  shows "intel_walk trunc Second (agaw_levels (ce_address_width c)) (ce_second_stage_ptr c) va fetch
      = Inr (Inl (IntelAddressTooLarge (address_bits (ce_address_width c))))
    \<longleftrightarrow> 2 ^ unat (address_bits (ce_address_width c)) \<le> unat va"
  using agaw_tree [OF assms] beyond_width [of "unat (address_bits (ce_address_width c))" va]
  by (simp add: intel_walk_start intel_loop_not_range stored_pointers_fit)

theorem context_width_bounds_walk_witness:
  "intel_walk (\<lambda>e. e) Second 4 (ce_second_stage_ptr (ce_with_address_width Agaw48 ce_new)) (2 ^ 48) (\<lambda>_. 0)
   = Inr (Inl (IntelAddressTooLarge 48))"
proof -
  have "ce_address_width (ce_with_address_width Agaw48 ce_new) = Agaw48"
    by (simp add: ce_with_address_width_def ce_address_width_def ce_new_def extract_bits_at get_field_def
        addr_width_from_bits_def)
  then show ?thesis
    using context_width_bounds_walk [of "ce_with_address_width Agaw48 ce_new" "\<lambda>e. e" "2 ^ 48" "\<lambda>_. 0"] by simp
qed

section \<open>From a configured device to physical memory\<close>

text \<open>
  The second-stage pointer of a context entry, and the host root of a device table entry, are what the
  last builder for them stored, whatever builders are applied before and after.
\<close>

lemma fold_keeps_value:
  "(\<And>s op. op \<in> set ops \<Longrightarrow> g (f op s) = g s) \<Longrightarrow> g (fold f ops s) = g s"
  by (induction ops arbitrary: s) simp_all

lemma second_stage_kept:
  "(\<And>a. CeTable a \<notin> set ops) \<Longrightarrow> ce_second_stage_ptr (fold ce_step ops c) = ce_second_stage_ptr c"
proof (rule fold_keeps_value)
  fix c op assume "\<And>a. CeTable a \<notin> set ops" "op \<in> set ops"
  then show "ce_second_stage_ptr (ce_step op c) = ce_second_stage_ptr c"
    using arg_cong [OF ce_step_view [of op c], of cv_table] by (cases op) (auto simp: ce_view_of_def)
qed

lemma host_root_kept:
  "(\<And>a. SetHostRoot a \<notin> set ops) \<Longrightarrow> host_page_table_root (fold dte_step ops d) = host_page_table_root d"
proof (rule fold_keeps_value)
  fix d op assume "\<And>a. SetHostRoot a \<notin> set ops" "op \<in> set ops"
  then show "host_page_table_root (dte_step op d) = host_page_table_root d"
    using arg_cong [OF dte_step_view [of op d], of v_root] by (cases op) (auto simp: dte_view_of_def)
qed

lemma pasid_pointers_kept:
  "(\<And>a. PtFirst a \<notin> set ops) \<Longrightarrow> first_level_ptr (fold pt_step ops p) = first_level_ptr p"
  "(\<And>a. PtTable a \<notin> set ops) \<Longrightarrow> page_table_ptr (fold pt_step ops p) = page_table_ptr p"
proof (rule_tac [!] fold_keeps_value)
  fix p op assume "\<And>a. PtFirst a \<notin> set ops" "op \<in> set ops"
  then show "first_level_ptr (pt_step op p) = first_level_ptr p"
    using arg_cong [OF pt_step_view [of op p], of pv_first] by (cases op) (auto simp: pt_view_of_def)
next
  fix p op assume "\<And>a. PtTable a \<notin> set ops" "op \<in> set ops"
  then show "page_table_ptr (pt_step op p) = page_table_ptr p"
    using arg_cong [OF pt_step_view [of op p], of pv_table] by (cases op) (auto simp: pt_view_of_def)
qed

lemma aligned_frame: "take_bit 12 x = 0 \<Longrightarrow> x AND NOT 0xfff = x" for x :: u64
  unfolding mask_words by (rule bit_word_eqI) (auto simp: bit_simps take_bit_zero_iff not_le)

lemma second_stage_configured:
  assumes "\<And>a. CeTable a \<notin> set post" "take_bit 12 root = 0"
  shows "ce_second_stage_ptr (fold ce_step (pre @ CeTable root # post) c) = root"
proof -
  have "ce_second_stage_ptr (ce_step (CeTable root) x) = root" for x
    using arg_cong [OF ce_step_view [of "CeTable root" x], of cv_table]
    by (simp only: ce_view_of_def ce_view_step.simps ce_view.simps aligned_frame [OF assms(2)])
  then show ?thesis using assms(1) by (simp add: second_stage_kept)
qed

lemma host_root_configured:
  assumes "\<And>a. SetHostRoot a \<notin> set post" "root AND pa_mask = root"
  shows "host_page_table_root (fold dte_step (pre @ SetHostRoot root # post) d) = root"
proof -
  have "host_page_table_root (dte_step (SetHostRoot root) x) = root" for x
    using arg_cong [OF dte_step_view [of "SetHostRoot root" x], of v_root] assms(2)
    by (simp add: dte_view_of_def intel_frame_mask)
  then show ?thesis using assms(1) by (simp add: host_root_kept)
qed

lemma first_level_configured:
  assumes "\<And>a. PtFirst a \<notin> set post" "root AND pa_mask = root"
  shows "first_level_ptr (fold pt_step (pre @ PtFirst root # post) p) = root"
proof -
  have "first_level_ptr (pt_step (PtFirst root) x) = root" for x
    using arg_cong [OF pt_step_view [of "PtFirst root" x], of pv_first] assms(2)
    by (simp add: pt_view_of_def intel_frame_mask)
  then show ?thesis using assms(1) by (simp add: pasid_pointers_kept)
qed

lemma page_table_configured:
  assumes "\<And>a. PtTable a \<notin> set post" "take_bit 12 root = 0"
  shows "page_table_ptr (fold pt_step (pre @ PtTable root # post) p) = root"
proof -
  have "page_table_ptr (pt_step (PtTable root) x) = root" for x
    using arg_cong [OF pt_step_view [of "PtTable root" x], of pv_table]
    by (simp only: pt_view_of_def pt_view_step.simps pt_view.simps aligned_frame [OF assms(2)])
  then show ?thesis using assms(1) by (simp add: pasid_pointers_kept)
qed

text \<open>C3: Configuring a device and mapping a range for it compose.  Take a context entry on which any
  builders were called, the last table pointer stored being a page-aligned root, and tables below that root
  (page-aligned and below \<open>2^52\<close>) linked by \<open>table\<close> entries to the depth the entry's address width stands for, with the leaves of a mapping
  request stored in the last one.  The request is a page-aligned one: both bases are multiples of 4 KiB, the
  host range ends below \<open>2^52\<close> and, like the guest range, at least a page before the end of the 64-bit space
  (\<open>map_fits\<close>); \<open>page\<close> would cut other host addresses to a frame.  Then for every byte \<open>k\<close> of the request whose
  guest address lies within the address width of the entry, the walk from the entry gives byte \<open>k\<close> of the host
  range, in a 4 KiB page, writable exactly if the request asked for it.\<close>

theorem device_maps_range:
  assumes entry: "c = fold ce_step (pre @ CeTable root # post) c0"
    and last: "\<And>a. CeTable a \<notin> set post" and root: "take_bit 12 root = 0"
    and depth: "Suc (length ts) = unat (agaw_levels (ce_address_width c))"
    and width: "unat va < 2 ^ unat (address_bits (ce_address_width c))"
    and request: "map_fits m" "take_bit 12 (guest_base m) = 0" "take_bit 12 (host_base m) = 0"
      "unat (host_base m) + unat (map_len m) < 2 ^ 52"
    and byte: "k < unat (map_len m)" "va = guest_base m + of_nat k"
    and tables: "\<And>i. i < length ts \<Longrightarrow>
      fetch (entry_addr ((root # ts) ! i) va (Suc (length ts) - i)) = pte_bits (pte_table (ts ! i))"
    and tables_aligned: "\<And>t. t \<in> set ts \<Longrightarrow> t AND pa_mask = t"
    and stored: "\<And>g h e. Inr (g, h, e) \<in> set (map_leaves m) \<Longrightarrow> drop_bit 12 g = drop_bit 12 va \<Longrightarrow>
      fetch (entry_addr (last (root # ts)) g 1) = pte_bits e"
  shows "\<exists>e. intel_walk trunc Second (agaw_levels (ce_address_width c)) (ce_second_stage_ptr c) va fetch =
    Inr (Inr \<lparr>intel_physical = host_base m + of_nat k, intel_level = 1, intel_perms = trunc e,
              intel_huge = False\<rparr>) \<and> (bit e 1 \<longleftrightarrow> bit (map_perms m) 1)"
proof -
  let ?w = "ce_address_width c"
  have w: "address_bits ?w \<noteq> 0" using depth by (cases ?w) auto
  have five: "length ts < 5" using agaw_tree(2) [OF w] depth by (simp add: word_le_nat_alt)
  have levels: "agaw_levels ?w = of_nat (Suc (length ts))" unfolding depth by simp
  have "drop_bit (level_bits (Suc (length ts)) + 9) va = 0"
    using beyond_width [of "unat (address_bits ?w)" va] agaw_tree(3,5) [OF w] width
    by (simp add: depth)
  moreover have "ce_second_stage_ptr c = root"
    unfolding entry by (rule second_stage_configured) (use last root in auto)
  ultimately show ?thesis
    unfolding levels
    using map_range_walk [OF five aligned_fits [OF root] request(1) byte request(2-4) _ tables tables_aligned stored]
    by simp
qed

theorem device_maps_range_witness:
  "\<exists>e. intel_walk intel_trunc Second 3
      (ce_second_stage_ptr (ce_with_domain_id 7 (ce_with_second_stage_ptr 0x10000 (ce_with_address_width Agaw39
        (ce_with_present True ce_new))))) 0x2345 sample_memory =
    Inr (Inr \<lparr>intel_physical = 0xa345, intel_level = 1, intel_perms = intel_trunc e,
              intel_huge = False\<rparr>) \<and> bit e 1"
proof -
  let ?c = "fold ce_step ([CePresent True, CeWidth Agaw39] @ CeTable 0x10000 # [CeDomain 7]) ce_new"
  have w: "ce_address_width ?c = Agaw39"
    by (simp add: ce_with_address_width_def ce_address_width_def ce_new_def extract_bits_at get_field_def
        addr_width_from_bits_def ce_with_second_stage_ptr_def ce_with_domain_id_def ce_with_present_def)
  have "\<exists>e. intel_walk intel_trunc Second (agaw_levels (ce_address_width ?c)) (ce_second_stage_ptr ?c) 0x2345
      sample_memory =
    Inr (Inr \<lparr>intel_physical = host_base sample_range + of_nat 0x1345, intel_level = 1,
      intel_perms = intel_trunc e, intel_huge = False\<rparr>) \<and> (bit e 1 \<longleftrightarrow> bit (map_perms sample_range) 1)"
    by (rule device_maps_range [OF refl, where ts = "[0x20000, 0x30000]"])
      (auto simp: w [simplified] less_Suc_eq sample_leaves [unfolded sample_range_def] sample_memory_def sample_range_def
        map_fits_def level_bits_def entry_addr_def get_field_def pa_mask_def mask_numeral)
  then show ?thesis unfolding w by (auto simp: sample_range_def intel_RW_def bit_simps intel_flag_bits)
qed

text \<open>The trees the paging mode of a device table entry documents.\<close>

fun mode_levels :: "paging_mode \<Rightarrow> nat" where
  "mode_levels PmLevel1_3 = 3"
| "mode_levels PmLevel1_4 = 4"
| "mode_levels PmLevel2_4 = 4"
| "mode_levels PmLevel2_5 = 5"
| "mode_levels _ = 0"

text \<open>C4: The same on the AMD side: from a device table entry on which any builders were called, the last
  host root stored being a frame, a v2 walk over tables built by \<open>v2_table\<close> to the depth of the entry's
  paging mode reaches the page \<open>v2_page\<close> mapped, although the builder of the root clears other fields and
  the builders after it may set them again.\<close>

theorem device_table_entry_maps_page:
  assumes entry: "d = fold dte_step (pre @ SetHostRoot root # post) d0"
    and last: "\<And>a. SetHostRoot a \<notin> set post" and root: "root AND pa_mask = root"
    and depth: "Suc (length ts) = mode_levels (dte_paging_mode d)"
    and range: "drop_bit (level_bits (mode_levels (dte_paging_mode d)) + 9) iova = 0"
    and tables: "\<And>i. i < length ts \<Longrightarrow>
      fetch (entry_addr ((root # ts) ! i) iova (Suc (length ts) - i)) = amd_v2_table (ts ! i)"
    and aligned: "\<And>t. t \<in> set ts \<Longrightarrow> t AND pa_mask = t"
    and page: "fetch (entry_addr (last (root # ts)) iova 1) = amd_v2_page pa rw us"
  shows "amd_walk V2 (of_nat (mode_levels (dte_paging_mode d))) (host_page_table_root d) iova fetch =
    Inr (Inr \<lparr>amd_physical = (pa AND pa_mask) + take_bit 12 iova, amd_level = 1,
              amd_perms = amd_v2_page pa rw us, amd_huge = False\<rparr>)"
proof -
  have five: "length ts < 5" using depth by (cases "dte_paging_mode d") auto
  have fits: "table_fits root" using pa_mask_fits [of root] root by simp
  have "host_page_table_root d = root"
    unfolding entry by (rule host_root_configured) (use last root in auto)
  then show ?thesis
    using amd_walk_built [OF five fits range [folded depth] tables aligned page] by (simp flip: depth)
qed

theorem device_table_entry_maps_page_witness:
  "amd_walk V2 4 (host_page_table_root (with_ir True (with_host_page_table_root 0x1000
      (with_paging_mode PmLevel2_4 dte_new)))) 0x123 amd_test_memory =
    Inr (Inr \<lparr>amd_physical = 0x12345123, amd_level = 1,
              amd_perms = amd_v2_page 0x12345000 True False, amd_huge = False\<rparr>)"
proof -
  let ?ts = "[0x2000, 0x3000, 0x4000] :: u64 list"
  let ?d = "fold dte_step ([SetPagingMode PmLevel2_4] @ SetHostRoot 0x1000 # [SetIr True]) dte_new"
  have mode: "dte_paging_mode ?d = PmLevel2_4"
    by (simp add: dte_paging_mode_def with_paging_mode_def with_host_page_table_root_def with_ir_def dte_new_def
        extract_bits_at get_field_def paging_mode_from_bits_def)
  have "amd_walk V2 (of_nat (mode_levels (dte_paging_mode ?d))) (host_page_table_root ?d) 0x123 amd_test_memory =
    Inr (Inr \<lparr>amd_physical = (0x12345000 AND pa_mask) + take_bit 12 0x123, amd_level = 1,
              amd_perms = amd_v2_page 0x12345000 True False, amd_huge = False\<rparr>)"
    by (rule device_table_entry_maps_page [OF refl, where ts = ?ts])
      (auto simp: mode [simplified] less_Suc_eq level_bits_def pa_mask_def mask_numeral entry_addr_def
        amd_small_index amd_test_memory_def)
  then show ?thesis unfolding mode by (simp add: pa_mask_def mask_numeral)
qed

text \<open>The depth of the first-stage tree that the first-level paging mode documents.\<close>

fun flpm_levels :: "flpm \<Rightarrow> nat" where
  "flpm_levels FourLevel = 4"
| "flpm_levels FiveLevel = 5"
| "flpm_levels _ = 0"

lemma first_stage_frame: "first_stage_leaf pa user writable AND pa_mask = pa AND pa_mask"
  by (rule bit_word_eqI) (auto simp: bit_simps)

lemma superpage_walk:
  assumes "1 < n" "n + length ts \<le> 5" "table_fits root" "drop_bit (level_bits (n + length ts) + 9) va = 0"
    and "\<And>i. i < length ts \<Longrightarrow>
      fetch (entry_addr ((root # ts) ! i) va (n + length ts - i)) = pte_bits (pte_table (ts ! i))"
    and "\<And>t. t \<in> set ts \<Longrightarrow> t AND pa_mask = t"
    and "fetch (entry_addr (last (root # ts)) va n) = pte_bits (pte_huge_page h perms)"
    and "take_bit (level_bits n) (h AND pa_mask) = 0"
  shows "intel_walk trunc Second (of_nat (n + length ts)) root va fetch =
    Inr (Inr \<lparr>intel_physical = (h AND pa_mask) + take_bit (level_bits n) va, intel_level = of_nat n,
              intel_perms = trunc (pte_bits (pte_huge_page h perms)), intel_huge = True\<rparr>)"
proof -
  have u: "1 \<le> (of_nat (n + length ts) :: u8)" "(of_nat (n + length ts) :: u8) \<le> 5"
    "unat (of_nat (n + length ts) :: u8) = n + length ts" "unat (of_nat n :: u8) = n" "1 < (of_nat n :: u8)"
    using assms(1,2) u8_level [of "n + length ts - 1"] u8_level [of "n - 1"]
    by (simp_all add: word_less_nat_alt del: of_nat_add)
  have "intel_walk_loop trunc fetch va root (of_nat (n + length ts))
      = Inr (Inr (intel_hit trunc (pte_bits (pte_huge_page h perms)) va (of_nat n)))"
    using assms(1-3,5-7)
    by (intro intel_pt.loop_built_at [where enc = "\<lambda>t. pte_bits (pte_table t)"])
      (auto simp: bit_pte_huge_page bit_pte_table)
  then show ?thesis
    using u assms(4,8)
    by (simp add: intel_walk_start intel_hit_def bit_pte_huge_page frame_plus_offset del: of_nat_add)
qed

text \<open>C6: Two-stage translation through one PASID table entry. Take an entry on which any builders were called
  in any order, the last first-level pointer stored being \<open>root1\<close> and the last page table pointer \<open>root2\<close>. If
  the first-stage tables, of the depth the entry's paging mode stands for, end in the \<open>first_stage_leaf\<close> of a
  guest page, and the second-stage tables in a superpage of level \<open>n\<close> for that page, then the first walk gives
  the guest physical address and the second, started from it, the host address inside the superpage, both with
  the permissions of their leaves.\<close>

theorem pasid_entry_nested:
  assumes first: "p = fold pt_step (pre1 @ PtFirst root1 # post1) p1" "\<And>a. PtFirst a \<notin> set post1"
      "root1 AND pa_mask = root1"
    and second: "p = fold pt_step (pre2 @ PtTable root2 # post2) p2" "\<And>a. PtTable a \<notin> set post2"
      "take_bit 12 root2 = 0"
    and depth1: "Suc (length ts1) = flpm_levels (pt_flpm p)"
    and tables1: "\<And>i. i < length ts1 \<Longrightarrow>
      guest (entry_addr ((root1 # ts1) ! i) gva (Suc (length ts1) - i)) = enc (ts1 ! i)"
    and links1: "\<And>t. t \<in> set ts1 \<Longrightarrow> bit (enc t) 0 \<and> \<not> bit (enc t) 7 \<and> enc t AND pa_mask = t"
    and page: "guest (entry_addr (last (root1 # ts1)) gva 1) = first_stage_leaf frame user writable"
    and gpa: "gpa = (frame AND pa_mask) + take_bit 12 gva"
    and depth2: "1 < n" "n + length ts2 \<le> 5" "drop_bit (level_bits (n + length ts2) + 9) gpa = 0"
    and tables2: "\<And>i. i < length ts2 \<Longrightarrow>
      host (entry_addr ((root2 # ts2) ! i) gpa (n + length ts2 - i)) = pte_bits (pte_table (ts2 ! i))"
    and aligned2: "\<And>t. t \<in> set ts2 \<Longrightarrow> t AND pa_mask = t"
    and superpage: "host (entry_addr (last (root2 # ts2)) gpa n) = pte_bits (pte_huge_page hpa perms)"
      "take_bit (level_bits n) (hpa AND pa_mask) = 0"
  shows "intel_walk trunc First (of_nat (flpm_levels (pt_flpm p))) (first_level_ptr p) gva guest =
      Inr (Inr \<lparr>intel_physical = gpa, intel_level = 1,
                intel_perms = trunc (first_stage_leaf frame user writable), intel_huge = False\<rparr>) \<and>
    intel_walk trunc Second (of_nat (n + length ts2)) (page_table_ptr p) gpa host =
      Inr (Inr \<lparr>intel_physical = (hpa AND pa_mask) + take_bit (level_bits n) gpa, intel_level = of_nat n,
                intel_perms = trunc (pte_bits (pte_huge_page hpa perms)), intel_huge = True\<rparr>)"
proof
  have "first_level_ptr p = root1"
    unfolding first(1) by (rule first_level_configured) (use first(2,3) in auto)
  have five: "length ts1 < 5" using depth1 by (cases "pt_flpm p") auto
  have "table_fits root1" using pa_mask_fits [of root1] first(3) by simp
  then have "intel_walk_loop trunc guest gva root1 (of_nat (Suc (length ts1)))
      = Inr (Inr (intel_hit trunc (first_stage_leaf frame user writable) gva 1))"
    by (intro intel_pt.loop_built [where enc = enc])
      (use five tables1 links1 page in \<open>auto simp: bit_first_stage_leaf\<close>)
  then show "intel_walk trunc First (of_nat (flpm_levels (pt_flpm p))) (first_level_ptr p) gva guest =
      Inr (Inr \<lparr>intel_physical = gpa, intel_level = 1,
                intel_perms = trunc (first_stage_leaf frame user writable), intel_huge = False\<rparr>)"
    using u8_level [OF five] frame_plus_offset [OF take_bit_frame, of frame gva]
    by (simp add: \<open>first_level_ptr p = root1\<close> intel_walk_start intel_hit_def gpa level_bits_def
        first_stage_frame del: of_nat_Suc flip: depth1)
next
  have "page_table_ptr p = root2"
    unfolding second(1) by (rule page_table_configured) (use second(2,3) in auto)
  then show "intel_walk trunc Second (of_nat (n + length ts2)) (page_table_ptr p) gpa host =
      Inr (Inr \<lparr>intel_physical = (hpa AND pa_mask) + take_bit (level_bits n) gpa, intel_level = of_nat n,
                intel_perms = trunc (pte_bits (pte_huge_page hpa perms)), intel_huge = True\<rparr>)"
    using superpage_walk [OF depth2(1,2) aligned_fits [OF second(3)] depth2(3) tables2 aligned2 superpage] by simp
qed

definition guest_memory :: "u64 \<Rightarrow> u64" where
  "guest_memory p =
     (if p = 0x10000 then pte_bits (pte_table 0x20000)
      else if p = 0x20000 then pte_bits (pte_table 0x30000)
      else if p = 0x30000 then pte_bits (pte_table 0x40000)
      else if p = 0x40010 then first_stage_leaf 0x5000 True True
      else 0)"

definition host_memory :: "u64 \<Rightarrow> u64" where
  "host_memory p =
     (if p = 0x80000 then pte_bits (pte_table 0x90000)
      else if p = 0x90000 then pte_bits (pte_table 0xa0000)
      else if p = 0xa0000 then pte_bits (pte_huge_page 0x40000000 intel_RW)
      else 0)"

theorem pasid_entry_nested_witness:
  "let p = pt_with_domain_id 3 (with_page_table_ptr 0x80000 (with_first_level_ptr 0x10000 (with_pgtt Nested pt_new)))
   in intel_walk intel_trunc First 4 (first_level_ptr p) 0x2345 guest_memory =
      Inr (Inr \<lparr>intel_physical = 0x5345, intel_level = 1,
                intel_perms = intel_trunc (first_stage_leaf 0x5000 True True), intel_huge = False\<rparr>) \<and>
    intel_walk intel_trunc Second 4 (page_table_ptr p) 0x5345 host_memory =
      Inr (Inr \<lparr>intel_physical = 0x40005345, intel_level = 2,
                intel_perms = intel_trunc (pte_bits (pte_huge_page 0x40000000 intel_RW)), intel_huge = True\<rparr>)"
proof -
  let ?p = "pt_with_domain_id 3 (with_page_table_ptr 0x80000 (with_first_level_ptr 0x10000 (with_pgtt Nested pt_new)))"
  have linked: "pte_bits (pte_table t) AND 0xffffffffff000 = t AND 0xffffffffff000" for t
    using pte_frames(1) [of t] by (simp add: pa_mask_def mask_numeral)
  have mode: "flpm_levels (pt_flpm ?p) = 4"
    by (simp add: pt_flpm_def with_page_table_ptr_def with_first_level_ptr_def with_pgtt_def
        pt_with_domain_id_def pt_new_def extract_bits_at get_field_def flpm_from_bits_def)
  have "intel_walk intel_trunc First (of_nat (flpm_levels (pt_flpm ?p))) (first_level_ptr ?p) 0x2345 guest_memory =
      Inr (Inr \<lparr>intel_physical = 0x5345, intel_level = 1,
                intel_perms = intel_trunc (first_stage_leaf 0x5000 True True), intel_huge = False\<rparr>) \<and>
    intel_walk intel_trunc Second (of_nat (2 + length [0x90000, 0xa0000 :: u64])) (page_table_ptr ?p) 0x5345 host_memory =
      Inr (Inr \<lparr>intel_physical = (0x40000000 AND pa_mask) + take_bit (level_bits 2) 0x5345, intel_level = of_nat 2,
                intel_perms = intel_trunc (pte_bits (pte_huge_page 0x40000000 intel_RW)), intel_huge = True\<rparr>)"
  proof (rule pasid_entry_nested [where ?ts1.0 = "[0x20000, 0x30000, 0x40000]" and frame = "0x5000"
        and ?root1.0 = "0x10000" and ?root2.0 = "0x80000" and enc = "\<lambda>t. pte_bits (pte_table t)"])
    show "?p = fold pt_step ([PtType Nested] @ PtFirst 0x10000 # [PtTable 0x80000, PtDomain 3]) pt_new" by simp
    show "?p = fold pt_step ([PtType Nested, PtFirst 0x10000] @ PtTable 0x80000 # [PtDomain 3]) pt_new" by simp
  qed (auto simp: mode less_Suc_eq guest_memory_def host_memory_def level_bits_def entry_addr_def get_field_def
      pa_mask_def mask_numeral bit_pte_table linked)
  then show ?thesis unfolding Let_def mode by (simp add: pa_mask_def mask_numeral level_bits_def)
qed

section \<open>What a device cannot reach\<close>

text \<open>The leaves of a mapping request, as the entries of a level-1 table.\<close>

definition request_leaf :: "map_range \<Rightarrow> nat \<Rightarrow> u64 \<Rightarrow> bool" where
  "request_leaf m l e \<longleftrightarrow> l = 1 \<and> (\<exists>g h p. Inr (g, h, p) \<in> set (map_leaves m) \<and> e = pte_bits p)"

lemma request_leaf_page:
  assumes "map_fits m" "request_leaf m l e"
  obtains i where "l = 1" "i < unat (map_page_count m)"
    "e = pte_bits (pte_page (host_base m + of_nat (4096 * i)) (map_perms m))"
  using assms by (force simp: request_leaf_def map_leaves_eq unat_page_count)

text \<open>Any byte of page \<open>i\<close> of the host range lies in the range, rounded up to whole pages.\<close>

lemma host_page_range:
  assumes "map_fits m" "take_bit 12 (host_base m) = 0" "unat (host_base m) + unat (map_len m) < 2 ^ 52"
    and "i < unat (map_page_count m)" "unat off < 4096" "take_bit 12 off = off"
  shows "unat (((host_base m + of_nat (4096 * i)) AND pa_mask) OR off) = unat (host_base m) + 4096 * i + unat off"
proof -
  let ?h = "host_base m + of_nat (4096 * i) :: u64"
  have i: "4096 * i < unat (map_len m)" "4096 * i div 4096 = i"
    using assms(4) unfolding unat_page_count by auto
  have fits: "unat (host_base m) + 4096 * i < 2 ^ 64" using assms(1) i by (simp add: map_fits_def)
  have h: "unat ?h = unat (host_base m) + 4096 * i" "take_bit 12 ?h = 0"
    using aligned_byte(1,4) [OF assms(2) fits] by simp_all
  have "4096 dvd unat (host_base m)"
    using arg_cong [OF assms(2), of unat] unfolding unsigned_take_bit_eq
    by (simp add: take_bit_eq_mod dvd_eq_mod_eq_0)
  then have "unat ?h < 2 ^ 52"
    using i assms(3) unfolding h(1) by (elim dvdE) simp
  then have "?h AND pa_mask = ?h" using h(2) by (rule unat_frame_bound)
  moreover have "?h OR off = ?h + off"
    using frame_plus_offset [OF h(2), of off] assms(6) by simp
  moreover have "unat (?h + off) = unat ?h + unat off"
    using \<open>unat ?h < 2 ^ 52\<close> assms(5) by (intro unat_add_lem [THEN iffD1]) simp
  ultimately show ?thesis using h(1) by simp
qed

text \<open>C5: Isolation, for page-aligned requests: take a mapping request whose host base is a multiple of 4 KiB, whose
  host range ends below \<open>2^52\<close> and whose two ranges end at least a page before the end of the 64-bit space
  (\<open>map_fits\<close>); the frames of other requests would be cut.  Let every present leaf of the second-stage tables of
  a context entry of a defined address width, whichever of the 512 entries of a table an address selects, be
  one that this request produced.  Then no address the device sends reaches memory outside the host range of
  the request, rounded up to whole pages: its walk returns, and either refuses the address or ends in a
  4 KiB page of that range, which keeps the offset of the address and is writable exactly if the request is.\<close>

theorem device_confined:
  assumes width: "address_bits (ce_address_width c) \<noteq> 0"
    and tables: "confined fetch (request_leaf m) (unat (agaw_levels (ce_address_width c))) (ce_second_stage_ptr c)"
    and request: "map_fits m" "take_bit 12 (host_base m) = 0" "unat (host_base m) + unat (map_len m) < 2 ^ 52"
  shows "case intel_walk trunc Second (agaw_levels (ce_address_width c)) (ce_second_stage_ptr c) va fetch of
      Inl _ \<Rightarrow> False
    | Inr (Inl _) \<Rightarrow> True
    | Inr (Inr r) \<Rightarrow> unat (host_base m) \<le> unat (intel_physical r) \<and>
        unat (intel_physical r) < unat (host_base m) + 4096 * unat (map_page_count m) \<and>
        take_bit 12 (intel_physical r) = take_bit 12 va \<and> intel_level r = 1 \<and>
        (\<exists>e. intel_perms r = trunc e \<and> (bit e 1 \<longleftrightarrow> bit (map_perms m) 1))"
proof (cases "drop_bit (tree_width (agaw_levels (ce_address_width c))) va = 0")
  case True
  let ?n = "unat (agaw_levels (ce_address_width c))"
  have n: "0 < ?n" "?n \<le> 5" "of_nat ?n = agaw_levels (ce_address_width c)"
    using agaw_tree [OF width] u8_pos_nat by auto
  have walk: "intel_walk trunc Second (agaw_levels (ce_address_width c)) (ce_second_stage_ptr c) va fetch =
      intel_walk_loop trunc fetch va (ce_second_stage_ptr c) (of_nat ?n)"
    using True agaw_tree [OF width] by (simp add: intel_walk_start)
  consider k where "intel_walk_loop trunc fetch va (ce_second_stage_ptr c) (of_nat ?n) = Inr (Inl (IntelNotPresent (of_nat k)))"
    | k e where "intel_walk_loop trunc fetch va (ce_second_stage_ptr c) (of_nat ?n) = Inr (Inr (intel_hit trunc e va (of_nat k)))"
        "request_leaf m k e"
    using intel_pt.loop_confined [OF n(1,2) stored_pointers_fit(3) tables] by blast
  then show ?thesis
  proof cases
    case 1
    then show ?thesis by (simp add: walk del: of_nat_unat)
  next
    case 2
    obtain i where i: "k = 1" "i < unat (map_page_count m)"
      "e = pte_bits (pte_page (host_base m + of_nat (4096 * i)) (map_perms m))"
      using request_leaf_page [OF request(1) 2(2)] by blast
    have off: "unat (take_bit 12 va) < 4096" "4096 * i + 4096 \<le> 4096 * unat (map_page_count m)"
      using i(2) by (simp_all add: unsigned_take_bit_eq take_bit_eq_mod [of _ "unat va"])
    let ?p = "((host_base m + of_nat (4096 * i)) AND pa_mask) OR take_bit 12 va"
    have "unat ?p = unat (host_base m) + 4096 * i + unat (take_bit 12 va)"
      by (rule host_page_range [OF request i(2) off(1)]) simp
    moreover have "take_bit 12 ?p = take_bit 12 va"
      by (rule bit_word_eqI) (auto simp: bit_simps pa_mask_def)
    ultimately show ?thesis
      using off unfolding walk 2(1) i(1,3)
      by (auto simp: intel_hit_def level_bits_def bit_pte_page simp del: of_nat_mult)
  qed
next
  case False
  then show ?thesis using agaw_tree [OF width] by (simp add: intel_walk_start)
qed

text \<open>The three tables of \<open>sample_memory\<close>, slot by slot.\<close>

lemma sample_slots:
  assumes "i < 512"
  shows "sample_memory (0x10000 + 8 * of_nat i) = (if i = 0 then pte_bits (pte_table 0x20000) else 0)"
    "sample_memory (0x20000 + 8 * of_nat i) = (if i = 0 then pte_bits (pte_table 0x30000) else 0)"
    "sample_memory (0x30000 + 8 * of_nat i) =
       (if i = 1 then pte_bits (pte_page 0x9000 intel_RW) else if i = 2 then pte_bits (pte_page 0xa000 intel_RW)
        else if i = 3 then pte_bits (pte_page 0xb000 intel_RW) else 0)"
proof -
  have slot: "unat (t + 8 * of_nat i :: u64) = unat t + 8 * i" if "unat t < 2 ^ 32" for t
    using assms that by (simp add: unat_word_ariths unsigned_of_nat take_bit_nat_eq_self)
  show "sample_memory (0x10000 + 8 * of_nat i) = (if i = 0 then pte_bits (pte_table 0x20000) else 0)"
    "sample_memory (0x20000 + 8 * of_nat i) = (if i = 0 then pte_bits (pte_table 0x30000) else 0)"
    "sample_memory (0x30000 + 8 * of_nat i) =
       (if i = 1 then pte_bits (pte_page 0x9000 intel_RW) else if i = 2 then pte_bits (pte_page 0xa000 intel_RW)
        else if i = 3 then pte_bits (pte_page 0xb000 intel_RW) else 0)"
    using assms by (auto simp: sample_memory_def word_unat_eq_iff slot)
qed

lemma sample_confined: "confined sample_memory (request_leaf sample_range) 3 0x10000"
proof -
  have linked: "(0x20000 :: u64) AND pa_mask = 0x20000" "(0x30000 :: u64) AND pa_mask = 0x30000"
    by (simp_all add: pa_mask_def mask_numeral)
  have leaves: "request_leaf sample_range (Suc 0) (pte_bits (pte_page h intel_RW))" if "h \<in> {0x9000, 0xa000, 0xb000}" for h
    using that sample_leaves by (auto simp: request_leaf_def)
  have "confined sample_memory (request_leaf sample_range) (Suc (Suc (Suc 0))) 0x10000"
    by (simp add: list_all_iff sample_slots linked leaves bit_pte_table bit_pte_page Let_def)
  then show ?thesis by (simp add: numeral_3_eq_3)
qed

theorem device_confined_witness:
  "\<forall>va. case intel_walk intel_trunc Second 3
        (ce_second_stage_ptr (ce_with_second_stage_ptr 0x10000 (ce_with_address_width Agaw39 ce_new))) va sample_memory of
      Inl _ \<Rightarrow> False
    | Inr (Inl _) \<Rightarrow> True
    | Inr (Inr r) \<Rightarrow> 0x9000 \<le> unat (intel_physical r) \<and> unat (intel_physical r) < 0xc000"
proof
  fix va
  let ?c = "ce_with_second_stage_ptr 0x10000 (ce_with_address_width Agaw39 ce_new)"
  have c: "ce_address_width ?c = Agaw39" "ce_second_stage_ptr ?c = 0x10000"
    by (simp_all add: ce_with_address_width_def ce_address_width_def ce_new_def extract_bits_at get_field_def
        addr_width_from_bits_def ce_with_second_stage_ptr_def ce_second_stage_ptr_def)
  have "unat (map_page_count sample_range) = 3" by (simp add: unat_page_count sample_range_def)
  then show "case intel_walk intel_trunc Second 3 (ce_second_stage_ptr ?c) va sample_memory of
      Inl _ \<Rightarrow> False
    | Inr (Inl _) \<Rightarrow> True
    | Inr (Inr r) \<Rightarrow> 0x9000 \<le> unat (intel_physical r) \<and> unat (intel_physical r) < 0xc000"
    using device_confined [of ?c sample_memory sample_range va intel_trunc] sample_confined
    by (auto simp: c map_fits_def sample_range_def split: sum.splits)
qed

end
