(* ===== verification/Intel_Dmar.thy ===== *)
theory Intel_Dmar
  imports Acpi
begin

text \<open>
  \<^verbatim>\<open>intel-iommu/src/dmar.rs\<close>: the ACPI DMAR table, its remapping structures and their device
  scopes.  A borrowed view is the byte string it borrows; an iterator is the rest of its slice.
\<close>

section \<open>The table\<close>

datatype dmar_error =
    DmarTooShort nat
  | DmarBadSignature bytes
  | DmarBadLength nat nat
  | DmarBadChecksum

definition STRUCTS_OFFSET :: nat where
  "STRUCTS_OFFSET = 48"

record dmar_table =
  dmar_raw :: bytes

text \<open>\<open>b"DMAR"\<close>\<close>

definition DMAR_SIG :: bytes where
  "DMAR_SIG = [0x44, 0x4d, 0x41, 0x52]"

definition dmar_new :: "bytes \<Rightarrow> dmar_error + dmar_table" where
  "dmar_new raw =
     (if length raw < STRUCTS_OFFSET then Inl (DmarTooShort (length raw))
      else if take 4 raw \<noteq> DMAR_SIG then Inl (DmarBadSignature (take 4 raw))
      else
        let total = unat (from_le_bytes (take (8 - 4) (drop 4 raw)) :: u32) in
        if total < STRUCTS_OFFSET \<or> total > length raw then Inl (DmarBadLength total (length raw))
        else if foldl (\<lambda>a b. a + b) 0 (take total raw) \<noteq> 0 then Inl DmarBadChecksum
        else Inr \<lparr>dmar_raw = take total raw\<rparr>)"

definition dmar_signature :: "dmar_table \<Rightarrow> bytes run" where
  "dmar_signature t = slice_chk (dmar_raw t) 0 4"

definition dmar_revision :: "dmar_table \<Rightarrow> u8 run" where
  "dmar_revision t = index_chk (dmar_raw t) 8"

definition dmar_oem_id :: "dmar_table \<Rightarrow> bytes run" where
  "dmar_oem_id t = slice_chk (dmar_raw t) 10 16"

definition host_address_width :: "dmar_table \<Rightarrow> u8 run" where
  "host_address_width t = run_bind (index_chk (dmar_raw t) 36) (\<lambda>v. add_chk v 1)"

definition dmar_flags_raw :: "dmar_table \<Rightarrow> u8 run" where
  "dmar_flags_raw t = index_chk (dmar_raw t) 37"

definition intr_remap_required :: "dmar_table \<Rightarrow> bool run" where
  "intr_remap_required t = run_bind (dmar_flags_raw t) (\<lambda>f. Inr (f AND 1 \<noteq> 0))"

definition x2apic_opt_out :: "dmar_table \<Rightarrow> bool run" where
  "x2apic_opt_out t = run_bind (dmar_flags_raw t) (\<lambda>f. Inr (f AND 2 \<noteq> 0))"

section \<open>Remapping structures\<close>

datatype drhd = Drhd (drhd_raw: bytes)
datatype rmrr = Rmrr (rmrr_raw: bytes)
datatype atsr = Atsr (atsr_raw: bytes)
datatype rhsa = Rhsa (rhsa_raw: bytes)
datatype andd = Andd (andd_raw: bytes)
datatype satc = Satc (satc_raw: bytes)
datatype sidp = Sidp (sidp_raw: bytes)

datatype remap_struct =
    RDrhd drhd
  | RRmrr rmrr
  | RAtsr atsr
  | RRhsa rhsa
  | RAndd andd
  | RSatc satc
  | RSidp sidp
  | RUnknown u8 bytes

definition peek_len :: "bytes \<Rightarrow> nat option" where
  "peek_len bs = (if length bs < 4 then None else Some (unat (from_le_bytes [bs ! 2, bs ! 3] :: u16)))"

definition struct_next :: "bytes \<Rightarrow> (remap_struct \<times> bytes) option" where
  "struct_next bs =
     (case (byte_get bs 0, peek_len bs) of
        (Some ty, Some len) \<Rightarrow>
          if len < 4 \<or> len > length bs then None
          else
            let raw = take len bs; rest = drop len bs in
            Some (if ty = 0 then RDrhd (Drhd raw)
                  else if ty = 1 then RRmrr (Rmrr raw)
                  else if ty = 2 then RAtsr (Atsr raw)
                  else if ty = 3 then RRhsa (Rhsa raw)
                  else if ty = 4 then RAndd (Andd raw)
                  else if ty = 5 then RSatc (Satc raw)
                  else if ty = 6 then RSidp (Sidp raw)
                  else RUnknown ty raw, rest)
      | _ \<Rightarrow> None)"

definition dmar_structs :: "dmar_table \<Rightarrow> remap_struct list run" where
  "dmar_structs t =
     run_bind (slice_chk (dmar_raw t) STRUCTS_OFFSET (length (dmar_raw t))) (\<lambda>bs.
       Inr (collect struct_next bs))"

definition drhd_units :: "dmar_table \<Rightarrow> drhd list run" where
  "drhd_units t =
     run_bind (dmar_structs t) (\<lambda>ss. Inr (List.map_filter (\<lambda>s. case s of RDrhd d \<Rightarrow> Some d | _ \<Rightarrow> None) ss))"

section \<open>Device scopes\<close>

datatype scope_type =
    PciEndpoint
  | PciSubhierarchy
  | ScopeIoapic
  | MsiCapableHpet
  | AcpiNamespaceDevice
  | ScopeReserved u8

definition scope_type_from :: "u8 \<Rightarrow> scope_type" where
  "scope_type_from v =
     (if v = 0x01 then PciEndpoint
      else if v = 0x02 then PciSubhierarchy
      else if v = 0x03 then ScopeIoapic
      else if v = 0x04 then MsiCapableHpet
      else if v = 0x05 then AcpiNamespaceDevice
      else ScopeReserved v)"

text \<open>The derived order: by variant, then by payload.\<close>

fun scope_type_rank :: "scope_type \<Rightarrow> nat" where
  "scope_type_rank PciEndpoint = 0"
| "scope_type_rank PciSubhierarchy = 1"
| "scope_type_rank ScopeIoapic = 2"
| "scope_type_rank MsiCapableHpet = 3"
| "scope_type_rank AcpiNamespaceDevice = 4"
| "scope_type_rank (ScopeReserved v) = 5 + unat v"

lemma scope_type_rank_inj: "scope_type_rank a = scope_type_rank b \<Longrightarrow> a = b"
  by (cases a; cases b) (simp_all add: word_unat_eq_iff)

instantiation scope_type :: linorder
begin

definition less_eq_scope_type :: "scope_type \<Rightarrow> scope_type \<Rightarrow> bool" where
  "a \<le> b \<longleftrightarrow> scope_type_rank a \<le> scope_type_rank b"

definition less_scope_type :: "scope_type \<Rightarrow> scope_type \<Rightarrow> bool" where
  "a < b \<longleftrightarrow> scope_type_rank a < scope_type_rank b"

instance
  by standard (auto simp: less_eq_scope_type_def less_scope_type_def intro: scope_type_rank_inj)

end

record device_scope =
  scope_ty :: scope_type
  scope_bus :: u8
  enumeration_id :: u8
  scope_flags :: u16
  scope_path :: bytes

text \<open>\<^verbatim>\<open>chunks_exact(2)\<close>: a trailing odd byte is dropped.\<close>

fun path_pairs_of :: "bytes \<Rightarrow> (u8 \<times> u8) list" where
  "path_pairs_of (d # f # rest) = (d, f) # path_pairs_of rest"
| "path_pairs_of _ = []"

definition first_source_id :: "device_scope \<Rightarrow> u16 option" where
  "first_source_id s =
     (case path_pairs_of (scope_path s) of
        [] \<Rightarrow> None
      | (d, f) # _ \<Rightarrow>
          Some (push_bit 8 (ucast (scope_bus s)) OR push_bit 3 (ucast d) OR ucast (f AND 0x07)))"

definition path_pairs :: "device_scope \<Rightarrow> (u8 \<times> u8) list" where
  "path_pairs s = path_pairs_of (scope_path s)"

definition scope_next :: "bytes \<Rightarrow> (device_scope \<times> bytes) option" where
  "scope_next bs =
     (if length bs < 6 then None
      else
        let ty = bs ! 0; len = unat (bs ! 1) in
        if len < 6 \<or> len > length bs then None
        else
          let raw = take len bs; rest = drop len bs in
          Some (\<lparr>scope_ty = scope_type_from ty, scope_bus = raw ! 5, enumeration_id = raw ! 4,
                 scope_flags = from_le_bytes [raw ! 2, raw ! 3], scope_path = drop 6 raw\<rparr>, rest))"

text \<open>The \<^verbatim>\<open>scopes\<close> method of the \<^verbatim>\<open>scope_struct!\<close> macro, for a fixed part of the given size.\<close>

definition scopes_after :: "nat \<Rightarrow> bytes \<Rightarrow> device_scope list" where
  "scopes_after fixed raw = collect scope_next (unwrap_or (slice_from raw fixed) [])"

section \<open>Fields of the structures\<close>

definition le16 :: "bytes \<Rightarrow> nat \<Rightarrow> u16" where
  "le16 raw off = (case slice_get raw off (off + 2) of Some b \<Rightarrow> from_le_bytes [b ! 0, b ! 1] | None \<Rightarrow> 0)"

definition le32 :: "bytes \<Rightarrow> nat \<Rightarrow> u32" where
  "le32 raw off = (case slice_get raw off (off + 4) of Some b \<Rightarrow> from_le_bytes b | None \<Rightarrow> 0)"

definition le64 :: "bytes \<Rightarrow> nat \<Rightarrow> u64" where
  "le64 raw off = (case slice_get raw off (off + 8) of Some b \<Rightarrow> from_le_bytes b | None \<Rightarrow> 0)"

definition drhd_scopes :: "drhd \<Rightarrow> device_scope list" where
  "drhd_scopes d = scopes_after 16 (drhd_raw d)"

definition include_pci_all :: "drhd \<Rightarrow> bool" where
  "include_pci_all d \<longleftrightarrow> unwrap_or (byte_get (drhd_raw d) 4) 0 AND 1 \<noteq> 0"

definition register_size_order :: "drhd \<Rightarrow> u8" where
  "register_size_order d = unwrap_or (byte_get (drhd_raw d) 5) 0 AND 0x0f"

definition drhd_segment :: "drhd \<Rightarrow> u16" where
  "drhd_segment d = le16 (drhd_raw d) 6"

definition register_base :: "drhd \<Rightarrow> u64" where
  "register_base d = le64 (drhd_raw d) 8"

definition register_size :: "drhd \<Rightarrow> u64 run" where
  "register_size d = shl_chk 1 (unat (12 + ucast (register_size_order d) :: u32))"

definition rmrr_scopes :: "rmrr \<Rightarrow> device_scope list" where
  "rmrr_scopes r = scopes_after 24 (rmrr_raw r)"

definition rmrr_segment :: "rmrr \<Rightarrow> u16" where
  "rmrr_segment r = le16 (rmrr_raw r) 6"

definition rmrr_base :: "rmrr \<Rightarrow> u64" where
  "rmrr_base r = le64 (rmrr_raw r) 8"

definition rmrr_limit :: "rmrr \<Rightarrow> u64" where
  "rmrr_limit r = le64 (rmrr_raw r) 16"

definition atsr_scopes :: "atsr \<Rightarrow> device_scope list" where
  "atsr_scopes a = scopes_after 8 (atsr_raw a)"

definition all_ports :: "atsr \<Rightarrow> bool" where
  "all_ports a \<longleftrightarrow> unwrap_or (byte_get (atsr_raw a) 4) 0 AND 1 \<noteq> 0"

definition atsr_segment :: "atsr \<Rightarrow> u16" where
  "atsr_segment a = le16 (atsr_raw a) 6"

definition satc_scopes :: "satc \<Rightarrow> device_scope list" where
  "satc_scopes a = scopes_after 8 (satc_raw a)"

definition atc_required :: "satc \<Rightarrow> bool" where
  "atc_required a \<longleftrightarrow> unwrap_or (byte_get (satc_raw a) 4) 0 AND 1 \<noteq> 0"

definition satc_segment :: "satc \<Rightarrow> u16" where
  "satc_segment a = le16 (satc_raw a) 6"

definition sidp_scopes :: "sidp \<Rightarrow> device_scope list" where
  "sidp_scopes a = scopes_after 8 (sidp_raw a)"

definition sidp_segment :: "sidp \<Rightarrow> u16" where
  "sidp_segment a = le16 (sidp_raw a) 6"

definition rhsa_segment :: "rhsa \<Rightarrow> u32" where
  "rhsa_segment r = le32 (rhsa_raw r) 8"

definition rhsa_base :: "rhsa \<Rightarrow> u64" where
  "rhsa_base r = le64 (rhsa_raw r) 12"

definition proximity_domain :: "rhsa \<Rightarrow> u32" where
  "proximity_domain r = le32 (rhsa_raw r) 20"

definition acpi_device_number :: "andd \<Rightarrow> u8" where
  "acpi_device_number a = unwrap_or (byte_get (andd_raw a) 7) 0"

definition andd_segment :: "andd \<Rightarrow> u16" where
  "andd_segment a = le16 (andd_raw a) 8"

definition object_name :: "andd \<Rightarrow> bytes" where
  "object_name a = (let body = unwrap_or (slice_from (andd_raw a) 10) [] in takeWhile (\<lambda>b. b \<noteq> 0) body)"

section \<open>The contracts\<close>

interpretation dmar: acpi_table dmar_new DMAR_SIG STRUCTS_OFFSET DmarTooShort DmarBadSignature
  DmarBadLength DmarBadChecksum "\<lambda>bs. \<lparr>dmar_raw = bs\<rparr>"
  by unfold_locales
    (simp_all add: dmar_new_def claimed_length_def byte_sum_def DMAR_SIG_def STRUCTS_OFFSET_def Let_def)

definition struct_size :: "bytes \<Rightarrow> nat" where
  "struct_size bs = unat (from_le_bytes [bs ! 2, bs ! 3] :: u16)"

definition struct_parse :: "bytes \<Rightarrow> remap_struct" where
  "struct_parse raw =
     (if raw ! 0 = 0 then RDrhd (Drhd raw) else if raw ! 0 = 1 then RRmrr (Rmrr raw)
      else if raw ! 0 = 2 then RAtsr (Atsr raw) else if raw ! 0 = 3 then RRhsa (Rhsa raw)
      else if raw ! 0 = 4 then RAndd (Andd raw) else if raw ! 0 = 5 then RSatc (Satc raw)
      else if raw ! 0 = 6 then RSidp (Sidp raw) else RUnknown (raw ! 0) raw)"

interpretation structs: tlv_stream struct_next struct_size 4 struct_parse
proof
  show "struct_next bs =
      (if length bs < 4 \<or> struct_size bs < 4 \<or> length bs < struct_size bs then None
       else Some (struct_parse (take (struct_size bs) bs), drop (struct_size bs) bs))" for bs
    by (simp add: struct_next_def byte_get_def peek_len_def struct_size_def struct_parse_def Let_def)
qed (simp_all add: struct_size_def nth_append)

definition scope_parse :: "bytes \<Rightarrow> device_scope" where
  "scope_parse raw =
     \<lparr>scope_ty = scope_type_from (raw ! 0), scope_bus = raw ! 5, enumeration_id = raw ! 4,
      scope_flags = from_le_bytes [raw ! 2, raw ! 3], scope_path = drop 6 raw\<rparr>"

interpretation scopes: tlv_stream scope_next "\<lambda>bs. unat (bs ! 1)" 6 scope_parse
  by unfold_locales (simp_all add: scope_next_def scope_parse_def nth_append Let_def)

section \<open>Properties of the table\<close>

lemma dmar_accepted:
  assumes "dmar_new raw = Inr t"
  shows "48 \<le> length (dmar_raw t)" "take 4 (dmar_raw t) = DMAR_SIG"
    "dmar_raw t = take (claimed_length raw) raw" "claimed_length raw \<le> length raw"
    "48 \<le> claimed_length raw"
  using assms by (auto simp: dmar.accepts_iff STRUCTS_OFFSET_def min_def)

text \<open>The validator accepts exactly the buffers with a DMAR signature, a length field that covers
  the fixed header and fits the buffer, and a zero byte sum over that length; the errors are reported in
  this order, and the view keeps exactly the bytes the length covers.\<close>

lemma dmar_new_cases:
  "dmar_new raw =
    (if length raw < 48 then Inl (DmarTooShort (length raw))
     else if take 4 raw \<noteq> DMAR_SIG then Inl (DmarBadSignature (take 4 raw))
     else if \<not> (48 \<le> claimed_length raw \<and> claimed_length raw \<le> length raw)
       then Inl (DmarBadLength (claimed_length raw) (length raw))
     else if sum_list (take (claimed_length raw) raw) = 0
       then Inr \<lparr>dmar_raw = take (claimed_length raw) raw\<rparr>
     else Inl DmarBadChecksum)"
  using dmar.new_eq [of raw] by (simp add: STRUCTS_OFFSET_def byte_sum_eq_sum_list not_le)

text \<open>C22: Changing any one byte of an accepted table after the length field, the checksum byte
  included, makes the validator report a checksum error.\<close>

theorem dmar_flip_detected:
  assumes "dmar_new raw = Inr t" "8 \<le> i" "i < length (dmar_raw t)" "b \<noteq> raw ! i"
  shows "dmar_new (raw[i := b]) = Inl DmarBadChecksum"
  using dmar.flips_detected [OF assms(1,2) _ assms(4)] assms(3) dmar_accepted [OF assms(1)] by simp

text \<open>C33: On a validated table no accessor of the header indexes out of range; the only panic is the
  addition in \<open>host_address_width\<close>, exactly when the width byte is 255.\<close>

theorem dmar_accessors_panic:
  assumes "dmar_new raw = Inr t"
  shows "dmar_signature t = Inr DMAR_SIG \<and> dmar_revision t = Inr (raw ! 8) \<and>
    dmar_oem_id t = Inr (take 6 (drop 10 raw)) \<and> dmar_flags_raw t = Inr (raw ! 37) \<and>
    (\<exists>ss. dmar_structs t = Inr ss) \<and>
    host_address_width t = (if raw ! 36 = 255 then Inl AddOverflow else Inr (raw ! 36 + 1))"
proof -
  note a = dmar_accepted [OF assms]
  have "unat (raw ! 36) + 1 < 256 \<longleftrightarrow> raw ! 36 \<noteq> 255"
    using unat_bound [of "raw ! 36"] by (auto simp: word_unat_eq_iff)
  then show ?thesis
    using a(1,2,4,5)
    by (simp add: dmar_signature_def dmar_revision_def dmar_oem_id_def dmar_flags_raw_def
        dmar_structs_def host_address_width_def STRUCTS_OFFSET_def add_chk_def a(3) drop_take)
qed

text \<open>C10: Iterating the structures of a validated table cuts its body into consecutive records whose
  length field is their length, each surfaced under its type code (unknown types included), and stops
  only at the end or at a record that is too short or overruns the table.\<close>

theorem dmar_structs_partition:
  assumes "dmar_new raw = Inr t"
  shows "\<exists>raws tail. drop 48 (dmar_raw t) = concat raws @ tail \<and>
    dmar_structs t = Inr (map struct_parse raws) \<and>
    (\<forall>r \<in> set raws. 4 \<le> length r \<and> struct_size r = length r) \<and>
    (length tail < 4 \<or> struct_size tail < 4 \<or> length tail < struct_size tail)"
  using dmar_accepted(1) [OF assms] structs.collect_prefix [of "drop 48 (dmar_raw t)"]
  by (simp add: dmar_structs_def STRUCTS_OFFSET_def)

section \<open>Images of tables, structures and scopes\<close>

text \<open>What firmware writes: the header fields, then the structures.\<close>

definition dmar_image :: "u8 \<Rightarrow> bytes \<Rightarrow> u8 \<Rightarrow> u8 \<Rightarrow> bytes list \<Rightarrow> bytes" where
  "dmar_image revision oem haw flags raws =
     acpi_image DMAR_SIG revision (oem @ [haw, flags] @ replicate 10 0 @ concat raws)"

record scope_spec =
  sp_type :: u8
  sp_flags :: u16
  sp_enum :: u8
  sp_bus :: u8
  sp_path :: "(u8 \<times> u8) list"

definition scope_image :: "scope_spec \<Rightarrow> bytes" where
  "scope_image s = [sp_type s, of_nat (6 + 2 * length (sp_path s))] @ to_le_bytes (sp_flags s) @
     [sp_enum s, sp_bus s] @ concat (map (\<lambda>(d, f). [d, f]) (sp_path s))"

record drhd_spec =
  sp_all :: bool
  sp_order :: u8
  sp_segment :: u16
  sp_base :: u64
  sp_scopes :: "scope_spec list"

definition drhd_image :: "drhd_spec \<Rightarrow> bytes" where
  "drhd_image d = (let body = concat (map scope_image (sp_scopes d)) in
     [0, 0] @ to_le_bytes (of_nat (16 + length body) :: u16) @ [of_bool (sp_all d), sp_order d] @
     to_le_bytes (sp_segment d) @ to_le_bytes (sp_base d) @ body)"

lemma length_path_bytes: "length (concat (map (\<lambda>(d, f). [d, f]) ps)) = 2 * length ps"
  by (induction ps) auto

lemma path_pairs_bytes: "path_pairs_of (concat (map (\<lambda>(d, f). [d, f]) ps)) = ps"
  by (induction ps) auto

lemma scope_image_record:
  assumes "6 + 2 * length (sp_path s) < 256"
  shows "6 \<le> length (scope_image s)" "unat (scope_image s ! 1) = length (scope_image s)"
    "scope_parse (scope_image s) = \<lparr>scope_ty = scope_type_from (sp_type s), scope_bus = sp_bus s,
      enumeration_id = sp_enum s, scope_flags = sp_flags s,
      scope_path = concat (map (\<lambda>(d, f). [d, f]) (sp_path s))\<rparr>"
  using assms
  by (simp_all add: scope_image_def length_path_bytes scope_parse_def nth_append unat_of_nat_in
      to_le_bytes16 pair_le16 [unfolded to_le_bytes16, simplified] del: of_nat_add of_nat_Suc)


lemma dmar_image_accepted:
  assumes oem: "length oem = 26" and size: "48 + length (concat raws) < 2 ^ 32"
    and raws: "\<And>r. r \<in> set raws \<Longrightarrow> 4 \<le> length r \<and> struct_size r = length r"
    and t: "t = \<lparr>dmar_raw = dmar_image revision oem haw flags raws\<rparr>"
  shows "dmar_new (dmar_image revision oem haw flags raws @ tail) = Inr t"
    "dmar_structs t = Inr (map struct_parse raws)" "dmar_flags_raw t = Inr flags"
    "host_address_width t = (if haw = 255 then Inl AddOverflow else Inr (haw + 1))"
proof -
  let ?body = "oem @ [haw, flags] @ replicate 10 0 @ concat raws"
  let ?img = "acpi_image DMAR_SIG revision ?body"
  note t = t [unfolded dmar_image_def]
  have len: "length ?img = 48 + length (concat raws)"
    using oem by (subst length_acpi_image) (simp_all add: DMAR_SIG_def)
  have body: "drop 10 ?img = ?body" by (rule acpi_image_parts) (simp add: DMAR_SIG_def)
  have "drop 48 ?img = drop 38 (drop 10 ?img)" by (simp only: drop_drop) simp
  then have structs: "drop 48 ?img = concat raws" unfolding body using oem by simp
  have "collect struct_next (concat raws) = map struct_parse raws"
    by (rule structs.collect_records) (use raws in auto)
  then show "dmar_structs t = Inr (map struct_parse raws)"
    using len structs by (simp add: t dmar_structs_def STRUCTS_OFFSET_def)
  have at: "?img ! 36 = drop 10 ?img ! 26" "?img ! 37 = drop 10 ?img ! 27" using len by simp_all
  then show "dmar_flags_raw t = Inr flags"
    using len oem unfolding body by (simp add: t dmar_flags_raw_def nth_append)
  have "add_chk haw 1 = (if haw = 255 then Inl AddOverflow else Inr (haw + 1))"
    using unat_bound [of haw] by (auto simp: add_chk_def word_unat_eq_iff)
  then show "host_address_width t = (if haw = 255 then Inl AddOverflow else Inr (haw + 1))"
    using at len oem unfolding body by (simp add: t host_address_width_def nth_append)
  show "dmar_new (dmar_image revision oem haw flags raws @ tail) = Inr t"
    unfolding t dmar_image_def by (rule dmar.accepts_image) (use oem size in \<open>simp_all add: STRUCTS_OFFSET_def\<close>)
qed

text \<open>A table built from any list of structures, each carrying its own length, is accepted, and
  iterating it gives back exactly those structures in order, with the host address width and the flags
  of the header, whatever bytes follow the table in memory.\<close>

lemma dmar_image_roundtrip:
  assumes oem: "length oem = 26" and size: "48 + length (concat raws) < 2 ^ 32"
    and raws: "\<And>r. r \<in> set raws \<Longrightarrow> 4 \<le> length r \<and> struct_size r = length r"
  shows "\<exists>t. dmar_new (dmar_image revision oem haw flags raws @ tail) = Inr t \<and>
    dmar_structs t = Inr (map struct_parse raws) \<and> dmar_flags_raw t = Inr flags \<and>
    host_address_width t = (if haw = 255 then Inl AddOverflow else Inr (haw + 1))"
  using dmar_image_accepted [OF oem size _ refl] raws
  by (intro exI [of _ "\<lparr>dmar_raw = dmar_image revision oem haw flags raws\<rparr>"]) (auto simp del: One_nat_def)

lemma drhd_image_record:
  assumes "length (drhd_image d) < 2 ^ 16"
  shows "4 \<le> length (drhd_image d)" "struct_size (drhd_image d) = length (drhd_image d)"
    "struct_parse (drhd_image d) = RDrhd (Drhd (drhd_image d))"
  using assms
  by (simp_all add: drhd_image_def Let_def struct_size_def struct_parse_def nth_append
      pair_le16 [simplified] unat_of_nat_in del: of_nat_add)

lemma drhd_image_reads:
  assumes "\<And>s. s \<in> set (sp_scopes d) \<Longrightarrow> 6 + 2 * length (sp_path s) < 256"
  shows "include_pci_all (Drhd (drhd_image d)) = sp_all d \<and>
    register_size_order (Drhd (drhd_image d)) = take_bit 4 (sp_order d) \<and>
    drhd_segment (Drhd (drhd_image d)) = sp_segment d \<and>
    register_base (Drhd (drhd_image d)) = sp_base d \<and>
    register_size (Drhd (drhd_image d)) = Inr (2 ^ (12 + unat (take_bit 4 (sp_order d)))) \<and>
    map (\<lambda>s. (scope_ty s, scope_flags s, enumeration_id s, scope_bus s, path_pairs s))
        (drhd_scopes (Drhd (drhd_image d)))
      = map (\<lambda>s. (scope_type_from (sp_type s), sp_flags s, sp_enum s, sp_bus s, sp_path s)) (sp_scopes d)"
proof -
  have order: "register_size_order (Drhd (drhd_image d)) = take_bit 4 (sp_order d)"
    by (simp add: register_size_order_def drhd_image_def byte_get_def nth_append Let_def take_bit_eq_mask
        mask_numeral)
  have "unat (12 + ucast (take_bit 4 (sp_order d)) :: u32) = 12 + unat (take_bit 4 (sp_order d))"
  proof -
    have "unat (take_bit 4 (sp_order d)) < 16"
      using take_bit_nat_less_exp [of 4 "unat (sp_order d)"] by (simp add: unsigned_take_bit_eq)
    then show ?thesis
      by (subst unat_add_lem [THEN iffD1]) (simp_all add: unat_ucast_up)
  qed
  moreover have "unat (take_bit 4 (sp_order d)) < 16"
    using take_bit_nat_less_exp [of 4 "unat (sp_order d)"] by (simp add: unsigned_take_bit_eq)
  moreover have "collect scope_next (concat (map scope_image (sp_scopes d)))
      = map scope_parse (map scope_image (sp_scopes d))"
    by (rule scopes.collect_records) (use assms scope_image_record in auto)
  then have "map (\<lambda>s. (scope_ty s, scope_flags s, enumeration_id s, scope_bus s, path_pairs s))
        (drhd_scopes (Drhd (drhd_image d)))
      = map (\<lambda>s. (scope_type_from (sp_type s), sp_flags s, sp_enum s, sp_bus s, sp_path s)) (sp_scopes d)"
    using assms by (simp add: drhd_scopes_def scopes_after_def drhd_image_def slice_from_def Let_def
        scope_image_record path_pairs_def path_pairs_bytes)
  ultimately show ?thesis
    by (simp add: order register_size_def shl_chk_def push_bit_eq_mult)
      (simp add: include_pci_all_def drhd_segment_def register_base_def
        drhd_image_def byte_get_def nth_append Let_def le16_def le64_def slice_get_def pair_le16 [simplified])
qed

text \<open>A DRHD structure reads back what it was built from: the flag, the low four bits of the size
  order, the segment, the register base and the device scopes with their types, ids, buses, flags and
  paths, in order.\<close>

lemma drhd_image_roundtrip:
  assumes "\<And>s. s \<in> set (sp_scopes d) \<Longrightarrow> 6 + 2 * length (sp_path s) < 256"
  shows "include_pci_all (Drhd (drhd_image d)) = sp_all d \<and>
    register_size_order (Drhd (drhd_image d)) = take_bit 4 (sp_order d) \<and>
    drhd_segment (Drhd (drhd_image d)) = sp_segment d \<and>
    register_base (Drhd (drhd_image d)) = sp_base d \<and>
    register_size (Drhd (drhd_image d)) = Inr (2 ^ (12 + unat (take_bit 4 (sp_order d)))) \<and>
    map (\<lambda>s. (scope_ty s, scope_flags s, enumeration_id s, scope_bus s, path_pairs s))
        (drhd_scopes (Drhd (drhd_image d)))
      = map (\<lambda>s. (scope_type_from (sp_type s), sp_flags s, sp_enum s, sp_bus s, sp_path s)) (sp_scopes d)"
  using assms by (rule drhd_image_reads)

text \<open>The DRHD units among the parts of a table.\<close>

lemma drhd_parts:
  assumes "\<And>d. Inl d \<in> set parts \<Longrightarrow> length (drhd_image d) < 2 ^ 16" "\<And>r. Inr r \<in> set parts \<Longrightarrow> r ! 0 \<noteq> 0"
  shows "List.map_filter (\<lambda>s. case s of RDrhd d \<Rightarrow> Some d | _ \<Rightarrow> None)
      (map struct_parse (map (case_sum drhd_image id) parts))
    = map (\<lambda>d. Drhd (drhd_image d)) (List.map_filter (case_sum Some (\<lambda>_. None)) parts)"
proof -
  have other: "(case struct_parse r of RDrhd d \<Rightarrow> Some d | _ \<Rightarrow> None) = None" if "r ! 0 \<noteq> 0" for r
    using that by (simp add: struct_parse_def)
  show ?thesis
    using assms by (induction parts) (auto simp: drhd_image_record(3) other split: sum.splits)
qed

text \<open>C20: Discovery: from a table that mixes DRHD units, each built from its fields and scopes, with any
  other structures, a driver gets exactly the DRHD units, in table order, each with its flag, segment,
  register base and scopes, whatever follows the table in memory.\<close>

theorem drhd_discovery:
  assumes oem: "length oem = 26"
    and size: "48 + length (concat (map (case_sum drhd_image id) parts)) < 2 ^ 32"
    and units: "\<And>d. Inl d \<in> set parts \<Longrightarrow> length (drhd_image d) < 2 ^ 16"
    and scopes: "\<And>d s. Inl d \<in> set parts \<Longrightarrow> s \<in> set (sp_scopes d) \<Longrightarrow> 6 + 2 * length (sp_path s) < 256"
    and others: "\<And>r. Inr r \<in> set parts \<Longrightarrow> 4 \<le> length r \<and> struct_size r = length r \<and> r ! 0 \<noteq> 0"
  shows "\<exists>t us. dmar_new (dmar_image revision oem haw flags (map (case_sum drhd_image id) parts) @ tail) = Inr t \<and>
    drhd_units t = Inr us \<and>
    map (\<lambda>u. (include_pci_all u, drhd_segment u, register_base u,
        map (\<lambda>s. (scope_ty s, scope_bus s, path_pairs s)) (drhd_scopes u))) us
    = map (\<lambda>d. (sp_all d, sp_segment d, sp_base d,
        map (\<lambda>s. (scope_type_from (sp_type s), sp_bus s, sp_path s)) (sp_scopes d)))
      (List.map_filter (case_sum Some (\<lambda>_. None)) parts)"
proof -
  let ?raws = "map (case_sum drhd_image id) parts"
  let ?t = "\<lparr>dmar_raw = dmar_image revision oem haw flags ?raws\<rparr>"
  let ?ds = "List.map_filter (case_sum Some (\<lambda>_. None)) parts"
  have raws: "4 \<le> length r \<and> struct_size r = length r" if "r \<in> set ?raws" for r
    using that units others drhd_image_record by (fastforce split: sum.splits)
  note built = dmar_image_accepted [OF oem size raws refl]
  have "List.map_filter (\<lambda>s. case s of RDrhd d \<Rightarrow> Some d | _ \<Rightarrow> None) (map struct_parse ?raws)
      = map (\<lambda>d. Drhd (drhd_image d)) ?ds"
    by (rule drhd_parts) (use units others in auto)
  then have units_eq: "drhd_units ?t = Inr (map (\<lambda>d. Drhd (drhd_image d)) ?ds)"
    by (simp only: drhd_units_def built(2) run_bind_simps)
  have from_parts: "d \<in> set ?ds \<Longrightarrow> Inl d \<in> set parts" for d
    by (induction parts) (auto split: sum.splits)
  have reads: "include_pci_all (Drhd (drhd_image d)) = sp_all d \<and> drhd_segment (Drhd (drhd_image d)) = sp_segment d \<and>
      register_base (Drhd (drhd_image d)) = sp_base d \<and>
      map (\<lambda>s. (scope_ty s, scope_flags s, enumeration_id s, scope_bus s, path_pairs s)) (drhd_scopes (Drhd (drhd_image d)))
      = map (\<lambda>s. (scope_type_from (sp_type s), sp_flags s, sp_enum s, sp_bus s, sp_path s)) (sp_scopes d)"
    if "d \<in> set ?ds" for d
    using drhd_image_reads [of d] scopes [OF from_parts [OF that]] by blast
  have scopes_eq: "map (\<lambda>s. (scope_ty s, scope_bus s, path_pairs s)) xs =
      map (\<lambda>s. (scope_type_from (sp_type s), sp_bus s, sp_path s)) ys"
    if "map (\<lambda>s. (scope_ty s, scope_flags s, enumeration_id s, scope_bus s, path_pairs s)) xs
      = map (\<lambda>s. (scope_type_from (sp_type s), sp_flags s, sp_enum s, sp_bus s, sp_path s)) ys" for xs ys
    using arg_cong [OF that, of "map (\<lambda>(a, b, c, d, e). (a, d, e))"] by (simp add: comp_def)
  show ?thesis
    by (intro exI [of _ ?t] exI [of _ "map (\<lambda>d. Drhd (drhd_image d)) ?ds"] conjI built(1) units_eq)
      (use reads scopes_eq in \<open>auto simp: comp_def\<close>)
qed

text \<open>The first source id of a scope is its bus, device and function only when the device number
  fits five bits; a larger device byte, which the parser accepts, is OR-ed into the bus byte.\<close>

lemma first_source_id_bits:
  assumes "scope_path s = d # f # rest"
  shows "\<exists>sid. first_source_id s = Some sid \<and> take_bit 3 sid = take_bit 3 (ucast f) \<and>
    get_field 3 5 sid = take_bit 5 (ucast d) \<and>
    drop_bit 8 sid = ucast (scope_bus s OR drop_bit 5 d)"
proof -
  define sid :: u16 where
    "sid = push_bit 8 (ucast (scope_bus s)) OR push_bit 3 (ucast d) OR ucast (f AND 0x07)"
  have "take_bit 3 sid = take_bit 3 (ucast f)" "get_field 3 5 sid = take_bit 5 (ucast d)"
    "drop_bit 8 sid = ucast (scope_bus s OR drop_bit 5 d)"
    unfolding sid_def mask_words
    by (rule bit_word_eqI; auto simp: bit_simps dest: bit_imp_le_length)+
  moreover have "first_source_id s = Some sid"
    by (simp add: first_source_id_def assms sid_def)
  ultimately show ?thesis by blast
qed


section \<open>The table of the module documentation\<close>

definition dmar_doc :: bytes where
  "dmar_doc = [0x44, 0x4d, 0x41, 0x52, 64, 0, 0, 0, 1, 0xbd, 0x4f, 0x45, 0x4d, 0x20, 0x20, 0x20,
     0x54, 0x42, 0x4c, 0x20, 0x20, 0x20, 0x20, 0x20, 0, 0, 0, 0, 0, 0, 0, 0, 0, 0, 0, 0,
     51, 0, 0, 0, 0, 0, 0, 0, 0, 0, 0, 0,
     0, 0, 16, 0, 0, 1, 0, 0, 0x00, 0x00, 0xd9, 0xfe, 0, 0, 0, 0]"

lemma dmar_doc_new: "dmar_new dmar_doc = Inr \<lparr>dmar_raw = dmar_doc\<rparr>"
  by (simp add: dmar_new_def dmar_doc_def STRUCTS_OFFSET_def DMAR_SIG_def from_le_bytes_def)

lemma dmar_doc_at: "dmar_doc ! 36 = 51" "dmar_doc ! 37 = 0" "dmar_doc ! 8 = 1" "dmar_doc ! 9 = 0xbd"
  by (simp_all add: dmar_doc_def)

theorem dmar_flip_detected_witness: "dmar_new (dmar_doc[9 := 0xbe]) = Inl DmarBadChecksum"
  by (rule dmar_flip_detected [OF dmar_doc_new]) (simp_all add: dmar_doc_def)

theorem dmar_accessors_panic_witness:
  "host_address_width \<lparr>dmar_raw = dmar_doc\<rparr> = Inr 52 \<and> dmar_flags_raw \<lparr>dmar_raw = dmar_doc\<rparr> = Inr 0"
  using dmar_accessors_panic [OF dmar_doc_new] by (simp add: dmar_doc_at)

theorem dmar_structs_partition_witness:
  "\<exists>raws tail. drop 48 dmar_doc = concat raws @ tail \<and>
    dmar_structs \<lparr>dmar_raw = dmar_doc\<rparr> = Inr (map struct_parse raws)"
  using dmar_structs_partition [OF dmar_doc_new] by auto

definition sample_drhd :: drhd_spec where
  "sample_drhd = \<lparr>sp_all = True, sp_order = 0x12, sp_segment = 3, sp_base = 0xfed90000,
     sp_scopes = [\<lparr>sp_type = 1, sp_flags = 0, sp_enum = 0, sp_bus = 7, sp_path = [(0x1f, 2)]\<rparr>,
                  \<lparr>sp_type = 3, sp_flags = 5, sp_enum = 8, sp_bus = 0xf0, sp_path = [(1, 0), (2, 1)]\<rparr>]\<rparr>"

lemma drhd_image_roundtrip_example:
  "register_size (Drhd (drhd_image sample_drhd)) = Inr 0x4000 \<and>
   map path_pairs (drhd_scopes (Drhd (drhd_image sample_drhd))) = [[(0x1f, 2)], [(1, 0), (2, 1)]]"
proof -
  have fits: "6 + 2 * length (sp_path s) < 256" if "s \<in> set (sp_scopes sample_drhd)" for s
    using that by (auto simp: sample_drhd_def)
  have *: "map (\<lambda>s. (scope_ty s, scope_flags s, enumeration_id s, scope_bus s, path_pairs s))
        (drhd_scopes (Drhd (drhd_image sample_drhd)))
      = map (\<lambda>s. (scope_type_from (sp_type s), sp_flags s, sp_enum s, sp_bus s, sp_path s))
          (sp_scopes sample_drhd)"
    and size: "register_size (Drhd (drhd_image sample_drhd))
      = Inr (2 ^ (12 + unat (take_bit 4 (sp_order sample_drhd))))"
    using drhd_image_roundtrip [OF fits] by blast+
  have "map path_pairs (drhd_scopes (Drhd (drhd_image sample_drhd)))
      = map (snd \<circ> snd \<circ> snd \<circ> snd) (map (\<lambda>s. (scope_ty s, scope_flags s, enumeration_id s, scope_bus s,
          path_pairs s)) (drhd_scopes (Drhd (drhd_image sample_drhd))))"
    by (simp add: comp_def)
  then show ?thesis
    unfolding * size by (simp add: sample_drhd_def)
qed

lemma dmar_image_roundtrip_example:
  "\<exists>t. dmar_new (dmar_image 1 (replicate 26 0) 51 3 [drhd_image sample_drhd, [9, 0, 5, 0, 7]]) = Inr t \<and>
    dmar_structs t = Inr [RDrhd (Drhd (drhd_image sample_drhd)), RUnknown 9 [9, 0, 5, 0, 7]] \<and>
    host_address_width t = Inr 52"
proof -
  have len: "length (drhd_image sample_drhd) = 34"
    by (simp add: drhd_image_def sample_drhd_def scope_image_def Let_def)
  then have "struct_size (drhd_image sample_drhd) = 34"
    "struct_parse (drhd_image sample_drhd) = RDrhd (Drhd (drhd_image sample_drhd))"
    using drhd_image_record [of sample_drhd] by simp_all
  moreover have "struct_size [9, 0, 5, 0, 7] = 5" "struct_parse [9, 0, 5, 0, 7] = RUnknown 9 [9, 0, 5, 0, 7]"
    by (simp_all add: struct_size_def struct_parse_def from_le_bytes_def)
  moreover from calculation len
  have "4 \<le> length r \<and> struct_size r = length r"
    if "r \<in> set [drhd_image sample_drhd, [9, 0, 5, 0, 7]]" for r
    using that by auto
  ultimately show ?thesis
    using dmar_image_roundtrip [of "replicate 26 0" "[drhd_image sample_drhd, [9, 0, 5, 0, 7]]" 1 51 3 "[]"] len
    by auto
qed

theorem drhd_discovery_witness:
  "\<exists>t us. dmar_new (dmar_image 1 (replicate 26 0) 51 0 [[9, 0, 5, 0, 7], drhd_image sample_drhd] @ [1, 2, 3]) = Inr t \<and>
    drhd_units t = Inr us \<and> map (\<lambda>u. (drhd_segment u, register_base u)) us = [(3, 0xfed90000)]"
proof -
  have len: "length (drhd_image sample_drhd) = 34"
    by (simp add: drhd_image_def sample_drhd_def scope_image_def Let_def)
  have scopes: "6 + 2 * length (sp_path s) < 256" if "s \<in> set (sp_scopes sample_drhd)" for s
    using that by (auto simp: sample_drhd_def)
  obtain t us where "dmar_new (dmar_image 1 (replicate 26 0) 51 0
      (map (case_sum drhd_image id) [Inr [9, 0, 5, 0, 7], Inl sample_drhd]) @ [1, 2, 3]) = Inr t"
    "drhd_units t = Inr us"
    and us: "map (\<lambda>u. (include_pci_all u, drhd_segment u, register_base u,
        map (\<lambda>s. (scope_ty s, scope_bus s, path_pairs s)) (drhd_scopes u))) us
      = map (\<lambda>d. (sp_all d, sp_segment d, sp_base d,
        map (\<lambda>s. (scope_type_from (sp_type s), sp_bus s, sp_path s)) (sp_scopes d))) [sample_drhd]"
    using drhd_discovery [of "replicate 26 0" "[Inr [9, 0, 5, 0, 7], Inl sample_drhd]" 1 51 0 "[1, 2, 3]"] scopes
    by (auto simp: len struct_size_def from_le_bytes_def)
  moreover have "map (\<lambda>u. (drhd_segment u, register_base u)) us = [(3, 0xfed90000)]"
    using arg_cong [OF us, of "map (\<lambda>(a, b, c, d). (b, c))"] by (simp add: comp_def) (simp add: sample_drhd_def)
  ultimately show ?thesis by auto
qed

end
