(* ===== verification/Amd_Ivrs.thy ===== *)
theory Amd_Ivrs
  imports Acpi
begin

text \<open>
  \<^verbatim>\<open>amd-iommu/src/ivrs.rs\<close>: the ACPI IVRS table, its IVHD and IVMD blocks and the device entries
  of an IVHD.  A borrowed view is the byte string it borrows; an iterator is the rest of its slice.
\<close>

section \<open>The table\<close>

datatype ivrs_error =
    IvrsTooShort nat
  | IvrsBadSignature bytes
  | IvrsBadLength nat nat
  | IvrsBadChecksum

definition BLOCKS_OFFSET :: nat where
  "BLOCKS_OFFSET = 44"

record ivrs_table =
  ivrs_raw :: bytes

text \<open>\<open>b"IVRS"\<close>\<close>

definition IVRS_SIG :: bytes where
  "IVRS_SIG = [0x49, 0x56, 0x52, 0x53]"

definition ivrs_new :: "bytes \<Rightarrow> ivrs_error + ivrs_table" where
  "ivrs_new raw =
     (if length raw < BLOCKS_OFFSET then Inl (IvrsTooShort (length raw))
      else if take 4 raw \<noteq> IVRS_SIG then Inl (IvrsBadSignature (take 4 raw))
      else
        let total = unat (from_le_bytes (take (8 - 4) (drop 4 raw)) :: u32) in
        if total < BLOCKS_OFFSET \<or> total > length raw then Inl (IvrsBadLength total (length raw))
        else if foldl (\<lambda>a b. a + b) 0 (take total raw) \<noteq> 0 then Inl IvrsBadChecksum
        else Inr \<lparr>ivrs_raw = take total raw\<rparr>)"

definition ivrs_revision :: "ivrs_table \<Rightarrow> u8 run" where
  "ivrs_revision t = index_chk (ivrs_raw t) 8"

definition ivrs_checksum :: "ivrs_table \<Rightarrow> u8 run" where
  "ivrs_checksum t = index_chk (ivrs_raw t) 9"

section \<open>Blocks\<close>

datatype entry_type =
    IvhdType10
  | IvhdType11
  | IvhdType40
  | IvmdType
  | EntryReserved u8

definition entry_type_from :: "u8 \<Rightarrow> entry_type" where
  "entry_type_from v =
     (if v = 0x10 then IvhdType10
      else if v = 0x11 then IvhdType11
      else if v = 0x20 then IvmdType
      else if v = 0x40 then IvhdType40
      else EntryReserved v)"

datatype ivhd = Ivhd (ivhd_raw: bytes)
datatype ivmd = Ivmd (ivmd_raw: bytes)

datatype ivrs_block =
    BIvhd ivhd
  | BIvmd ivmd
  | BUnknown u8 bytes

definition block_next :: "bytes \<Rightarrow> (ivrs_block \<times> bytes) option" where
  "block_next bs =
     (if length bs < 4 then None
      else
        let ty = bs ! 0; len = unat (from_le_bytes [bs ! 2, bs ! 3] :: u16) in
        if len < 4 \<or> len > length bs then None
        else
          let raw = take len bs; rest = drop len bs in
          Some (case entry_type_from ty of
                  IvhdType10 \<Rightarrow> BIvhd (Ivhd raw)
                | IvhdType11 \<Rightarrow> BIvhd (Ivhd raw)
                | IvhdType40 \<Rightarrow> BIvhd (Ivhd raw)
                | IvmdType \<Rightarrow> BIvmd (Ivmd raw)
                | EntryReserved _ \<Rightarrow> BUnknown ty raw, rest))"

definition ivrs_blocks :: "ivrs_table \<Rightarrow> ivrs_block list run" where
  "ivrs_blocks t =
     run_bind (slice_chk (ivrs_raw t) BLOCKS_OFFSET (length (ivrs_raw t))) (\<lambda>bs.
       Inr (collect block_next bs))"

definition ivhd_units :: "ivrs_table \<Rightarrow> ivhd list run" where
  "ivhd_units t =
     run_bind (ivrs_blocks t) (\<lambda>bs. Inr (List.map_filter (\<lambda>b. case b of BIvhd h \<Rightarrow> Some h | _ \<Rightarrow> None) bs))"

definition ivmd_units :: "ivrs_table \<Rightarrow> ivmd list run" where
  "ivmd_units t =
     run_bind (ivrs_blocks t) (\<lambda>bs. Inr (List.map_filter (\<lambda>b. case b of BIvmd m \<Rightarrow> Some m | _ \<Rightarrow> None) bs))"

section \<open>Device entries\<close>

datatype device_type =
    DevAll
  | DevSelect
  | DevAliasSelect
  | DevSpecial
  | DevAcpiHid
  | DevReserved u8

definition device_type_from :: "u8 \<Rightarrow> device_type" where
  "device_type_from v =
     (if v = 0x01 then DevAll
      else if v = 0x02 then DevSelect
      else if v = 0x03 then DevAliasSelect
      else if 0x40 \<le> v \<and> v \<le> 0x42 then DevSpecial
      else if v = 0x48 then DevAcpiHid
      else DevReserved v)"

text \<open>\<open>DeShort ty data data2\<close>, \<open>DeLong ty bus devfn source_id\<close>, \<open>DeVariable ty raw\<close>.\<close>

datatype device_entry =
    DeShort device_type u8 u8
  | DeLong device_type u8 u8 u16
  | DeVariable device_type bytes

definition device_next :: "bytes \<Rightarrow> (device_entry \<times> bytes) option" where
  "device_next bs =
     (case byte_get bs 0 of
        None \<Rightarrow> None
      | Some first \<Rightarrow>
          let ty = device_type_from first in
          if first = 0x40 \<or> first = 0x41 \<or> first = 0x42 \<or> first = 0x48 then
            (case byte_get bs 1 of
               None \<Rightarrow> None
             | Some l \<Rightarrow>
                 let len = unat l in
                 if len < 4 \<or> len > length bs then None
                 else Some (DeVariable ty (take len bs), drop len bs))
          else
            let needed = (if first = 0x01 \<or> first = 0x02 then 4
                          else if first = 0x03 \<or> 0x28 \<le> first \<and> first \<le> 0x2f then 8
                          else 4) in
            if length bs < needed then None
            else
              let raw = take needed bs; rest = drop needed bs in
              Some (if needed = 4 then DeShort ty (raw ! 2) (raw ! 3)
                    else DeLong ty (raw ! 2) (raw ! 3) (from_le_bytes [raw ! 6, raw ! 7]), rest))"

section \<open>Fields of a hardware definition block\<close>

definition ivhd_entry_type :: "ivhd \<Rightarrow> entry_type run" where
  "ivhd_entry_type h = run_bind (index_chk (ivhd_raw h) 0) (\<lambda>b. Inr (entry_type_from b))"

definition ivhd_flags :: "ivhd \<Rightarrow> u8 run" where
  "ivhd_flags h = index_chk (ivhd_raw h) 1"

definition iommu_id :: "ivhd \<Rightarrow> u8 run" where
  "iommu_id h = index_chk (ivhd_raw h) 4"

definition ivhd_segment :: "ivhd \<Rightarrow> u16 run" where
  "ivhd_segment h =
     run_bind (index_chk (ivhd_raw h) 5) (\<lambda>a.
     run_bind (index_chk (ivhd_raw h) 6) (\<lambda>b. Inr (from_le_bytes [a, b])))"

definition ivhd_base_address :: "ivhd \<Rightarrow> u64" where
  "ivhd_base_address h = (case slice_get (ivhd_raw h) 7 15 of Some b \<Rightarrow> from_le_bytes b | None \<Rightarrow> 0)"

definition device_range :: "ivhd \<Rightarrow> (u16 \<times> u16) option" where
  "device_range h =
     (let off = 15 in
      case byte_get (ivhd_raw h) off of
        None \<Rightarrow> None
      | Some lo \<Rightarrow>
          (case byte_get (ivhd_raw h) (off + 1) of
             None \<Rightarrow> None
           | Some hi \<Rightarrow> Some (ucast lo, ucast hi)))"

definition ivhd_capability :: "ivhd \<Rightarrow> u32 option" where
  "ivhd_capability h =
     (let off = 17 in map_option from_le_bytes (slice_get (ivhd_raw h) off (off + 4)))"

definition extended_features :: "ivhd \<Rightarrow> u32 option run" where
  "extended_features h =
     run_bind (ivhd_entry_type h) (\<lambda>ty.
       if ty = IvhdType11 \<or> ty = IvhdType40
       then Inr (map_option from_le_bytes (slice_get (ivhd_raw h) 21 (21 + 4)))
       else Inr None)"

definition ivhd_devices :: "ivhd \<Rightarrow> device_entry list run" where
  "ivhd_devices h =
     run_bind (ivhd_entry_type h) (\<lambda>ty.
       let hdr = (if ty = IvhdType10 then 24 else 28) in
       Inr (collect device_next (unwrap_or (slice_from (ivhd_raw h) hdr) [])))"

section \<open>Fields of a memory definition block\<close>

definition ivmd_flags :: "ivmd \<Rightarrow> u8 run" where
  "ivmd_flags m = index_chk (ivmd_raw m) 1"

definition ivmd_segment :: "ivmd \<Rightarrow> u16 run" where
  "ivmd_segment m =
     run_bind (index_chk (ivmd_raw m) 4) (\<lambda>a.
     run_bind (index_chk (ivmd_raw m) 5) (\<lambda>b. Inr (from_le_bytes [a, b])))"

definition ivmd_base :: "ivmd \<Rightarrow> u64" where
  "ivmd_base m = from_le_bytes (unwrap_or (slice_get (ivmd_raw m) 8 16) (replicate 8 0))"

definition ivmd_length :: "ivmd \<Rightarrow> u64" where
  "ivmd_length m = from_le_bytes (unwrap_or (slice_get (ivmd_raw m) 16 24) (replicate 8 0))"

section \<open>The contracts\<close>

interpretation ivrs: acpi_table ivrs_new IVRS_SIG BLOCKS_OFFSET IvrsTooShort IvrsBadSignature
  IvrsBadLength IvrsBadChecksum "\<lambda>bs. \<lparr>ivrs_raw = bs\<rparr>"
  by unfold_locales
    (simp_all add: ivrs_new_def claimed_length_def byte_sum_def IVRS_SIG_def BLOCKS_OFFSET_def Let_def)

definition block_size :: "bytes \<Rightarrow> nat" where
  "block_size bs = unat (from_le_bytes [bs ! 2, bs ! 3] :: u16)"

definition block_parse :: "bytes \<Rightarrow> ivrs_block" where
  "block_parse raw =
     (case entry_type_from (raw ! 0) of
        EntryReserved _ \<Rightarrow> BUnknown (raw ! 0) raw | IvmdType \<Rightarrow> BIvmd (Ivmd raw) | _ \<Rightarrow> BIvhd (Ivhd raw))"

interpretation blocks: tlv_stream block_next block_size 4 block_parse
proof
  show "block_next bs =
      (if length bs < 4 \<or> block_size bs < 4 \<or> length bs < block_size bs then None
       else Some (block_parse (take (block_size bs) bs), drop (block_size bs) bs))" for bs
    by (simp add: block_next_def block_size_def block_parse_def Let_def split: entry_type.split)
qed (simp_all add: block_size_def nth_append)

text \<open>The length of a device entry: its second byte for the variable formats, otherwise fixed by the
  type code.\<close>

definition is_variable :: "u8 \<Rightarrow> bool" where
  "is_variable c \<longleftrightarrow> c \<in> {0x40, 0x41, 0x42, 0x48}"

definition is_long :: "u8 \<Rightarrow> bool" where
  "is_long c \<longleftrightarrow> c = 0x03 \<or> 0x28 \<le> c \<and> c \<le> 0x2f"

definition device_size :: "bytes \<Rightarrow> nat" where
  "device_size bs = (if is_variable (bs ! 0) then unat (bs ! 1) else if is_long (bs ! 0) then 8 else 4)"

definition device_parse :: "bytes \<Rightarrow> device_entry" where
  "device_parse raw =
     (let ty = device_type_from (raw ! 0)
      in if is_variable (raw ! 0) then DeVariable ty raw
         else if is_long (raw ! 0) then DeLong ty (raw ! 2) (raw ! 3) (from_le_bytes [raw ! 6, raw ! 7])
         else DeShort ty (raw ! 2) (raw ! 3))"

lemma not_long: "is_long c \<Longrightarrow> c \<noteq> 1 \<and> c \<noteq> 2 \<and> \<not> is_variable c"
  by (auto simp: is_long_def is_variable_def word_le_nat_alt)

interpretation devices: tlv_stream device_next device_size 4 device_parse
proof
  show "device_next bs =
      (if length bs < 4 \<or> device_size bs < 4 \<or> length bs < device_size bs then None
       else Some (device_parse (take (device_size bs) bs), drop (device_size bs) bs))" for bs
  proof (cases "is_variable (bs ! 0)")
    case True
    then show ?thesis
      by (cases bs; cases "tl bs")
        (auto simp: device_next_def byte_get_def device_size_def device_parse_def is_variable_def Let_def)
  next
    case False
    then show ?thesis
      using not_long [of "bs ! 0"]
      by (cases bs) (auto simp: device_next_def byte_get_def device_size_def device_parse_def
          is_variable_def is_long_def Let_def)
  qed
qed (auto simp: device_size_def nth_append)

section \<open>Properties of the table\<close>

lemma ivrs_accepted:
  assumes "ivrs_new raw = Inr t"
  shows "44 \<le> length (ivrs_raw t)" "take 4 (ivrs_raw t) = IVRS_SIG"
  using assms by (auto simp: ivrs.accepts_iff BLOCKS_OFFSET_def min_def)

lemma ivrs_blocks_records:
  assumes "ivrs_new raw = Inr t"
  shows "\<exists>raws tail. drop 44 (ivrs_raw t) = concat raws @ tail \<and>
    ivrs_blocks t = Inr (map block_parse raws) \<and>
    (\<forall>r \<in> set raws. 4 \<le> length r \<and> block_size r = length r) \<and>
    (length tail < 4 \<or> block_size tail < 4 \<or> length tail < block_size tail)"
  using ivrs_accepted(1) [OF assms] blocks.collect_prefix [of "drop 44 (ivrs_raw t)"]
  by (simp add: ivrs_blocks_def BLOCKS_OFFSET_def)

text \<open>C12: Iterating the blocks of a validated table cuts its body into consecutive records whose
  length field is their length, IVHD types 10h, 11h and 40h, IVMD and unknown types alike, and stops
  only at the end or at a block that is too short or overruns the table.\<close>

theorem ivrs_blocks_partition:
  assumes "ivrs_new raw = Inr t"
  shows "\<exists>raws tail. drop 44 (ivrs_raw t) = concat raws @ tail \<and>
    ivrs_blocks t = Inr (map block_parse raws) \<and>
    (\<forall>r \<in> set raws. 4 \<le> length r \<and> block_size r = length r) \<and>
    (length tail < 4 \<or> block_size tail < 4 \<or> length tail < block_size tail)"
  using assms by (rule ivrs_blocks_records)

text \<open>What the iterator guarantees about the blocks it yields: the four-byte block header.\<close>

lemma ivhd_of_blocks:
  assumes "ivrs_new raw = Inr t" "ivrs_blocks t = Inr bs" "BIvhd h \<in> set bs"
  shows "4 \<le> length (ivhd_raw h)" "ivhd_entry_type h \<in> {Inr IvhdType10, Inr IvhdType11, Inr IvhdType40}"
proof -
  obtain raws where "bs = map block_parse raws" "\<forall>r \<in> set raws. 4 \<le> length r"
    using ivrs_blocks_records [OF assms(1)] assms(2) by auto
  with assms(3) obtain r where r: "block_parse r = BIvhd h" "4 \<le> length r" by fastforce
  then have "ivhd_raw h = r" "entry_type_from (r ! 0) \<in> {IvhdType10, IvhdType11, IvhdType40}"
    by (auto simp: block_parse_def split: entry_type.splits)
  moreover have "r \<noteq> []" using r by auto
  ultimately show "4 \<le> length (ivhd_raw h)"
    "ivhd_entry_type h \<in> {Inr IvhdType10, Inr IvhdType11, Inr IvhdType40}"
    using r by (auto simp: ivhd_entry_type_def)
qed

lemma ivmd_of_blocks:
  assumes "ivrs_new raw = Inr t" "ivrs_blocks t = Inr bs" "BIvmd m \<in> set bs"
  shows "4 \<le> length (ivmd_raw m)"
proof -
  obtain raws where "bs = map block_parse raws" "\<forall>r \<in> set raws. 4 \<le> length r"
    using ivrs_blocks_records [OF assms(1)] assms(2) by auto
  with assms(3) obtain r where "block_parse r = BIvmd m" "4 \<le> length r" by fastforce
  then show ?thesis by (auto simp: block_parse_def split: entry_type.splits)
qed

lemma ivhd_accessors_panic:
  assumes "ivrs_new raw = Inr t" "ivrs_blocks t = Inr bs" "BIvhd h \<in> set bs"
  shows "(\<exists>x. ivhd_flags h = Inr x) \<and> (\<exists>x. ivhd_devices h = Inr x) \<and> (\<exists>x. extended_features h = Inr x) \<and>
    (iommu_id h = Inl IndexOutOfBounds \<longleftrightarrow> length (ivhd_raw h) < 5) \<and>
    (ivhd_segment h = Inl IndexOutOfBounds \<longleftrightarrow> length (ivhd_raw h) < 7)"
  using ivhd_of_blocks [OF assms]
  by (auto simp: ivhd_flags_def ivhd_devices_def extended_features_def iommu_id_def ivhd_segment_def
      index_chk_def)

text \<open>C34: The accessors of the blocks a validated table yields are not all safe.  The type, the flags, the
  feature register and the device list of an IVHD and the flags of an IVMD never panic; but the iterator
  admits blocks of four bytes, and \<open>iommu_id\<close> and \<open>segment\<close> of an IVHD and \<open>segment\<close> of an IVMD index
  out of bounds exactly on blocks shorter than five, seven and six bytes.\<close>

theorem block_accessors_panic:
  assumes "ivrs_new raw = Inr t" "ivrs_blocks t = Inr bs"
  shows "(\<forall>h. BIvhd h \<in> set bs \<longrightarrow>
      (\<exists>x. ivhd_flags h = Inr x) \<and> (\<exists>x. ivhd_devices h = Inr x) \<and> (\<exists>x. extended_features h = Inr x) \<and>
      (iommu_id h = Inl IndexOutOfBounds \<longleftrightarrow> length (ivhd_raw h) < 5) \<and>
      (ivhd_segment h = Inl IndexOutOfBounds \<longleftrightarrow> length (ivhd_raw h) < 7)) \<and>
    (\<forall>m. BIvmd m \<in> set bs \<longrightarrow>
      (\<exists>x. ivmd_flags m = Inr x) \<and>
      (ivmd_segment m = Inl IndexOutOfBounds \<longleftrightarrow> length (ivmd_raw m) < 6))"
proof (intro conjI allI impI)
  fix m assume "BIvmd m \<in> set bs"
  then have "4 \<le> length (ivmd_raw m)" using ivmd_of_blocks assms by blast
  then show "\<exists>x. ivmd_flags m = Inr x" "ivmd_segment m = Inl IndexOutOfBounds \<longleftrightarrow> length (ivmd_raw m) < 6"
    by (auto simp: ivmd_flags_def ivmd_segment_def index_chk_def)
qed (use ivhd_accessors_panic [OF assms] in blast)+

section \<open>Images of device entries and blocks\<close>

text \<open>A device entry and the bytes firmware writes for it; the type code must be of the entry's format.\<close>

datatype device_spec =
    SpShort u8 u8 u8
  | SpLong u8 u8 u8 u16
  | SpVariable u8 bytes

fun device_spec_ok :: "device_spec \<Rightarrow> bool" where
  "device_spec_ok (SpShort c d d2) \<longleftrightarrow> \<not> is_variable c \<and> \<not> is_long c"
| "device_spec_ok (SpLong c b df sid) \<longleftrightarrow> is_long c"
| "device_spec_ok (SpVariable c body) \<longleftrightarrow> is_variable c \<and> 2 \<le> length body \<and> length body < 254"

fun device_image :: "device_spec \<Rightarrow> bytes" where
  "device_image (SpShort c d d2) = [c, 0, d, d2]"
| "device_image (SpLong c b df sid) = [c, 0, b, df, 0, 0] @ to_le_bytes sid"
| "device_image (SpVariable c body) = [c, of_nat (2 + length body)] @ body"

fun device_of_spec :: "device_spec \<Rightarrow> device_entry" where
  "device_of_spec (SpShort c d d2) = DeShort (device_type_from c) d d2"
| "device_of_spec (SpLong c b df sid) = DeLong (device_type_from c) b df sid"
| "device_of_spec (SpVariable c body) = DeVariable (device_type_from c) (device_image (SpVariable c body))"

lemma device_image_record:
  "device_spec_ok d \<Longrightarrow> 4 \<le> length (device_image d) \<and> device_size (device_image d) = length (device_image d) \<and>
     device_parse (device_image d) = device_of_spec d"
  by (cases d)
    (auto simp: device_size_def device_parse_def not_long unat_of_nat_in nth_append
      pair_le16 [simplified] Let_def simp del: of_nat_add of_nat_Suc)

record ivhd_spec =
  sv_type :: u8
  sv_flags :: u8
  sv_id :: u8
  sv_segment :: u16
  sv_base :: u64
  sv_range :: "u8 \<times> u8"
  sv_cap :: u32
  sv_ext :: u32
  sv_gap :: bytes
  sv_devices :: "device_spec list"

text \<open>
  An IVHD with its device entries where the code of \<^verbatim>\<open>devices\<close> looks for them, after 24 header bytes for type
  10h and 28 for 11h and 40h.  The fields of the accessors end three bytes earlier, at 21 and 25; what the three
  bytes hold (\<open>sv_gap\<close>) is undocumented and read by nothing.  The comment of \<^verbatim>\<open>devices\<close> adds the header up to
  20 and 24 bytes, which is neither.
\<close>

definition ivhd_image :: "ivhd_spec \<Rightarrow> bytes" where
  "ivhd_image s =
     (let pad = (if sv_type s = 0x10 then sv_gap s else to_le_bytes (sv_ext s) @ sv_gap s);
          body = [sv_id s] @ to_le_bytes (sv_segment s) @ to_le_bytes (sv_base s) @
            [fst (sv_range s), snd (sv_range s)] @ to_le_bytes (sv_cap s) @ pad @
            concat (map device_image (sv_devices s))
      in [sv_type s, sv_flags s] @ to_le_bytes (of_nat (4 + length body) :: u16) @ body)"

lemma ivhd_image_reads:
  assumes ty: "sv_type s \<in> {0x10, 0x11, 0x40}" and gap: "length (sv_gap s) = 3"
    and devs: "\<And>d. d \<in> set (sv_devices s) \<Longrightarrow> device_spec_ok d"
    and h: "h = Ivhd (ivhd_image s)"
  shows "ivhd_entry_type h = Inr (entry_type_from (sv_type s)) \<and> ivhd_flags h = Inr (sv_flags s) \<and>
    iommu_id h = Inr (sv_id s) \<and> ivhd_segment h = Inr (sv_segment s) \<and>
    ivhd_base_address h = sv_base s \<and>
    device_range h = Some (ucast (fst (sv_range s)), ucast (snd (sv_range s))) \<and>
    ivhd_capability h = Some (sv_cap s) \<and>
    extended_features h = Inr (if sv_type s = 0x10 then None else Some (sv_ext s)) \<and>
    ivhd_devices h = Inr (map device_of_spec (sv_devices s))"
proof -
  have devices: "collect device_next (concat (map device_image (sv_devices s))) = map device_of_spec (sv_devices s)"
  proof -
    have "collect device_next (concat (map device_image (sv_devices s)))
        = map device_parse (map device_image (sv_devices s))"
      by (rule devices.collect_records) (use devs device_image_record in auto)
    then show ?thesis using devs device_image_record by simp
  qed
  have e: "ivhd_entry_type h = Inr (entry_type_from (sv_type s))"
    by (simp add: h ivhd_entry_type_def ivhd_image_def Let_def)
  have "ivhd_devices h = Inr (map device_of_spec (sv_devices s))"
    unfolding ivhd_devices_def e using ty gap
    by (auto simp: h ivhd_image_def slice_from_def devices entry_type_from_def Let_def)
  moreover have "extended_features h = Inr (if sv_type s = 0x10 then None else Some (sv_ext s))"
    unfolding extended_features_def e using ty
    by (auto simp: h ivhd_image_def slice_get_def entry_type_from_def Let_def)
  ultimately show ?thesis
    by (simp add: e)
      (simp add: h ivhd_flags_def iommu_id_def ivhd_segment_def ivhd_base_address_def device_range_def
        ivhd_capability_def ivhd_image_def slice_get_def byte_get_def Let_def nth_append pair_le16 [simplified])
qed

text \<open>Blocks and the whole table as firmware lays them out.\<close>

lemma ivhd_image_record:
  assumes "sv_type s \<in> {0x10, 0x11, 0x40}" "length (ivhd_image s) < 2 ^ 16"
  shows "4 \<le> length (ivhd_image s)" "block_size (ivhd_image s) = length (ivhd_image s)"
    "block_parse (ivhd_image s) = BIvhd (Ivhd (ivhd_image s))"
  using assms
  by (auto simp: ivhd_image_def Let_def block_size_def block_parse_def nth_append entry_type_from_def
      pair_le16 [simplified] unat_of_nat_in simp del: of_nat_add)

definition ivrs_image :: "u8 \<Rightarrow> bytes \<Rightarrow> bytes list \<Rightarrow> bytes" where
  "ivrs_image revision header raws = acpi_image IVRS_SIG revision (header @ concat raws)"

lemma ivrs_image_accepted:
  assumes header: "length header = 34" and size: "44 + length (concat raws) < 2 ^ 32"
    and raws: "\<And>r. r \<in> set raws \<Longrightarrow> 4 \<le> length r \<and> block_size r = length r"
    and t: "t = \<lparr>ivrs_raw = ivrs_image revision header raws\<rparr>"
  shows "ivrs_new (ivrs_image revision header raws @ tail) = Inr t"
    "ivrs_blocks t = Inr (map block_parse raws)"
proof -
  let ?img = "acpi_image IVRS_SIG revision (header @ concat raws)"
  note t = t [unfolded ivrs_image_def]
  have len: "length ?img = 44 + length (concat raws)"
    using header by (subst length_acpi_image) (simp_all add: IVRS_SIG_def)
  have body: "drop 10 ?img = header @ concat raws" by (rule acpi_image_parts) (simp add: IVRS_SIG_def)
  have "drop 44 ?img = drop 34 (drop 10 ?img)" by (simp only: drop_drop) simp
  then have "drop 44 ?img = concat raws" unfolding body using header by simp
  moreover have "collect block_next (concat raws) = map block_parse raws"
    by (rule blocks.collect_records) (use raws in auto)
  ultimately show "ivrs_blocks t = Inr (map block_parse raws)"
    using len by (simp add: t ivrs_blocks_def BLOCKS_OFFSET_def)
  show "ivrs_new (ivrs_image revision header raws @ tail) = Inr t"
    unfolding t ivrs_image_def
    by (rule ivrs.accepts_image) (use header size in \<open>simp_all add: BLOCKS_OFFSET_def\<close>)
qed

lemma ivhd_parts:
  assumes "\<And>s. Inl s \<in> set parts \<Longrightarrow> sv_type s \<in> {0x10, 0x11, 0x40} \<and> length (ivhd_image s) < 2 ^ 16"
    "\<And>r. Inr r \<in> set parts \<Longrightarrow> r ! 0 \<notin> {0x10, 0x11, 0x40}"
  shows "List.map_filter (\<lambda>b. case b of BIvhd h \<Rightarrow> Some h | _ \<Rightarrow> None)
      (map block_parse (map (case_sum ivhd_image id) parts))
    = map (\<lambda>s. Ivhd (ivhd_image s)) (List.map_filter (case_sum Some (\<lambda>_. None)) parts)"
proof -
  have other: "(case block_parse r of BIvhd h \<Rightarrow> Some h | _ \<Rightarrow> None) = None" if "r ! 0 \<notin> {0x10, 0x11, 0x40}" for r
    using that by (auto simp: block_parse_def entry_type_from_def)
  have unit: "block_parse (ivhd_image s) = BIvhd (Ivhd (ivhd_image s))" if "Inl s \<in> set parts" for s
    using assms(1) [OF that] ivhd_image_record(3) by blast
  then show ?thesis
    using assms(2) by (induction parts) (auto simp: other split: sum.splits)
qed

text \<open>C21: Discovery on the AMD side: from a table of less than \<open>2^32\<close> bytes that mixes IVHD blocks of all three
  types with memory definitions and unknown blocks, a driver gets exactly the IVHD blocks, in table order, each
  with its type, segment, register base and device entries.  The device entries are those that start where the
  code looks for them, 24 bytes into a block of type 10h and 28 bytes into the others; the comment of
  \<^verbatim>\<open>devices\<close> gives 20 and 24 bytes, and the fields of the accessors end at 21 and 25.  The three bytes between
  may hold anything.\<close>

theorem ivhd_discovery:
  assumes header: "length header = 34"
    and size: "44 + length (concat (map (case_sum ivhd_image id) parts)) < 2 ^ 32"
    and units: "\<And>s. Inl s \<in> set parts \<Longrightarrow> sv_type s \<in> {0x10, 0x11, 0x40} \<and> length (ivhd_image s) < 2 ^ 16"
    and gaps: "\<And>s. Inl s \<in> set parts \<Longrightarrow> length (sv_gap s) = 3"
    and devices: "\<And>s d. Inl s \<in> set parts \<Longrightarrow> d \<in> set (sv_devices s) \<Longrightarrow> device_spec_ok d"
    and others: "\<And>r. Inr r \<in> set parts \<Longrightarrow> 4 \<le> length r \<and> block_size r = length r \<and> r ! 0 \<notin> {0x10, 0x11, 0x40}"
  shows "\<exists>t us. ivrs_new (ivrs_image revision header (map (case_sum ivhd_image id) parts) @ tail) = Inr t \<and>
    ivhd_units t = Inr us \<and>
    map (\<lambda>u. (ivhd_entry_type u, ivhd_segment u, ivhd_base_address u, ivhd_devices u)) us
    = map (\<lambda>s. (Inr (entry_type_from (sv_type s)), Inr (sv_segment s), sv_base s,
        Inr (map device_of_spec (sv_devices s)))) (List.map_filter (case_sum Some (\<lambda>_. None)) parts)"
proof -
  let ?raws = "map (case_sum ivhd_image id) parts"
  let ?t = "\<lparr>ivrs_raw = ivrs_image revision header ?raws\<rparr>"
  let ?ss = "List.map_filter (case_sum Some (\<lambda>_. None)) parts"
  have raws: "4 \<le> length r \<and> block_size r = length r" if "r \<in> set ?raws" for r
    using that units others ivhd_image_record(1,2) by (fastforce split: sum.splits)
  note built = ivrs_image_accepted [OF header size raws refl]
  have "List.map_filter (\<lambda>b. case b of BIvhd h \<Rightarrow> Some h | _ \<Rightarrow> None) (map block_parse ?raws)
      = map (\<lambda>s. Ivhd (ivhd_image s)) ?ss"
    by (rule ivhd_parts) (use units others in auto)
  then have units_eq: "ivhd_units ?t = Inr (map (\<lambda>s. Ivhd (ivhd_image s)) ?ss)"
    by (simp only: ivhd_units_def built(2) run_bind_simps)
  have from_parts: "s \<in> set ?ss \<Longrightarrow> Inl s \<in> set parts" for s
    by (induction parts) (auto split: sum.splits)
  have reads: "ivhd_entry_type (Ivhd (ivhd_image s)) = Inr (entry_type_from (sv_type s)) \<and>
      ivhd_segment (Ivhd (ivhd_image s)) = Inr (sv_segment s) \<and>
      ivhd_base_address (Ivhd (ivhd_image s)) = sv_base s \<and>
      ivhd_devices (Ivhd (ivhd_image s)) = Inr (map device_of_spec (sv_devices s))"
    if "s \<in> set ?ss" for s
    using ivhd_image_reads [OF _ _ _ refl, of s] units [OF from_parts [OF that]] gaps [OF from_parts [OF that]]
      devices [OF from_parts [OF that]]
    by blast
  show ?thesis
    by (intro exI [of _ ?t] exI [of _ "map (\<lambda>s. Ivhd (ivhd_image s)) ?ss"] conjI built(1) units_eq)
      (use reads in \<open>auto simp: comp_def\<close>)
qed

section \<open>Concrete tables\<close>

text \<open>The table of the module documentation, with its 21-byte IVHD.\<close>

definition ivrs_doc :: bytes where
  "ivrs_doc = [0x49, 0x56, 0x52, 0x53, 65, 0, 0, 0, 1, 0x72, 0x41, 0x4d, 0x44, 0x20, 0x20, 0x20,
     0x49, 0x56, 0x52, 0x53, 0x20, 0x20, 0x20, 0x20, 0, 0, 0, 0, 0, 0, 0, 0, 0, 0, 0, 0,
     0, 0, 0, 0, 0, 0, 0, 0,
     0x10, 0, 21, 0, 0, 0, 0, 0x00, 0x00, 0xd8, 0xfe, 0, 0, 0, 0, 0, 0, 0xff, 0x18, 0, 0]"

lemma ivrs_doc_new: "ivrs_new ivrs_doc = Inr \<lparr>ivrs_raw = ivrs_doc\<rparr>"
  by (simp add: ivrs_new_def ivrs_doc_def BLOCKS_OFFSET_def IVRS_SIG_def from_le_bytes_def)

theorem ivrs_blocks_partition_witness:
  "\<exists>raws tail. drop 44 ivrs_doc = concat raws @ tail \<and>
    ivrs_blocks \<lparr>ivrs_raw = ivrs_doc\<rparr> = Inr (map block_parse raws)"
  using ivrs_blocks_partition [OF ivrs_doc_new] by auto

text \<open>A table whose blocks are an IVHD and an IVMD of four bytes.\<close>

definition ivrs_short :: bytes where
  "ivrs_short = ivrs_image 1 (replicate 34 0) [[0x10, 0, 4, 0], [0x20, 0, 4, 0]]"

lemma ivrs_short_table:
  "ivrs_new (ivrs_short @ []) = Inr \<lparr>ivrs_raw = ivrs_short\<rparr>"
  "ivrs_blocks \<lparr>ivrs_raw = ivrs_short\<rparr> = Inr [BIvhd (Ivhd [0x10, 0, 4, 0]), BIvmd (Ivmd [0x20, 0, 4, 0])]"
proof -
  have "4 \<le> length r \<and> block_size r = length r" if "r \<in> set [[0x10, 0, 4, 0], [0x20, 0, 4, 0]]" for r
    using that by (auto simp: block_size_def from_le_bytes_def)
  note t = ivrs_image_accepted [OF _ _ this refl, where header = "replicate 34 0" and revision = 1]
  show "ivrs_new (ivrs_short @ []) = Inr \<lparr>ivrs_raw = ivrs_short\<rparr>"
    unfolding ivrs_short_def by (rule t(1)) simp_all
  show "ivrs_blocks \<lparr>ivrs_raw = ivrs_short\<rparr> = Inr [BIvhd (Ivhd [0x10, 0, 4, 0]), BIvmd (Ivmd [0x20, 0, 4, 0])]"
    unfolding ivrs_short_def by (subst t(2)) (simp_all add: block_parse_def entry_type_from_def)
qed

theorem block_accessors_panic_witness:
  "ivhd_segment (Ivhd [0x10, 0, 4, 0]) = Inl IndexOutOfBounds \<and>
   iommu_id (Ivhd [0x10, 0, 4, 0]) = Inl IndexOutOfBounds \<and>
   ivmd_segment (Ivmd [0x20, 0, 4, 0]) = Inl IndexOutOfBounds"
  using block_accessors_panic [OF ivrs_short_table] by simp

definition sample_ivhd :: ivhd_spec where
  "sample_ivhd = \<lparr>sv_type = 0x11, sv_flags = 0xb0, sv_id = 2, sv_segment = 1, sv_base = 0xfed80000,
     sv_range = (8, 0xff), sv_cap = 0x18ff, sv_ext = 0x80486, sv_gap = [1, 2, 3],
     sv_devices = [SpShort 2 8 0, SpLong 3 1 2 0x1234, SpVariable 0x48 [0, 7, 9]]\<rparr>"

lemma ivhd_image_reads_example:
  "ivhd_base_address (Ivhd (ivhd_image sample_ivhd)) = 0xfed80000 \<and>
   ivhd_devices (Ivhd (ivhd_image sample_ivhd)) = Inr [DeShort DevSelect 8 0,
     DeLong DevAliasSelect 1 2 0x1234, DeVariable DevAcpiHid [0x48, 5, 0, 7, 9]]"
proof -
  have ty: "sv_type sample_ivhd \<in> {0x10, 0x11, 0x40}" by (simp add: sample_ivhd_def)
  have devs: "device_spec_ok d" if "d \<in> set (sv_devices sample_ivhd)" for d
    using that by (auto simp: sample_ivhd_def is_variable_def is_long_def word_le_nat_alt)
  show ?thesis
    using ivhd_image_reads [OF ty _ devs refl]
    by (simp add: sample_ivhd_def device_type_from_def word_le_nat_alt)
qed

text \<open>A type 10h block whose device entry starts after the 20 bytes of the comment: the code does not see it.\<close>

lemma device_after_comment_header:
  "ivhd_devices (Ivhd ([0x10, 0, 24, 0] @ replicate 16 0 @ [2, 0, 8, 0])) = Inr []"
  by (simp add: ivhd_devices_def ivhd_entry_type_def entry_type_from_def slice_from_def collect_def Let_def)

theorem ivhd_discovery_witness:
  "\<exists>t us. ivrs_new (ivrs_image 1 (replicate 34 0) [[0x22, 0, 4, 0], ivhd_image sample_ivhd] @ [7]) = Inr t \<and>
    ivhd_units t = Inr us \<and> map ivhd_base_address us = [sv_base sample_ivhd]"
proof -
  let ?parts = "[Inr [0x22, 0, 4, 0], Inl sample_ivhd] :: (ivhd_spec + bytes) list"
  have len: "length (ivhd_image sample_ivhd) < 2 ^ 10"
    by (simp add: ivhd_image_def sample_ivhd_def Let_def)
  have ty: "sv_type sample_ivhd \<in> {0x10, 0x11, 0x40}" by (simp add: sample_ivhd_def)
  have gap: "length (sv_gap sample_ivhd) = 3" by (simp add: sample_ivhd_def)
  have devs: "device_spec_ok d" if "d \<in> set (sv_devices sample_ivhd)" for d
    using that by (auto simp: sample_ivhd_def is_variable_def is_long_def word_le_nat_alt)
  have "\<exists>t us. ivrs_new (ivrs_image 1 (replicate 34 0) (map (case_sum ivhd_image id) ?parts) @ [7]) = Inr t \<and>
      ivhd_units t = Inr us \<and>
      map (\<lambda>u. (ivhd_entry_type u, ivhd_segment u, ivhd_base_address u, ivhd_devices u)) us
      = map (\<lambda>s. (Inr (entry_type_from (sv_type s)), Inr (sv_segment s), sv_base s,
          Inr (map device_of_spec (sv_devices s)))) (List.map_filter (case_sum Some (\<lambda>_. None)) ?parts)"
    by (rule ivhd_discovery) (use len ty gap devs in \<open>auto simp: block_size_def from_le_bytes_def\<close>)
  then obtain t us where t: "ivrs_new (ivrs_image 1 (replicate 34 0) (map (case_sum ivhd_image id) ?parts) @ [7]) = Inr t"
    "ivhd_units t = Inr us"
    and us: "map (\<lambda>u. (ivhd_entry_type u, ivhd_segment u, ivhd_base_address u, ivhd_devices u)) us
      = map (\<lambda>s. (Inr (entry_type_from (sv_type s)), Inr (sv_segment s), sv_base s,
        Inr (map device_of_spec (sv_devices s)))) [sample_ivhd]"
    by auto
  have "map ivhd_base_address us = [sv_base sample_ivhd]"
    using arg_cong [OF us, of "map (\<lambda>(a, b, c, d). c)"] by (simp add: comp_def)
  with t show ?thesis by auto
qed

end
