(* ===== verification/Intel_Qi.thy ===== *)
theory Intel_Qi
  imports Interfaces Bits
begin

text \<open>
  \<^verbatim>\<open>intel-iommu/src/qi.rs\<close>: the descriptors of the invalidation queue, their encoding to two or
  four words and the decoder.  Arrays \<^verbatim>\<open>[u64; 2]\<close> and \<^verbatim>\<open>[u64; 4]\<close> are tuples.
\<close>

section \<open>Granularity and type codes\<close>

datatype granularity =
    GranReserved
  | GranGlobal
  | GranDomain
  | PageOrDevice

fun granularity_bits :: "granularity \<Rightarrow> u8" where
  "granularity_bits GranReserved = 0"
| "granularity_bits GranGlobal = 1"
| "granularity_bits GranDomain = 2"
| "granularity_bits PageOrDevice = 3"

definition granularity_from_bits :: "u8 \<Rightarrow> granularity" where
  "granularity_from_bits v =
     (let m = v AND 0x3 in
      if m = 1 then GranGlobal else if m = 2 then GranDomain else if m = 3 then PageOrDevice
      else GranReserved)"

datatype qi_type = QiType (qi_code: u8)

definition CONTEXT_CACHE :: qi_type where "CONTEXT_CACHE = QiType 0x1"
definition IOTLB :: qi_type where "IOTLB = QiType 0x2"
definition DEVICE_TLB :: qi_type where "DEVICE_TLB = QiType 0x3"
definition INTERRUPT_ENTRY_CACHE :: qi_type where "INTERRUPT_ENTRY_CACHE = QiType 0x4"
definition WAIT :: qi_type where "WAIT = QiType 0x5"
definition PASID_IOTLB :: qi_type where "PASID_IOTLB = QiType 0x6"
definition PASID_CACHE :: qi_type where "PASID_CACHE = QiType 0x7"
definition PASID_DEVICE_TLB :: qi_type where "PASID_DEVICE_TLB = QiType 0x8"
definition PAGE_GROUP_RESPONSE :: qi_type where "PAGE_GROUP_RESPONSE = QiType 0x9"

definition qi_type_from_word0 :: "u64 \<Rightarrow> qi_type" where
  "qi_type_from_word0 w = QiType (ucast (push_bit 4 (extract_bits w 11 9) OR extract_bits w 3 0))"

definition type_bits :: "u8 \<Rightarrow> u64" where
  "type_bits t = (let t = (ucast (t AND 0x7f) :: u64) in push_bit 9 (drop_bit 4 t) OR (t AND 0xf))"

section \<open>Descriptors\<close>

record qi_cc =
  cc_granularity :: granularity
  cc_did :: u16
  cc_sid :: u16
  cc_fm :: u8

definition cc_new :: "granularity \<Rightarrow> u16 \<Rightarrow> u16 \<Rightarrow> u8 \<Rightarrow> qi_cc" where
  "cc_new g did sid fm = \<lparr>cc_granularity = g, cc_did = did, cc_sid = sid, cc_fm = fm\<rparr>"

definition cc_from_words :: "u64 \<Rightarrow> u64 \<Rightarrow> qi_cc" where
  "cc_from_words w0 w1 =
     \<lparr>cc_granularity = granularity_from_bits (ucast (extract_bits w0 5 4)),
      cc_did = ucast (extract_bits w0 31 16), cc_sid = ucast (extract_bits w0 47 32),
      cc_fm = ucast (extract_bits w0 49 48)\<rparr>"

definition cc_to_words :: "qi_cc \<Rightarrow> u64 \<times> u64" where
  "cc_to_words d =
     (let w0 = type_bits (qi_code CONTEXT_CACHE) OR push_bit 4 (ucast (granularity_bits (cc_granularity d)))
            OR push_bit 16 (ucast (cc_did d)) OR push_bit 32 (ucast (cc_sid d))
            OR push_bit 48 (ucast (cc_fm d AND 0x3))
      in (w0, 0))"

record qi_iotlb =
  tlb_granularity :: granularity
  tlb_did :: u16
  tlb_addr :: u64
  tlb_am :: u8

definition iotlb_new :: "granularity \<Rightarrow> u16 \<Rightarrow> u64 \<Rightarrow> u8 \<Rightarrow> qi_iotlb" where
  "iotlb_new g did addr am = \<lparr>tlb_granularity = g, tlb_did = did, tlb_addr = addr, tlb_am = am\<rparr>"

definition iotlb_from_words :: "u64 \<Rightarrow> u64 \<Rightarrow> qi_iotlb" where
  "iotlb_from_words w0 w1 =
     \<lparr>tlb_granularity = granularity_from_bits (ucast (extract_bits w0 5 4)),
      tlb_did = ucast (extract_bits w0 31 16), tlb_addr = w1 AND NOT 0xfff,
      tlb_am = ucast (extract_bits w1 5 0)\<rparr>"

definition iotlb_to_words :: "qi_iotlb \<Rightarrow> u64 \<times> u64" where
  "iotlb_to_words d =
     (let w0 = type_bits (qi_code IOTLB) OR push_bit 4 (ucast (granularity_bits (tlb_granularity d)))
            OR push_bit 16 (ucast (tlb_did d));
          w1 = (tlb_addr d AND NOT 0xfff) OR ucast (tlb_am d AND 0x3f)
      in (w0, w1))"

record qi_dev_tlb =
  dt_sid :: u16
  dt_addr :: u64
  dt_oversized :: bool

definition dev_tlb_new :: "u16 \<Rightarrow> u64 \<Rightarrow> bool \<Rightarrow> qi_dev_tlb" where
  "dev_tlb_new sid addr oversized = \<lparr>dt_sid = sid, dt_addr = addr, dt_oversized = oversized\<rparr>"

definition dev_tlb_from_words :: "u64 \<Rightarrow> u64 \<Rightarrow> qi_dev_tlb" where
  "dev_tlb_from_words w0 w1 =
     \<lparr>dt_sid = ucast (extract_bits w0 47 32), dt_addr = w1 AND NOT 0xfff, dt_oversized = (w1 AND 1 \<noteq> 0)\<rparr>"

definition dev_tlb_to_words :: "qi_dev_tlb \<Rightarrow> u64 \<times> u64" where
  "dev_tlb_to_words d =
     (let w0 = type_bits (qi_code DEVICE_TLB) OR push_bit 32 (ucast (dt_sid d));
          w1 = (dt_addr d AND NOT 0xfff) OR ucast (of_bool (dt_oversized d) :: u8)
      in (w0, w1))"

record qi_iec =
  iec_global :: bool
  iec_start_index :: u16
  iec_index_mask :: u8

definition iec_new :: "bool \<Rightarrow> u16 \<Rightarrow> u8 \<Rightarrow> qi_iec" where
  "iec_new g start_index index_mask =
     \<lparr>iec_global = g, iec_start_index = start_index, iec_index_mask = index_mask\<rparr>"

definition iec_from_words :: "u64 \<Rightarrow> u64 \<Rightarrow> qi_iec" where
  "iec_from_words w0 w1 =
     \<lparr>iec_global = (extract_bits w0 4 4 \<noteq> 0), iec_start_index = ucast (extract_bits w0 47 32),
      iec_index_mask = ucast (extract_bits w0 31 27)\<rparr>"

definition iec_to_words :: "qi_iec \<Rightarrow> u64 \<times> u64" where
  "iec_to_words d =
     (let w0 = type_bits (qi_code INTERRUPT_ENTRY_CACHE) OR push_bit 4 (ucast (of_bool (iec_global d) :: u8))
            OR push_bit 27 (ucast (iec_index_mask d AND 0x1f)) OR push_bit 32 (ucast (iec_start_index d))
      in (w0, 0))"

record qi_wait =
  wait_interrupt_flag :: bool
  wait_status_write :: bool
  wait_fence :: bool
  wait_status_data :: u32
  wait_status_addr :: u64

definition wait_for_status_write :: "u64 \<Rightarrow> u32 \<Rightarrow> qi_wait" where
  "wait_for_status_write status_addr status_data =
     \<lparr>wait_interrupt_flag = False, wait_status_write = True, wait_fence = False,
      wait_status_data = status_data, wait_status_addr = status_addr AND NOT 0x7\<rparr>"

definition wait_for_fence :: qi_wait where
  "wait_for_fence =
     \<lparr>wait_interrupt_flag = False, wait_status_write = False, wait_fence = True,
      wait_status_data = 0, wait_status_addr = 0\<rparr>"

definition wait_from_words :: "u64 \<Rightarrow> u64 \<Rightarrow> qi_wait" where
  "wait_from_words w0 w1 =
     \<lparr>wait_interrupt_flag = (extract_bits w0 4 4 \<noteq> 0), wait_status_write = (extract_bits w0 5 5 \<noteq> 0),
      wait_fence = (extract_bits w0 6 6 \<noteq> 0), wait_status_data = ucast (extract_bits w0 63 32),
      wait_status_addr = w1 AND NOT 0x7\<rparr>"

definition wait_to_words :: "qi_wait \<Rightarrow> u64 \<times> u64" where
  "wait_to_words d =
     (let w0 = type_bits (qi_code WAIT) OR push_bit 4 (ucast (of_bool (wait_interrupt_flag d) :: u8))
            OR push_bit 5 (ucast (of_bool (wait_status_write d) :: u8))
            OR push_bit 6 (ucast (of_bool (wait_fence d) :: u8))
            OR push_bit 32 (ucast (wait_status_data d));
          w1 = wait_status_addr d AND NOT 0x7
      in (w0, w1))"

record qi_pc =
  pc_granularity :: granularity
  pc_did :: u16
  pc_pasid :: u32

definition pc_new :: "granularity \<Rightarrow> u16 \<Rightarrow> u32 \<Rightarrow> qi_pc" where
  "pc_new g did pasid = \<lparr>pc_granularity = g, pc_did = did, pc_pasid = pasid\<rparr>"

definition pc_from_words :: "u64 \<Rightarrow> u64 \<Rightarrow> qi_pc" where
  "pc_from_words w0 w1 =
     \<lparr>pc_granularity = granularity_from_bits (ucast (extract_bits w0 5 4)),
      pc_did = ucast (extract_bits w0 31 16), pc_pasid = ucast (extract_bits w0 63 32)\<rparr>"

definition pc_to_words :: "qi_pc \<Rightarrow> u64 \<times> u64" where
  "pc_to_words d =
     (let w0 = type_bits (qi_code PASID_CACHE) OR push_bit 4 (ucast (granularity_bits (pc_granularity d)))
            OR push_bit 16 (ucast (pc_did d)) OR push_bit 32 (ucast (pc_pasid d))
      in (w0, 0))"

record qi_piotlb =
  pi_granularity :: granularity
  pi_did :: u16
  pi_pasid :: u32
  pi_addr :: u64
  pi_am :: u8

definition piotlb_new :: "granularity \<Rightarrow> u16 \<Rightarrow> u32 \<Rightarrow> u64 \<Rightarrow> u8 \<Rightarrow> qi_piotlb" where
  "piotlb_new g did pasid addr am =
     \<lparr>pi_granularity = g, pi_did = did, pi_pasid = pasid, pi_addr = addr, pi_am = am\<rparr>"

definition piotlb_from_words :: "u64 \<Rightarrow> u64 \<Rightarrow> qi_piotlb" where
  "piotlb_from_words w0 w1 =
     \<lparr>pi_granularity = granularity_from_bits (ucast (extract_bits w0 5 4)),
      pi_did = ucast (extract_bits w0 31 16), pi_pasid = ucast (extract_bits w0 63 32),
      pi_addr = w1 AND NOT 0xfff, pi_am = ucast (extract_bits w1 5 0)\<rparr>"

definition piotlb_to_words :: "qi_piotlb \<Rightarrow> u64 \<times> u64" where
  "piotlb_to_words d =
     (let w0 = type_bits (qi_code PASID_IOTLB) OR push_bit 4 (ucast (granularity_bits (pi_granularity d)))
            OR push_bit 16 (ucast (pi_did d)) OR push_bit 32 (ucast (pi_pasid d));
          w1 = (pi_addr d AND NOT 0xfff) OR ucast (pi_am d AND 0x3f)
      in (w0, w1))"

record qi_dev_piotlb =
  dp_global :: bool
  dp_pasid :: u32
  dp_addr :: u64
  dp_size_order :: bool
  dp_sid :: u16
  dp_pfsid :: u16

definition dev_piotlb_new ::
  "bool \<Rightarrow> u32 \<Rightarrow> u64 \<Rightarrow> bool \<Rightarrow> u16 \<Rightarrow> u16 \<Rightarrow> qi_dev_piotlb" where
  "dev_piotlb_new g pasid addr size_order sid pfsid =
     \<lparr>dp_global = g, dp_pasid = pasid, dp_addr = addr, dp_size_order = size_order, dp_sid = sid,
      dp_pfsid = pfsid\<rparr>"

definition dev_piotlb_to_words4 :: "qi_dev_piotlb \<Rightarrow> u64 \<times> u64 \<times> u64 \<times> u64" where
  "dev_piotlb_to_words4 d =
     (let w0 = type_bits (qi_code PASID_DEVICE_TLB) OR ucast (of_bool (dp_global d) :: u8)
            OR push_bit 32 (ucast (dp_pasid d));
          w1 = (dp_addr d AND NOT 0xfff) OR push_bit 11 (ucast (of_bool (dp_size_order d) :: u8));
          w2 = push_bit 32 (ucast (dp_sid d)) OR push_bit 16 (ucast (dp_pfsid d))
      in (w0, w1, w2, 0))"

datatype qi_desc =
    ContextCache qi_cc
  | Iotlb qi_iotlb
  | DevTlb qi_dev_tlb
  | Iec qi_iec
  | Wait qi_wait
  | PasidCache qi_pc
  | PasidIotlb qi_piotlb
  | PasidDevTlb qi_dev_piotlb

fun qi_ty :: "qi_desc \<Rightarrow> qi_type" where
  "qi_ty (ContextCache _) = CONTEXT_CACHE"
| "qi_ty (Iotlb _) = IOTLB"
| "qi_ty (DevTlb _) = DEVICE_TLB"
| "qi_ty (Iec _) = INTERRUPT_ENTRY_CACHE"
| "qi_ty (Wait _) = WAIT"
| "qi_ty (PasidCache _) = PASID_CACHE"
| "qi_ty (PasidIotlb _) = PASID_IOTLB"
| "qi_ty (PasidDevTlb _) = PASID_DEVICE_TLB"

fun qi_words :: "qi_desc \<Rightarrow> u64 \<times> u64" where
  "qi_words (ContextCache d) = cc_to_words d"
| "qi_words (Iotlb d) = iotlb_to_words d"
| "qi_words (DevTlb d) = dev_tlb_to_words d"
| "qi_words (Iec d) = iec_to_words d"
| "qi_words (Wait d) = wait_to_words d"
| "qi_words (PasidCache d) = pc_to_words d"
| "qi_words (PasidIotlb d) = piotlb_to_words d"
| "qi_words (PasidDevTlb _) = (0, 0)"

fun qi_words4 :: "qi_desc \<Rightarrow> u64 \<times> u64 \<times> u64 \<times> u64" where
  "qi_words4 (PasidDevTlb d) = dev_piotlb_to_words4 d"
| "qi_words4 other = (let w = qi_words other in (fst w, snd w, 0, 0))"

definition qi_from_words :: "u64 \<Rightarrow> u64 \<Rightarrow> qi_desc option" where
  "qi_from_words w0 w1 =
     (let t = qi_type_from_word0 w0 in
      if t = CONTEXT_CACHE then Some (ContextCache (cc_from_words w0 w1))
      else if t = IOTLB then Some (Iotlb (iotlb_from_words w0 w1))
      else if t = DEVICE_TLB then Some (DevTlb (dev_tlb_from_words w0 w1))
      else if t = INTERRUPT_ENTRY_CACHE then Some (Iec (iec_from_words w0 w1))
      else if t = WAIT then Some (Wait (wait_from_words w0 w1))
      else if t = PASID_CACHE then Some (PasidCache (pc_from_words w0 w1))
      else if t = PASID_IOTLB then Some (PasidIotlb (piotlb_from_words w0 w1))
      else None)"

fun slot_count :: "qi_desc \<Rightarrow> nat" where
  "slot_count (PasidDevTlb _) = 2"
| "slot_count _ = 1"

section \<open>The granularity codec\<close>

interpretation granularity: exact_enum_codec granularity_from_bits granularity_bits 2
proof
  fix v :: u8
  have m: "v AND 3 = take_bit 2 v" by (simp add: take_bit_eq_mask mask_numeral)
  show "granularity_bits (granularity_from_bits v) = take_bit 2 v"
    using mask2_cases [of v] by (auto simp: granularity_from_bits_def m Let_def)
  show "granularity_from_bits (take_bit 2 v) = granularity_from_bits v"
    by (simp add: granularity_from_bits_def take_bit_eq_mask mask_numeral and.assoc)
next
  fix e show "take_bit 2 (granularity_bits e) = granularity_bits e" by (cases e) simp_all
  show "granularity_from_bits (granularity_bits e) = e" by (cases e) (simp_all add: granularity_from_bits_def)
qed

section \<open>Words as disjoint fields\<close>

text \<open>The type codes below 10h occupy the four low bits.\<close>

lemma type_bits_codes:
  "type_bits (qi_code CONTEXT_CACHE) = take_bit 4 (ucast (qi_code CONTEXT_CACHE))"
  "type_bits (qi_code IOTLB) = take_bit 4 (ucast (qi_code IOTLB))"
  "type_bits (qi_code DEVICE_TLB) = take_bit 4 (ucast (qi_code DEVICE_TLB))"
  "type_bits (qi_code INTERRUPT_ENTRY_CACHE) = take_bit 4 (ucast (qi_code INTERRUPT_ENTRY_CACHE))"
  "type_bits (qi_code WAIT) = take_bit 4 (ucast (qi_code WAIT))"
  "type_bits (qi_code PASID_CACHE) = take_bit 4 (ucast (qi_code PASID_CACHE))"
  "type_bits (qi_code PASID_IOTLB) = take_bit 4 (ucast (qi_code PASID_IOTLB))"
  "type_bits (qi_code PASID_DEVICE_TLB) = take_bit 4 (ucast (qi_code PASID_DEVICE_TLB))"
  by (simp_all add: type_bits_def CONTEXT_CACHE_def IOTLB_def DEVICE_TLB_def INTERRUPT_ENTRY_CACHE_def
      WAIT_def PASID_CACHE_def PASID_IOTLB_def PASID_DEVICE_TLB_def)

lemma type_codes_fit:
  "QiType (take_bit 4 (qi_code CONTEXT_CACHE)) = CONTEXT_CACHE"
  "QiType (take_bit 4 (qi_code IOTLB)) = IOTLB"
  "QiType (take_bit 4 (qi_code DEVICE_TLB)) = DEVICE_TLB"
  "QiType (take_bit 4 (qi_code INTERRUPT_ENTRY_CACHE)) = INTERRUPT_ENTRY_CACHE"
  "QiType (take_bit 4 (qi_code WAIT)) = WAIT"
  "QiType (take_bit 4 (qi_code PASID_CACHE)) = PASID_CACHE"
  "QiType (take_bit 4 (qi_code PASID_IOTLB)) = PASID_IOTLB"
  "QiType (take_bit 4 (qi_code PASID_DEVICE_TLB)) = PASID_DEVICE_TLB"
  by (simp_all add: CONTEXT_CACHE_def IOTLB_def DEVICE_TLB_def INTERRUPT_ENTRY_CACHE_def
      WAIT_def PASID_CACHE_def PASID_IOTLB_def PASID_DEVICE_TLB_def)

lemma type_codes_distinct:
  "distinct [PAGE_GROUP_RESPONSE, PASID_DEVICE_TLB, PASID_IOTLB, PASID_CACHE, WAIT,
     INTERRUPT_ENTRY_CACHE, DEVICE_TLB, IOTLB, CONTEXT_CACHE]"
  by (simp add: CONTEXT_CACHE_def IOTLB_def DEVICE_TLB_def INTERRUPT_ENTRY_CACHE_def
      WAIT_def PASID_CACHE_def PASID_IOTLB_def PASID_DEVICE_TLB_def PAGE_GROUP_RESPONSE_def)

lemma type_codes_neq:
  "IOTLB \<noteq> CONTEXT_CACHE" "DEVICE_TLB \<noteq> CONTEXT_CACHE" "INTERRUPT_ENTRY_CACHE \<noteq> CONTEXT_CACHE"
  "WAIT \<noteq> CONTEXT_CACHE" "PASID_CACHE \<noteq> CONTEXT_CACHE" "PASID_IOTLB \<noteq> CONTEXT_CACHE"
  "DEVICE_TLB \<noteq> IOTLB" "INTERRUPT_ENTRY_CACHE \<noteq> IOTLB" "WAIT \<noteq> IOTLB" "PASID_CACHE \<noteq> IOTLB"
  "PASID_IOTLB \<noteq> IOTLB" "INTERRUPT_ENTRY_CACHE \<noteq> DEVICE_TLB" "WAIT \<noteq> DEVICE_TLB"
  "PASID_CACHE \<noteq> DEVICE_TLB" "PASID_IOTLB \<noteq> DEVICE_TLB" "WAIT \<noteq> INTERRUPT_ENTRY_CACHE"
  "PASID_CACHE \<noteq> INTERRUPT_ENTRY_CACHE" "PASID_IOTLB \<noteq> INTERRUPT_ENTRY_CACHE"
  "PASID_CACHE \<noteq> WAIT" "PASID_IOTLB \<noteq> WAIT" "PASID_IOTLB \<noteq> PASID_CACHE"
  using type_codes_distinct by auto

lemma bit_granularity: "bit (granularity_bits g) n \<Longrightarrow> n < 2"
  using granularity.to_bits_fits [of g] by (metis bit_take_bit_iff)

lemma or_granularity:
  "drop_bit 4 v = 0 \<Longrightarrow> v OR push_bit 4 (ucast (granularity_bits g)) = put_field 4 2 (ucast (granularity_bits g)) v"
  for v :: u64
  by (rule bit_word_eqI) (auto simp: bit_simps drop_bit_eq_iff dest: bit_granularity)

lemma type_as_put: "take_bit 4 (ucast t) = put_field 0 4 (ucast t) (0 :: u64)" for t :: u8
  by (rule bit_word_eqI) (auto simp: bit_simps)

lemma page_words:
  "x AND NOT (mask 12) = put_field 12 52 (drop_bit 12 x) 0" "x AND NOT (mask 3) = put_field 3 61 (drop_bit 3 x) 0"
  "put_field 12 52 y 0 OR ucast (am AND mask 6) = put_field 0 6 (ucast am) (put_field 12 52 y 0)"
  "put_field 12 52 y 0 OR ucast (of_bool b :: u8) = put_field 0 1 (of_bool b) (put_field 12 52 y 0)"
  "put_field 12 52 y 0 OR of_bool b = put_field 0 1 (of_bool b) (put_field 12 52 y 0)"
  for x y :: u64 and am :: u8
  unfolding mask_words
  by (rule bit_word_eqI, auto simp: bit_simps split: if_splits dest: bit_imp_le_length)+

lemma type_of_word: "qi_type_from_word0 w = QiType (ucast (push_bit 4 (get_field 9 3 w) OR get_field 0 4 w))"
  by (simp add: qi_type_from_word0_def extract_bits_at)

lemmas word_shapes = type_bits_codes type_as_put or_granularity or_fields page_words mask_words
  drop_put or.assoc [symmetric]

text \<open>What the encoder keeps of a descriptor.\<close>

fun qi_canon :: "qi_desc \<Rightarrow> qi_desc" where
  "qi_canon (ContextCache d) = ContextCache (d\<lparr>cc_fm := take_bit 2 (cc_fm d)\<rparr>)"
| "qi_canon (Iotlb d) = Iotlb (d\<lparr>tlb_addr := tlb_addr d AND NOT 0xfff, tlb_am := take_bit 6 (tlb_am d)\<rparr>)"
| "qi_canon (DevTlb d) = DevTlb (d\<lparr>dt_addr := dt_addr d AND NOT 0xfff\<rparr>)"
| "qi_canon (Iec d) = Iec (d\<lparr>iec_index_mask := take_bit 5 (iec_index_mask d)\<rparr>)"
| "qi_canon (Wait d) = Wait (d\<lparr>wait_status_addr := wait_status_addr d AND NOT 0x7\<rparr>)"
| "qi_canon (PasidCache d) = PasidCache d"
| "qi_canon (PasidIotlb d) = PasidIotlb (d\<lparr>pi_addr := pi_addr d AND NOT 0xfff, pi_am := take_bit 6 (pi_am d)\<rparr>)"
| "qi_canon (PasidDevTlb d) = PasidDevTlb d"

text \<open>Every encoder, as writes of disjoint fields into a zero word.\<close>

lemma encoders [field_shapes]:
  "cc_to_words c = (put_field 48 2 (ucast (cc_fm c)) (put_field 32 16 (ucast (cc_sid c))
     (put_field 16 16 (ucast (cc_did c)) (put_field 4 2 (ucast (granularity_bits (cc_granularity c)))
     (put_field 0 4 (ucast (qi_code CONTEXT_CACHE)) 0)))), 0)"
  "iotlb_to_words t = (put_field 16 16 (ucast (tlb_did t))
     (put_field 4 2 (ucast (granularity_bits (tlb_granularity t))) (put_field 0 4 (ucast (qi_code IOTLB)) 0)),
     put_field 0 6 (ucast (tlb_am t)) (put_field 12 52 (drop_bit 12 (tlb_addr t)) 0))"
  "dev_tlb_to_words v = (put_field 32 16 (ucast (dt_sid v)) (put_field 0 4 (ucast (qi_code DEVICE_TLB)) 0),
     put_field 0 1 (of_bool (dt_oversized v)) (put_field 12 52 (drop_bit 12 (dt_addr v)) 0))"
  "iec_to_words i = (put_field 32 16 (ucast (iec_start_index i)) (put_field 27 5 (ucast (iec_index_mask i))
     (put_field 4 1 (of_bool (iec_global i)) (put_field 0 4 (ucast (qi_code INTERRUPT_ENTRY_CACHE)) 0))), 0)"
  "wait_to_words w = (put_field 32 32 (ucast (wait_status_data w)) (put_field 6 1 (of_bool (wait_fence w))
     (put_field 5 1 (of_bool (wait_status_write w)) (put_field 4 1 (of_bool (wait_interrupt_flag w))
     (put_field 0 4 (ucast (qi_code WAIT)) 0)))), put_field 3 61 (drop_bit 3 (wait_status_addr w)) 0)"
  "pc_to_words p = (put_field 32 32 (ucast (pc_pasid p)) (put_field 16 16 (ucast (pc_did p))
     (put_field 4 2 (ucast (granularity_bits (pc_granularity p))) (put_field 0 4 (ucast (qi_code PASID_CACHE)) 0))), 0)"
  "piotlb_to_words q = (put_field 32 32 (ucast (pi_pasid q)) (put_field 16 16 (ucast (pi_did q))
     (put_field 4 2 (ucast (granularity_bits (pi_granularity q))) (put_field 0 4 (ucast (qi_code PASID_IOTLB)) 0))),
     put_field 0 6 (ucast (pi_am q)) (put_field 12 52 (drop_bit 12 (pi_addr q)) 0))"
  by (simp_all add: cc_to_words_def iotlb_to_words_def dev_tlb_to_words_def iec_to_words_def wait_to_words_def
      pc_to_words_def piotlb_to_words_def word_shapes del: push_bit_of_1)

text \<open>The simplifier reads \<open>NOT 0xfff\<close> as \<open>- 4096\<close> and \<open>NOT 0x7\<close> as \<open>- 8\<close>.\<close>

lemma page_reads:
  "put_field 12 52 (drop_bit 12 (put_field 12 52 y 0)) 0 = put_field 12 52 y 0"
  "put_field 3 61 (drop_bit 3 (put_field 3 61 y 0)) 0 = put_field 3 61 y 0"
  "x AND - 4096 = put_field 12 52 (drop_bit 12 x) 0" "x AND - 8 = put_field 3 61 (drop_bit 3 x) 0"
  for x y :: u64
proof -
  have m: "(- 4096 :: u64) = NOT (mask 12)" "(- 8 :: u64) = NOT (mask 3)" by (simp_all add: mask_numeral)
  show "put_field 12 52 (drop_bit 12 (put_field 12 52 y 0)) 0 = put_field 12 52 y 0"
    "put_field 3 61 (drop_bit 3 (put_field 3 61 y 0)) 0 = put_field 3 61 y 0"
    "x AND - 4096 = put_field 12 52 (drop_bit 12 x) 0" "x AND - 8 = put_field 3 61 (drop_bit 3 x) 0"
    unfolding m by (rule bit_word_eqI, auto simp: bit_simps split: if_splits)+
qed

lemma flag_mod [simp]: "(of_bool b :: u64) mod 2 = 1 \<longleftrightarrow> b"
  by (cases b) simp_all

lemmas decoders = cc_from_words_def iotlb_from_words_def dev_tlb_from_words_def iec_from_words_def
  wait_from_words_def pc_from_words_def piotlb_from_words_def extract_bits_at page_reads flag_tests

lemma descriptor_roundtrips:
  "cc_from_words (fst (cc_to_words c)) w1 = c\<lparr>cc_fm := take_bit 2 (cc_fm c)\<rparr>"
  "iotlb_from_words (fst (iotlb_to_words t)) (snd (iotlb_to_words t))
    = t\<lparr>tlb_addr := tlb_addr t AND NOT 0xfff, tlb_am := take_bit 6 (tlb_am t)\<rparr>"
  "dev_tlb_from_words (fst (dev_tlb_to_words v)) (snd (dev_tlb_to_words v)) = v\<lparr>dt_addr := dt_addr v AND NOT 0xfff\<rparr>"
  "iec_from_words (fst (iec_to_words i)) w1 = i\<lparr>iec_index_mask := take_bit 5 (iec_index_mask i)\<rparr>"
  "wait_from_words (fst (wait_to_words w)) (snd (wait_to_words w))
    = w\<lparr>wait_status_addr := wait_status_addr w AND NOT 0x7\<rparr>"
  "pc_from_words (fst (pc_to_words p)) w1 = p"
  "piotlb_from_words (fst (piotlb_to_words q)) (snd (piotlb_to_words q))
    = q\<lparr>pi_addr := pi_addr q AND NOT 0xfff, pi_am := take_bit 6 (pi_am q)\<rparr>"
  by (simp_all add: encoders decoders granularity.to_bits_fits granularity.from_to split del: split_of_bool)

lemma descriptor_types:
  "qi_type_from_word0 (fst (cc_to_words c)) = CONTEXT_CACHE"
  "qi_type_from_word0 (fst (iotlb_to_words t)) = IOTLB"
  "qi_type_from_word0 (fst (dev_tlb_to_words v)) = DEVICE_TLB"
  "qi_type_from_word0 (fst (iec_to_words i)) = INTERRUPT_ENTRY_CACHE"
  "qi_type_from_word0 (fst (wait_to_words w)) = WAIT"
  "qi_type_from_word0 (fst (pc_to_words p)) = PASID_CACHE"
  "qi_type_from_word0 (fst (piotlb_to_words q)) = PASID_IOTLB"
  by (simp_all add: encoders type_of_word type_codes_fit)

lemma qi_words_decode:
  assumes "slot_count d = 1"
  shows "qi_from_words (fst (qi_words d)) (snd (qi_words d)) = Some (qi_canon d) \<and>
    qi_type_from_word0 (fst (qi_words d)) = qi_ty d"
  using assms
  by (cases d) (simp_all add: qi_from_words_def descriptor_types descriptor_roundtrips type_codes_neq)

text \<open>Decoding accepts a word pair exactly when its type field is one of the seven 128-bit types;
  what is decoded carries that type, every field fits the width it has in the words (\<open>qi_canon\<close>), and
  encoding it again decodes to the same descriptor.\<close>

definition decodable :: "qi_type list" where
  "decodable = [CONTEXT_CACHE, IOTLB, DEVICE_TLB, INTERRUPT_ENTRY_CACHE, WAIT, PASID_CACHE, PASID_IOTLB]"

lemma qi_decode_stable:
  assumes "qi_from_words w0 w1 = Some d"
  shows "qi_ty d = qi_type_from_word0 w0 \<and> slot_count d = 1 \<and> qi_canon d = d \<and>
    qi_from_words (fst (qi_words d)) (snd (qi_words d)) = Some d"
proof -
  have ty: "qi_ty d = qi_type_from_word0 w0" and one: "slot_count d = 1"
    using assms by (auto simp: qi_from_words_def Let_def split: if_splits)
  have "qi_canon d = d"
    using assms by (auto simp: qi_from_words_def Let_def decoders split: if_splits)
  then show ?thesis using ty one qi_words_decode [OF one] by simp
qed

lemma qi_decode_total:
  "case qi_from_words w0 w1 of
     None \<Rightarrow> qi_type_from_word0 w0 \<notin> set decodable
   | Some d \<Rightarrow> qi_type_from_word0 w0 \<in> set decodable \<and> qi_ty d = qi_type_from_word0 w0 \<and> qi_canon d = d \<and>
       case_prod qi_from_words (qi_words d) = Some d"
proof (cases "qi_from_words w0 w1")
  case None
  then show ?thesis by (auto simp: qi_from_words_def decodable_def Let_def split: if_splits)
next
  case (Some d)
  moreover from this have "qi_type_from_word0 w0 \<in> set decodable"
    by (auto simp: qi_from_words_def decodable_def Let_def split: if_splits)
  ultimately show ?thesis using qi_decode_stable [OF Some] by (simp add: split_beta)
qed

text \<open>The 256-bit device-TLB descriptor: the global flag is OR-ed into bit 0 of the type field.\<close>

lemma dev_piotlb_word0:
  "fst (dev_piotlb_to_words4 p) = put_field 32 32 (ucast (dp_pasid p)) (put_field 0 4 (if dp_global p then 9 else 8) 0)"
proof -
  have base: "type_bits (qi_code PASID_DEVICE_TLB) OR ucast (of_bool b :: u8) =
      put_field 0 4 (if b then 9 else 8) (0 :: u64)" for b
    by (cases b) (simp_all add: type_bits_def PASID_DEVICE_TLB_def put_field_def take_bit_eq_mask mask_numeral)
  show ?thesis
    unfolding dev_piotlb_to_words4_def Let_def fst_conv or.assoc [symmetric] base by (simp add: or_fields)
qed

lemma dev_piotlb_type:
  "qi_type_from_word0 (fst (dev_piotlb_to_words4 p)) =
     (if dp_global p then PAGE_GROUP_RESPONSE else PASID_DEVICE_TLB)"
  by (simp add: dev_piotlb_word0 type_of_word PAGE_GROUP_RESPONSE_def PASID_DEVICE_TLB_def take_bit_eq_mask
      mask_numeral)

lemma dev_piotlb_fields:
  "dev_piotlb_to_words4 p = (w0, w1, w2, w3) \<Longrightarrow>
   get_field 32 32 w0 = ucast (dp_pasid p) \<and> push_bit 12 (drop_bit 12 w1) = dp_addr p AND NOT 0xfff \<and>
   (bit w1 11 \<longleftrightarrow> dp_size_order p) \<and> get_field 32 16 w2 = ucast (dp_sid p) \<and>
   get_field 16 16 w2 = ucast (dp_pfsid p) \<and> w3 = 0"
proof -
  assume w: "dev_piotlb_to_words4 p = (w0, w1, w2, w3)"
  have "get_field 32 32 w0 = ucast (dp_pasid p)"
    using dev_piotlb_word0 [of p] w by simp
  moreover have words: "w1 = (dp_addr p AND NOT (mask 12)) OR push_bit 11 (ucast (of_bool (dp_size_order p) :: u8))"
    "w2 = push_bit 32 (ucast (dp_sid p)) OR push_bit 16 (ucast (dp_pfsid p))" "w3 = 0"
    using w by (auto simp: dev_piotlb_to_words4_def Let_def mask_words simp del: push_bit_of_1)
  have "push_bit 12 (drop_bit 12 w1) = dp_addr p AND NOT (mask 12)"
    "get_field 32 16 w2 = ucast (dp_sid p)" "get_field 16 16 w2 = ucast (dp_pfsid p)"
    unfolding words by (rule bit_word_eqI, auto simp: bit_simps dest: bit_imp_le_length)+
  moreover have "bit w1 11 \<longleftrightarrow> dp_size_order p"
    unfolding words by (simp add: bit_simps)
  ultimately show ?thesis using words(3) by (simp only: mask_words simp_thms)
qed

text \<open>In a 128-bit queue the 256-bit descriptor is a slot of zeros, which no decoder accepts.\<close>

lemma pasid_dev_tlb_not_misread:
  "qi_from_words (fst (qi_words (PasidDevTlb d))) (snd (qi_words (PasidDevTlb d))) = None"
  by (simp add: qi_from_words_def qi_type_from_word0_def extract_bits_at CONTEXT_CACHE_def IOTLB_def
      DEVICE_TLB_def INTERRUPT_ENTRY_CACHE_def WAIT_def PASID_CACHE_def PASID_IOTLB_def)

text \<open>C14: Every descriptor survives the queue.  A 128-bit descriptor decodes, from the words of a 128-bit
  slot and from the first two of a 256-bit slot (whose others are zero), to itself, with the operands cut to
  the width the hardware format has: function mask 2 bits, address mask 6, index mask 5, addresses to their
  alignment.  The 256-bit device-TLB descriptor keeps its fields in its four words, and is never
  misread from a 128-bit slot; but its type code is 8h only when it is not global, and a global
  invalidation is queued as 9h, a page group response.  Conversely, any word pair decodes exactly when its
  type is one of the seven 128-bit types, to a descriptor of that type whose fields fit and which encodes
  to words that decode to it again.\<close>

theorem qi_queue_roundtrip:
  "(case qi_words4 d of (w0, w1, w2, w3) \<Rightarrow>
     (case d of
        PasidDevTlb p \<Rightarrow>
          qi_type_from_word0 w0 = (if dp_global p then PAGE_GROUP_RESPONSE else PASID_DEVICE_TLB) \<and>
          get_field 32 32 w0 = ucast (dp_pasid p) \<and> push_bit 12 (drop_bit 12 w1) = dp_addr p AND NOT 0xfff \<and>
          (bit w1 11 \<longleftrightarrow> dp_size_order p) \<and> get_field 32 16 w2 = ucast (dp_sid p) \<and>
          get_field 16 16 w2 = ucast (dp_pfsid p) \<and> w3 = 0 \<and>
          case_prod qi_from_words (qi_words d) = None
      | _ \<Rightarrow>
          qi_words d = (w0, w1) \<and> w2 = 0 \<and> w3 = 0 \<and> qi_type_from_word0 w0 = qi_ty d \<and>
          qi_from_words w0 w1 = Some (qi_canon d))) \<and>
   (case qi_from_words u0 u1 of
      None \<Rightarrow> qi_type_from_word0 u0 \<notin> set decodable
    | Some e \<Rightarrow> qi_type_from_word0 u0 \<in> set decodable \<and> qi_ty e = qi_type_from_word0 u0 \<and> qi_canon e = e \<and>
        case_prod qi_from_words (qi_words e) = Some e)" (is "?encodings \<and> _")
proof (rule conjI [OF _ qi_decode_total])
  show ?encodings
  proof (cases d)
    case (PasidDevTlb p)
    obtain w0 w1 w2 w3 where w: "dev_piotlb_to_words4 p = (w0, w1, w2, w3)" by (cases "dev_piotlb_to_words4 p")
    show ?thesis
      using dev_piotlb_type [of p] dev_piotlb_fields [OF w] pasid_dev_tlb_not_misread [of p]
      by (simp add: PasidDevTlb w)
  qed (use qi_words_decode [of d] in \<open>simp_all add: Let_def split_beta\<close>)
qed

end
