(* ===== verification/Amd_Cmd.thy ===== *)
theory Amd_Cmd
  imports Interfaces Bits
begin

text \<open>
  \<^verbatim>\<open>amd-iommu/src/cmd.rs\<close>: the entries of the command buffer.  An entry is the quadruple of its
  dwords.  The crate only encodes; what an entry means to the hardware is the decoder \<open>cmd_decode\<close>, written
  from the layouts the module documents.
\<close>

type_synonym dwords = "u32 \<times> u32 \<times> u32 \<times> u32"

section \<open>Opcodes\<close>

datatype opcode = Opcode (opcode_value: u8)

definition COMPLETION_WAIT :: opcode where "COMPLETION_WAIT = Opcode 0x01"
definition INVALIDATE_DEVTAB_ENTRY :: opcode where "INVALIDATE_DEVTAB_ENTRY = Opcode 0x02"
definition INVALIDATE_IOMMU_PAGES :: opcode where "INVALIDATE_IOMMU_PAGES = Opcode 0x03"
definition INVALIDATE_IOTLB_PAGES :: opcode where "INVALIDATE_IOTLB_PAGES = Opcode 0x04"
definition INVALIDATE_INTERRUPT_TABLE :: opcode where "INVALIDATE_INTERRUPT_TABLE = Opcode 0x05"
definition PREFETCH_IOMMU_PAGES :: opcode where "PREFETCH_IOMMU_PAGES = Opcode 0x06"
definition COMPLETE_PPR_REQUEST :: opcode where "COMPLETE_PPR_REQUEST = Opcode 0x07"
definition INVALIDATE_IOMMU_ALL :: opcode where "INVALIDATE_IOMMU_ALL = Opcode 0x08"

definition opcode_from_dword1 :: "u32 \<Rightarrow> opcode" where
  "opcode_from_dword1 d = Opcode (ucast (drop_bit 28 d))"

section \<open>Commands\<close>

record completion_wait =
  cw_store :: bool
  cw_interrupt :: bool
  cw_flush :: bool
  cw_store_addr :: u64
  cw_store_data :: u64

definition cw_new :: completion_wait where
  "cw_new = \<lparr>cw_store = False, cw_interrupt = False, cw_flush = False, cw_store_addr = 0, cw_store_data = 0\<rparr>"

definition cw_with_store :: "u64 \<Rightarrow> u64 \<Rightarrow> completion_wait \<Rightarrow> completion_wait" where
  "cw_with_store addr data c =
     c\<lparr>cw_store := True, cw_store_addr := addr AND NOT 0x7, cw_store_data := data\<rparr>"

definition cw_with_flush :: "completion_wait \<Rightarrow> completion_wait" where
  "cw_with_flush c = c\<lparr>cw_flush := True\<rparr>"

definition cw_with_interrupt :: "completion_wait \<Rightarrow> completion_wait" where
  "cw_with_interrupt c = c\<lparr>cw_interrupt := True\<rparr>"

definition cw_encode :: "completion_wait \<Rightarrow> dwords" where
  "cw_encode c =
     (let d0 = of_bool (cw_store c) OR push_bit 1 (of_bool (cw_interrupt c)) OR push_bit 2 (of_bool (cw_flush c))
            OR push_bit 3 ((ucast (drop_bit 3 (cw_store_addr c)) :: u32) AND 0x1fffffff);
          d1 = push_bit 28 (ucast (opcode_value COMPLETION_WAIT))
            OR ((ucast (drop_bit 32 (cw_store_addr c)) :: u32) AND 0xfffff)
      in (d0, d1, ucast (cw_store_data c), ucast (drop_bit 32 (cw_store_data c))))"

record invalidate_dev_tab_entry =
  idt_device_id :: u16

definition idt_encode :: "invalidate_dev_tab_entry \<Rightarrow> u32 \<times> u32" where
  "idt_encode c = (ucast (idt_device_id c), push_bit 28 (ucast (opcode_value INVALIDATE_DEVTAB_ENTRY)))"

record invalidate_iommu_pages =
  ip_domain_id :: u16
  ip_pasid :: u32
  ip_addr :: u64
  ip_size :: bool
  ip_pde :: bool
  ip_guest_nested :: bool

definition ip_encode :: "invalidate_iommu_pages \<Rightarrow> dwords" where
  "ip_encode c =
     (let d0 = ip_pasid c AND 0xfffff;
          d1 = push_bit 28 (ucast (opcode_value INVALIDATE_IOMMU_PAGES)) OR ucast (ip_domain_id c);
          d2 = push_bit 12 ((ucast (drop_bit 12 (ip_addr c)) :: u32) AND 0xfffff)
            OR push_bit 2 (of_bool (ip_guest_nested c)) OR push_bit 1 (of_bool (ip_pde c))
            OR of_bool (ip_size c);
          d3 = ucast (drop_bit 32 (ip_addr c))
      in (d0, d1, d2, d3))"

record invalidate_iotlb_pages =
  it_device_id :: u16
  it_queue_id :: u16
  it_pasid :: u32
  it_max_pend :: u8
  it_addr :: u64
  it_inv_type :: u8
  it_size :: bool
  it_guest_nested :: bool

definition it_encode :: "invalidate_iotlb_pages \<Rightarrow> dwords" where
  "it_encode c =
     (let d0 = ucast (it_device_id c) OR push_bit 16 (drop_bit 8 (it_pasid c) AND 0xff)
            OR push_bit 24 (ucast (it_max_pend c));
          d1 = push_bit 28 (ucast (opcode_value INVALIDATE_IOTLB_PAGES))
            OR push_bit 24 (drop_bit 16 (it_pasid c) AND 0xf)
            OR push_bit 16 (it_pasid c AND 0xff) OR ucast (it_queue_id c);
          d2 = push_bit 12 ((ucast (drop_bit 12 (it_addr c)) :: u32) AND 0xfffff)
            OR push_bit 4 (ucast (it_inv_type c AND 0x3)) OR push_bit 2 (of_bool (it_guest_nested c))
            OR of_bool (it_size c);
          d3 = ucast (drop_bit 32 (it_addr c))
      in (d0, d1, d2, d3))"

record complete_ppr_request =
  cp_device_id :: u16
  cp_ppr_tag :: u16
  cp_pasid :: u16

definition cp_encode :: "complete_ppr_request \<Rightarrow> u32 \<times> u32" where
  "cp_encode c =
     (let d0 = ucast (cp_device_id c) OR push_bit 16 (ucast (cp_ppr_tag c));
          d1 = push_bit 28 (ucast (opcode_value COMPLETE_PPR_REQUEST)) OR ucast (cp_pasid c)
      in (d0, d1))"

datatype command =
    CompletionWait completion_wait
  | InvalidateDevTabEntry invalidate_dev_tab_entry
  | InvalidateIommuPages invalidate_iommu_pages
  | InvalidateIotlbPages invalidate_iotlb_pages
  | InvalidateInterruptTable invalidate_dev_tab_entry
  | CompletePprRequest complete_ppr_request
  | InvalidateIommuAll

fun cmd_opcode :: "command \<Rightarrow> opcode" where
  "cmd_opcode (CompletionWait _) = COMPLETION_WAIT"
| "cmd_opcode (InvalidateDevTabEntry _) = INVALIDATE_DEVTAB_ENTRY"
| "cmd_opcode (InvalidateIommuPages _) = INVALIDATE_IOMMU_PAGES"
| "cmd_opcode (InvalidateIotlbPages _) = INVALIDATE_IOTLB_PAGES"
| "cmd_opcode (InvalidateInterruptTable _) = INVALIDATE_INTERRUPT_TABLE"
| "cmd_opcode (CompletePprRequest _) = COMPLETE_PPR_REQUEST"
| "cmd_opcode InvalidateIommuAll = INVALIDATE_IOMMU_ALL"

fun cmd_words :: "command \<Rightarrow> dwords" where
  "cmd_words (CompletionWait c) = cw_encode c"
| "cmd_words (InvalidateDevTabEntry c) = (let (d0, d1) = idt_encode c in (d0, d1, 0, 0))"
| "cmd_words (InvalidateIommuPages c) = ip_encode c"
| "cmd_words (InvalidateIotlbPages c) = it_encode c"
| "cmd_words (InvalidateInterruptTable c) = (let (d0, d1) = idt_encode c in (d0, d1, 0, 0))"
| "cmd_words (CompletePprRequest c) = (let (d0, d1) = cp_encode c in (d0, d1, 0, 0))"
| "cmd_words InvalidateIommuAll = (0, push_bit 28 (ucast (opcode_value INVALIDATE_IOMMU_ALL)), 0, 0)"

section \<open>Entries as disjoint fields\<close>

lemma opcode_field:
  "push_bit 28 (ucast (opcode_value COMPLETION_WAIT)) = put_field 28 4 1 (0 :: u32)"
  "push_bit 28 (ucast (opcode_value INVALIDATE_DEVTAB_ENTRY)) = put_field 28 4 2 (0 :: u32)"
  "push_bit 28 (ucast (opcode_value INVALIDATE_IOMMU_PAGES)) = put_field 28 4 3 (0 :: u32)"
  "push_bit 28 (ucast (opcode_value INVALIDATE_IOTLB_PAGES)) = put_field 28 4 4 (0 :: u32)"
  "push_bit 28 (ucast (opcode_value COMPLETE_PPR_REQUEST)) = put_field 28 4 7 (0 :: u32)"
  "push_bit 28 (ucast (opcode_value INVALIDATE_IOMMU_ALL)) = put_field 28 4 8 (0 :: u32)"
  by (simp_all add: put_field_def take_bit_eq_mask mask_numeral COMPLETION_WAIT_def
      INVALIDATE_DEVTAB_ENTRY_def INVALIDATE_IOMMU_PAGES_def INVALIDATE_IOTLB_PAGES_def
      COMPLETE_PPR_REQUEST_def INVALIDATE_IOMMU_ALL_def)

lemma command_words [field_shapes]:
  "cw_encode c = (put_field 3 29 (ucast (drop_bit 3 (cw_store_addr c))) (put_field 2 1 (of_bool (cw_flush c))
      (put_field 1 1 (of_bool (cw_interrupt c)) (put_field 0 1 (of_bool (cw_store c)) 0))),
     put_field 0 20 (ucast (drop_bit 32 (cw_store_addr c))) (put_field 28 4 1 0),
     ucast (cw_store_data c), ucast (drop_bit 32 (cw_store_data c)))"
  "idt_encode i = (ucast (idt_device_id i), put_field 28 4 2 0)"
  "ip_encode p = (put_field 0 20 (ip_pasid p) 0, put_field 0 16 (ucast (ip_domain_id p)) (put_field 28 4 3 0),
     put_field 0 1 (of_bool (ip_size p)) (put_field 1 1 (of_bool (ip_pde p))
       (put_field 2 1 (of_bool (ip_guest_nested p)) (put_field 12 20 (ucast (drop_bit 12 (ip_addr p))) 0))),
     ucast (drop_bit 32 (ip_addr p)))"
  "it_encode t = (put_field 24 8 (ucast (it_max_pend t)) (put_field 16 8 (drop_bit 8 (it_pasid t))
       (put_field 0 16 (ucast (it_device_id t)) 0)),
     put_field 0 16 (ucast (it_queue_id t)) (put_field 16 8 (it_pasid t)
       (put_field 24 4 (drop_bit 16 (it_pasid t)) (put_field 28 4 4 0))),
     put_field 0 1 (of_bool (it_size t)) (put_field 2 1 (of_bool (it_guest_nested t))
       (put_field 4 2 (ucast (it_inv_type t)) (put_field 12 20 (ucast (drop_bit 12 (it_addr t))) 0))),
     ucast (drop_bit 32 (it_addr t)))"
  "cp_encode r = (put_field 16 16 (ucast (cp_ppr_tag r)) (put_field 0 16 (ucast (cp_device_id r)) 0),
     put_field 0 16 (ucast (cp_pasid r)) (put_field 28 4 7 0))"
  unfolding cw_encode_def idt_encode_def ip_encode_def it_encode_def cp_encode_def opcode_field Let_def
    mask_words or.assoc [symmetric]
  by (simp_all add: field_algebra del: push_bit_and split del: split_of_bool)

section \<open>What the hardware reads\<close>

text \<open>The fields of an entry at the documented positions, by opcode.\<close>

definition cmd_decode :: "dwords \<Rightarrow> command option" where
  "cmd_decode w = (case w of (d0, d1, d2, d3) \<Rightarrow>
     (let code = get_field 28 4 d1; pair = (\<lambda>lo hi. (ucast (lo :: u32) :: u64) OR push_bit 32 (ucast (hi :: u32)));
          page = push_bit 12 (ucast (get_field 12 20 d2)) OR push_bit 32 (ucast d3)
      in if code = 1 then Some (CompletionWait \<lparr>cw_store = bit d0 0, cw_interrupt = bit d0 1,
             cw_flush = bit d0 2,
             cw_store_addr = push_bit 3 (ucast (get_field 3 29 d0)) OR push_bit 32 (ucast (get_field 0 20 d1)),
             cw_store_data = pair d2 d3\<rparr>)
         else if code = 2 then Some (InvalidateDevTabEntry \<lparr>idt_device_id = ucast d0\<rparr>)
         else if code = 3 then Some (InvalidateIommuPages \<lparr>ip_domain_id = ucast d1,
             ip_pasid = get_field 0 20 d0, ip_addr = page, ip_size = bit d2 0, ip_pde = bit d2 1,
             ip_guest_nested = bit d2 2\<rparr>)
         else if code = 4 then Some (InvalidateIotlbPages \<lparr>it_device_id = ucast d0, it_queue_id = ucast d1,
             it_pasid = get_field 16 8 d1 OR push_bit 8 (get_field 16 8 d0) OR push_bit 16 (get_field 24 4 d1),
             it_max_pend = ucast (drop_bit 24 d0), it_addr = page, it_inv_type = ucast (get_field 4 2 d2),
             it_size = bit d2 0, it_guest_nested = bit d2 2\<rparr>)
         else if code = 5 then Some (InvalidateInterruptTable \<lparr>idt_device_id = ucast d0\<rparr>)
         else if code = 7 then Some (CompletePprRequest \<lparr>cp_device_id = ucast d0,
             cp_ppr_tag = ucast (drop_bit 16 d0), cp_pasid = ucast d1\<rparr>)
         else if code = 8 then Some InvalidateIommuAll
         else None))"

text \<open>What the encoder keeps of a command.\<close>

fun cmd_canon :: "command \<Rightarrow> command" where
  "cmd_canon (CompletionWait c) = CompletionWait (c\<lparr>cw_store_addr := push_bit 3 (get_field 3 49 (cw_store_addr c))\<rparr>)"
| "cmd_canon (InvalidateIommuPages c) = InvalidateIommuPages
     (c\<lparr>ip_pasid := take_bit 20 (ip_pasid c), ip_addr := push_bit 12 (drop_bit 12 (ip_addr c))\<rparr>)"
| "cmd_canon (InvalidateIotlbPages c) = InvalidateIotlbPages
     (c\<lparr>it_pasid := take_bit 20 (it_pasid c), it_addr := push_bit 12 (drop_bit 12 (it_addr c)),
        it_inv_type := take_bit 2 (it_inv_type c)\<rparr>)"
| "cmd_canon c = c"

lemma address_halves:
  "push_bit 12 (ucast (take_bit 20 (ucast (drop_bit 12 a) :: u32))) OR push_bit 32 (ucast (ucast (drop_bit 32 a) :: u32))
     = push_bit 12 (drop_bit 12 a)"
  "push_bit 3 (ucast (take_bit 29 (ucast (drop_bit 3 a) :: u32)))
     OR push_bit 32 (ucast (take_bit 20 (ucast (drop_bit 32 a) :: u32))) = push_bit 3 (get_field 3 49 a)"
  "(ucast (ucast a :: u32) :: u64) OR push_bit 32 (ucast (ucast (drop_bit 32 a) :: u32)) = a"
  for a :: u64
proof (rule bit_word_eqI)
  fix n
  show "bit ((push_bit 12 (ucast (take_bit 20 (ucast (drop_bit 12 a) :: u32))) :: u64) OR
      push_bit 32 (ucast (ucast (drop_bit 32 a) :: u32))) n = bit (push_bit 12 (drop_bit 12 a) :: u64) n"
    by (cases "n < 32") (auto simp: bit_simps dest: bit_imp_le_length)
next
  show "push_bit 3 (ucast (take_bit 29 (ucast (drop_bit 3 a) :: u32)))
      OR push_bit 32 (ucast (take_bit 20 (ucast (drop_bit 32 a) :: u32))) = push_bit 3 (get_field 3 49 a)"
  proof (rule bit_word_eqI)
    fix n show "bit ((push_bit 3 (ucast (take_bit 29 (ucast (drop_bit 3 a) :: u32))) :: u64)
        OR push_bit 32 (ucast (take_bit 20 (ucast (drop_bit 32 a) :: u32)))) n
        = bit (push_bit 3 (get_field 3 49 a)) n"
      by (cases "n < 32") (auto simp: bit_simps dest: bit_imp_le_length)
  qed
  show "(ucast (ucast a :: u32) :: u64) OR push_bit 32 (ucast (ucast (drop_bit 32 a) :: u32)) = a"
  proof (rule bit_word_eqI)
    fix n show "bit ((ucast (ucast a :: u32) :: u64) OR push_bit 32 (ucast (ucast (drop_bit 32 a) :: u32))) n = bit a n"
      by (cases "n < 32") (auto simp: bit_simps dest: bit_imp_le_length)
  qed
qed

lemma pasid_pieces:
  "take_bit 8 p OR push_bit 8 (take_bit 8 (drop_bit 8 p)) OR push_bit 16 (take_bit 4 (drop_bit 16 p)) = take_bit 20 p"
  for p :: u32
proof (rule bit_word_eqI)
  fix n show "bit (take_bit 8 p OR push_bit 8 (take_bit 8 (drop_bit 8 p)) OR
      push_bit 16 (take_bit 4 (drop_bit 16 p))) n = bit (take_bit 20 p) n"
    by (cases "n < 8"; cases "n < 16") (auto simp: bit_simps)
qed

lemma whole_reads:
  "(ucast (put_field 0 16 (ucast h) v) :: u16) = h"
  "(ucast (put_field 16 8 x (put_field 0 16 (ucast h) 0)) :: u16) = h"
  "(ucast (put_field 24 8 x (put_field 16 8 y (put_field 0 16 (ucast h) 0))) :: u16) = h"
  "(ucast (put_field 16 16 x (put_field 0 16 (ucast h) 0)) :: u16) = h"
  "(ucast (drop_bit 16 (put_field 16 16 (ucast h) z)) :: u16) = h"
  "(ucast (drop_bit 24 (put_field 24 8 (ucast b) z)) :: u8) = b"
  for h :: u16 and b :: u8 and v x y z :: u32
  by (rule bit_word_eqI, auto simp: bit_simps dest: bit_imp_le_length)+

text \<open>C30: Decoding an encoded command by the documented layouts gives the command back, its operands
  cut to their fields (52-bit semaphore addresses, page addresses, 20-bit PASIDs), with one exception: an
  interrupt-table invalidation is encoded as a device-table invalidation of the same device.\<close>

theorem cmd_words_decode:
  "cmd_decode (cmd_words c) = Some (case c of
     InvalidateInterruptTable i \<Rightarrow> InvalidateDevTabEntry i | _ \<Rightarrow> cmd_canon c)"
proof (cases c)
  case InvalidateIommuAll
  then show ?thesis by (simp add: cmd_decode_def opcode_field)
qed (simp_all add: command_words cmd_decode_def address_halves
    pasid_pieces whole_reads Let_def)

text \<open>The opcode a command carries in its second dword is the one it reports, except for an
  interrupt-table invalidation: it reports 5h and is queued with 2h, so the interrupt table the software
  meant to invalidate stays cached.\<close>

lemma cmd_words_opcode:
  "opcode_from_dword1 (fst (snd (cmd_words c))) =
     (case c of InvalidateInterruptTable _ \<Rightarrow> INVALIDATE_DEVTAB_ENTRY | _ \<Rightarrow> cmd_opcode c)"
proof -
  have field: "drop_bit 28 d = get_field 28 4 d" for d :: u32
    by (rule bit_word_eqI) (auto simp: bit_simps dest: bit_imp_le_length)
  show ?thesis
    by (cases c) (simp_all add: command_words opcode_field opcode_from_dword1_def field COMPLETION_WAIT_def
        INVALIDATE_DEVTAB_ENTRY_def INVALIDATE_IOMMU_PAGES_def INVALIDATE_IOTLB_PAGES_def
        COMPLETE_PPR_REQUEST_def INVALIDATE_IOMMU_ALL_def)
qed

end
