(* ===== verification/Amd_Events.thy ===== *)
theory Amd_Events
  imports Amd_Cmd
begin

text \<open>
  \<^verbatim>\<open>amd-iommu/src/events.rs\<close> and \<^verbatim>\<open>amd-iommu/src/ppr.rs\<close>: the entries of the event log and
  of the peripheral page request log, as quadruples of dwords.
\<close>

section \<open>Event log\<close>

datatype event_code = EventCode (event_code_value: u8)

definition ILLEGAL_DEVICE :: event_code where "ILLEGAL_DEVICE = EventCode 0x1"
definition IO_PAGE_FAULT :: event_code where "IO_PAGE_FAULT = EventCode 0x2"
definition DEV_TAB_HARDWARE_ERROR :: event_code where "DEV_TAB_HARDWARE_ERROR = EventCode 0x3"
definition PAGE_TAB_HARDWARE_ERROR :: event_code where "PAGE_TAB_HARDWARE_ERROR = EventCode 0x4"
definition ILLEGAL_COMMAND_ERROR :: event_code where "ILLEGAL_COMMAND_ERROR = EventCode 0x5"
definition COMMAND_HARDWARE_ERROR :: event_code where "COMMAND_HARDWARE_ERROR = EventCode 0x6"
definition IOTLB_INV_TIMEOUT :: event_code where "IOTLB_INV_TIMEOUT = EventCode 0x7"
definition INVALID_DEVICE_REQUEST :: event_code where "INVALID_DEVICE_REQUEST = EventCode 0x8"
definition INVALID_PPR_REQUEST :: event_code where "INVALID_PPR_REQUEST = EventCode 0x9"
definition RMP_FAULT :: event_code where "RMP_FAULT = EventCode 0xd"
definition RMP_HARDWARE_ERROR :: event_code where "RMP_HARDWARE_ERROR = EventCode 0xe"

definition event_code_from_dword1 :: "u32 \<Rightarrow> event_code" where
  "event_code_from_dword1 d = EventCode (ucast (drop_bit 28 d))"

record page_fault_event =
  pf_device_id :: u16
  pf_domain_id :: u32
  pf_addr :: u64
  pf_write :: bool
  pf_permission :: bool
  pf_reserved :: bool
  pf_rz :: bool
  pf_nx :: bool
  pf_guest_nested :: bool
  pf_translation :: bool
  pf_interrupt :: bool

definition page_fault_words :: "page_fault_event \<Rightarrow> dwords" where
  "page_fault_words f =
     (let d0 = ucast (pf_device_id f) OR push_bit 16 (of_bool (pf_guest_nested f))
            OR push_bit 17 (of_bool (pf_nx f)) OR push_bit 18 (of_bool (pf_rz f))
            OR push_bit 19 (of_bool (pf_translation f)) OR push_bit 20 (of_bool (pf_reserved f))
            OR push_bit 21 (of_bool (pf_permission f)) OR push_bit 22 (of_bool (pf_write f))
            OR push_bit 23 (of_bool (pf_interrupt f));
          d1 = push_bit 28 (ucast (event_code_value IO_PAGE_FAULT)) OR (pf_domain_id f AND 0xfffff);
          d2 = (ucast (drop_bit 12 (pf_addr f)) :: u32) AND 0xfffff;
          d3 = ucast (drop_bit 32 (pf_addr f))
      in (d0, d1, d2, d3))"

datatype event =
    PageFault page_fault_event
  | RawEvent event_code dwords

fun event_code_of :: "event \<Rightarrow> event_code" where
  "event_code_of (PageFault _) = IO_PAGE_FAULT"
| "event_code_of (RawEvent code _) = code"

fun event_words :: "event \<Rightarrow> dwords" where
  "event_words (PageFault f) = page_fault_words f"
| "event_words (RawEvent _ words) = words"

definition event_from_words :: "dwords \<Rightarrow> event" where
  "event_from_words words = (case words of (w0, w1, w2, w3) \<Rightarrow>
     (let code = event_code_from_dword1 w1 in
      if code = IO_PAGE_FAULT then
        PageFault \<lparr>pf_device_id = ucast (w0 AND 0xffff), pf_domain_id = w1 AND 0xfffff,
          pf_addr = push_bit 32 (ucast w3) OR push_bit 12 (ucast (w2 AND 0xfffff)),
          pf_write = (w0 AND push_bit 22 1 \<noteq> 0), pf_permission = (w0 AND push_bit 21 1 \<noteq> 0),
          pf_reserved = (w0 AND push_bit 20 1 \<noteq> 0), pf_rz = (w0 AND push_bit 18 1 \<noteq> 0),
          pf_nx = (w0 AND push_bit 17 1 \<noteq> 0), pf_guest_nested = (w0 AND push_bit 16 1 \<noteq> 0),
          pf_translation = (w0 AND push_bit 19 1 \<noteq> 0), pf_interrupt = (w0 AND push_bit 23 1 \<noteq> 0)\<rparr>
      else RawEvent code words))"

section \<open>Page request log\<close>

datatype ppr_code = PprCode (ppr_code_value: u8)

definition PAGE_SERVICE_REQUEST :: ppr_code where "PAGE_SERVICE_REQUEST = PprCode 0x1"

definition ppr_code_from_dword1 :: "u32 \<Rightarrow> ppr_code" where
  "ppr_code_from_dword1 d = PprCode (ucast (drop_bit 28 d))"

record ppr_entry =
  ppr_device_id :: u16
  ppr_pasid :: u32
  ppr_tag :: u16
  ppr_addr :: u64
  ppr_gn :: bool
  ppr_rz :: bool
  ppr_user :: bool
  ppr_write :: bool
  ppr_read :: bool
  ppr_nx :: bool

definition ppr_words :: "ppr_entry \<Rightarrow> dwords" where
  "ppr_words e =
     (let d0 = ucast (ppr_device_id e) OR push_bit 16 (ppr_pasid e AND 0xffff);
          d1 = push_bit 28 (ucast (ppr_code_value PAGE_SERVICE_REQUEST))
            OR push_bit 26 (of_bool (ppr_gn e)) OR push_bit 25 (of_bool (ppr_rz e))
            OR push_bit 24 (of_bool (ppr_user e)) OR push_bit 23 (of_bool (ppr_write e))
            OR push_bit 21 (of_bool (ppr_read e)) OR push_bit 20 (of_bool (ppr_nx e))
            OR push_bit 16 (drop_bit 16 (ppr_pasid e) AND 0xf)
            OR (ucast (ppr_tag e) AND 0xffff);
          d2 = (ucast (drop_bit 12 (ppr_addr e)) :: u32) AND 0xfffff;
          d3 = ucast (drop_bit 32 (ppr_addr e))
      in (d0, d1, d2, d3))"

definition ppr_from_words :: "dwords \<Rightarrow> ppr_entry" where
  "ppr_from_words words = (case words of (w0, w1, w2, w3) \<Rightarrow>
     \<lparr>ppr_device_id = ucast (w0 AND 0xffff),
      ppr_pasid = drop_bit 16 w0 OR push_bit 16 (ucast (amd_extract_bits (ucast w1) 18 16)),
      ppr_tag = ucast (w1 AND 0xffff),
      ppr_addr = push_bit 32 (ucast w3) OR push_bit 12 (ucast (w2 AND 0xfffff)),
      ppr_gn = (w1 AND push_bit 26 1 \<noteq> 0), ppr_rz = (w1 AND push_bit 25 1 \<noteq> 0),
      ppr_user = (w1 AND push_bit 24 1 \<noteq> 0), ppr_write = (w1 AND push_bit 23 1 \<noteq> 0),
      ppr_read = (w1 AND push_bit 21 1 \<noteq> 0), ppr_nx = (w1 AND push_bit 20 1 \<noteq> 0)\<rparr>)"

section \<open>Entries as disjoint fields\<close>

lemma code_fields:
  "push_bit 28 (ucast (event_code_value IO_PAGE_FAULT)) = put_field 28 4 2 (0 :: u32)"
  "push_bit 28 (ucast (ppr_code_value PAGE_SERVICE_REQUEST)) = put_field 28 4 1 (0 :: u32)"
  by (simp_all add: put_field_def take_bit_eq_mask mask_numeral IO_PAGE_FAULT_def PAGE_SERVICE_REQUEST_def)

lemma page_fault_words_fields [field_shapes]:
  "page_fault_words f = (put_field 23 1 (of_bool (pf_interrupt f)) (put_field 22 1 (of_bool (pf_write f))
     (put_field 21 1 (of_bool (pf_permission f)) (put_field 20 1 (of_bool (pf_reserved f))
     (put_field 19 1 (of_bool (pf_translation f)) (put_field 18 1 (of_bool (pf_rz f))
     (put_field 17 1 (of_bool (pf_nx f)) (put_field 16 1 (of_bool (pf_guest_nested f))
     (put_field 0 16 (ucast (pf_device_id f)) 0)))))))),
     put_field 0 20 (pf_domain_id f) (put_field 28 4 2 0),
     put_field 0 20 (ucast (drop_bit 12 (pf_addr f))) 0, ucast (drop_bit 32 (pf_addr f)))"
  unfolding page_fault_words_def Let_def code_fields mask_words or.assoc [symmetric]
  by (simp add: field_algebra del: push_bit_and split del: split_of_bool)

lemma ppr_words_fields [field_shapes]:
  "ppr_words e = (put_field 16 16 (ppr_pasid e) (put_field 0 16 (ucast (ppr_device_id e)) 0),
     put_field 0 16 (ucast (ppr_tag e)) (put_field 16 4 (drop_bit 16 (ppr_pasid e))
     (put_field 20 1 (of_bool (ppr_nx e)) (put_field 21 1 (of_bool (ppr_read e))
     (put_field 23 1 (of_bool (ppr_write e)) (put_field 24 1 (of_bool (ppr_user e))
     (put_field 25 1 (of_bool (ppr_rz e)) (put_field 26 1 (of_bool (ppr_gn e)) (put_field 28 4 1 0)))))))),
     put_field 0 20 (ucast (drop_bit 12 (ppr_addr e))) 0, ucast (drop_bit 32 (ppr_addr e)))"
  unfolding ppr_words_def Let_def code_fields mask_words or.assoc [symmetric]
  by (simp add: field_algebra del: push_bit_and split del: split_of_bool)

lemma low_field: "w AND 0xffff = get_field 0 16 w" "w AND 0xfffff = get_field 0 20 w" for w :: u32
  unfolding mask_words by (simp_all add: get_field_def take_bit_eq_mask)

lemma log_address:
  "push_bit 32 (ucast (ucast (drop_bit 32 a) :: u32)) OR push_bit 12 (ucast (take_bit 20 (ucast (drop_bit 12 a) :: u32)))
     = push_bit 12 (drop_bit 12 a)" for a :: u64
  using address_halves(1) [of a] by (simp add: or.commute)

lemma code_of_dword1: "drop_bit 28 d = get_field 28 4 d" for d :: u32
  by (rule bit_word_eqI) (auto simp: bit_simps dest: bit_imp_le_length)

section \<open>Properties\<close>

text \<open>C31: A page fault event survives the log: decoding its four dwords gives it back with a 20-bit
  domain id and a page-aligned address, all eight flags in place.  Every other entry is kept raw: its code
  is the one in its second dword, and its dwords are unchanged.\<close>

theorem event_roundtrip:
  "event_from_words (event_words (PageFault f)) =
     PageFault (f\<lparr>pf_domain_id := take_bit 20 (pf_domain_id f), pf_addr := push_bit 12 (drop_bit 12 (pf_addr f))\<rparr>) \<and>
   event_code_of (event_from_words w) = event_code_from_dword1 (fst (snd w)) \<and>
   (event_code_from_dword1 (fst (snd w)) \<noteq> IO_PAGE_FAULT \<longrightarrow> event_words (event_from_words w) = w)"
proof (intro conjI impI)
  have "event_code_from_dword1 (put_field 0 20 x (put_field 28 4 2 0)) = IO_PAGE_FAULT" for x
    by (simp add: event_code_from_dword1_def code_of_dword1 IO_PAGE_FAULT_def)
  then show "event_from_words (event_words (PageFault f)) =
      PageFault (f\<lparr>pf_domain_id := take_bit 20 (pf_domain_id f), pf_addr := push_bit 12 (drop_bit 12 (pf_addr f))\<rparr>)"
    by (simp add: event_from_words_def page_fault_words_fields low_field flag_tests log_address
        del: push_bit_of_1)
qed (cases w; simp add: event_from_words_def Let_def)+

text \<open>C32: A page service request that is written to the log and read back keeps its device id, tag and six flags
  but not all of its PASID and address: the encoder stores bits 19:0 of the PASID and the decoder reads bits
  18:0, so bit 19 is lost with everything above, and a PASID of \<open>0x80000\<close> or more comes back as another one;
  and of the address only the page is kept, its low 12 bits come back as zero.\<close>

theorem ppr_roundtrip:
  "ppr_from_words (ppr_words e) = e\<lparr>ppr_pasid := take_bit 19 (ppr_pasid e),
     ppr_addr := push_bit 12 (drop_bit 12 (ppr_addr e))\<rparr>"
proof -
  have "drop_bit 16 (put_field 16 16 p (put_field 0 16 x 0)) OR
      push_bit 16 (take_bit 3 (drop_bit 16 p)) = take_bit 19 p" for p x :: u32
  proof (rule bit_word_eqI)
    fix n show "bit (drop_bit 16 (put_field 16 16 p (put_field 0 16 x 0)) OR
        push_bit 16 (take_bit 3 (drop_bit 16 p))) n = bit (take_bit 19 p) n"
      by (cases "n < 16") (auto simp: bit_simps)
  qed
  moreover have "(ucast (get_field 16 3 (ucast (put_field 0 16 t (put_field 16 4 p z)) :: u64)) :: u32) = take_bit 3 p"
    for t p z :: u32
    by (rule bit_word_eqI) (auto simp: bit_simps)
  ultimately show ?thesis
    by (simp add: ppr_from_words_def ppr_words_fields low_field flag_tests log_address extract_bits_at
        del: push_bit_of_1)
qed

theorem event_roundtrip_witness:
  "event_words (event_from_words (7, 0x10000000, 5, 6)) = (7, 0x10000000, 5, 6)"
  using event_roundtrip [of undefined "(7, 0x10000000, 5, 6)"]
  by (simp add: event_code_from_dword1_def IO_PAGE_FAULT_def)

end
