(* ===== verification/Amd_Regs.thy ===== *)
theory Amd_Regs
  imports Acpi Bits
begin

text \<open>
  \<^verbatim>\<open>amd-iommu/src/regs.rs\<close> and \<^verbatim>\<open>amd-iommu/src/irte.rs\<close>: the register map, the buffer base and
  control registers, and the interrupt remapping table entry.  Tables of constants are association
  lists from the names of the source to their values.
\<close>

section \<open>Register offsets\<close>

definition AMD_OFFSETS :: "(string \<times> u64) list" where
  "AMD_OFFSETS =
     [(''DEV_TABLE_BASE'', 0x0000), (''CMD_BUF_BASE'', 0x0008), (''EVT_BUF_BASE'', 0x0010),
      (''CONTROL'', 0x0018), (''EXCL_BASE'', 0x0020), (''EXCL_LIMIT'', 0x0028),
      (''EXT_FEATURES'', 0x0030), (''PPR_LOG_BASE'', 0x0038), (''GA_LOG_BASE'', 0x00E0),
      (''CMD_HEAD'', 0x2000), (''CMD_TAIL'', 0x2008), (''EVT_HEAD'', 0x2010), (''EVT_TAIL'', 0x2018),
      (''STATUS'', 0x2020), (''PPR_HEAD'', 0x2030), (''PPR_TAIL'', 0x2038), (''GA_HEAD'', 0x2040),
      (''GA_TAIL'', 0x2048)]"

definition entry_offset :: "u16 \<Rightarrow> u64" where
  "entry_offset n = ucast n * 16"

section \<open>Buffer base registers\<close>

datatype buffer_base = BufferBase (bb_bits: u64)

text \<open>The command buffer and device table base registers have the same layout.\<close>

type_synonym command_buffer_base = buffer_base
type_synonym device_table_base = buffer_base

definition bb_new :: "u64 \<Rightarrow> u8 \<Rightarrow> buffer_base" where
  "bb_new base length_order =
     BufferBase ((base AND 0x000ffffffffff000) OR push_bit 56 (ucast length_order))"

definition bb_base :: "buffer_base \<Rightarrow> u64" where
  "bb_base b = bb_bits b AND 0x000ffffffffff000"

definition bb_length_order :: "buffer_base \<Rightarrow> u8" where
  "bb_length_order b = ucast (amd_extract_bits (bb_bits b) 63 56)"

definition bb_size_bytes :: "buffer_base \<Rightarrow> u64 run" where
  "bb_size_bytes b = shl_chk 1 (unat (ucast (bb_length_order b) + 4 :: u32))"

definition bb_entry_count :: "buffer_base \<Rightarrow> u64 run" where
  "bb_entry_count b = shl_chk 1 (unat (ucast (bb_length_order b) + 1 :: u32))"

section \<open>Control and status\<close>

definition CONTROL_FLAGS :: "(string \<times> u64) list" where
  "CONTROL_FLAGS =
     [(''IOMMU_EN'', push_bit 0 1), (''HT_TUN_EN'', push_bit 1 1), (''EVT_LOG_EN'', push_bit 2 1),
      (''EVT_INT_EN'', push_bit 3 1), (''COMWAIT_EN'', push_bit 4 1), (''PASSPW_EN'', push_bit 8 1),
      (''RESPASSPW_EN'', push_bit 9 1), (''COHERENT_EN'', push_bit 10 1), (''ISOC_EN'', push_bit 11 1),
      (''CMD_BUF_EN'', push_bit 12 1), (''PPR_LOG_EN'', push_bit 13 1), (''PPR_INT_EN'', push_bit 14 1),
      (''PPR_EN'', push_bit 15 1), (''GT_EN'', push_bit 16 1), (''GA_EN'', push_bit 17 1),
      (''GAM_EN'', push_bit 25 1), (''GA_LOG_EN'', push_bit 28 1), (''GA_INT_EN'', push_bit 29 1),
      (''EPH_EN'', push_bit 45 1), (''XT_EN'', push_bit 50 1), (''INTCAPXT_EN'', push_bit 51 1),
      (''GCR3_TRP_MODE'', push_bit 58 1), (''IR_CACHE_DIS'', push_bit 59 1),
      (''SNP_AVIC_EN'', push_bit 61 1)]"

datatype control = Control (control_bits: u64)

definition control_new :: "u64 \<Rightarrow> control" where
  "control_new raw = Control raw"

definition with_iommu_en :: "bool \<Rightarrow> control \<Rightarrow> control" where
  "with_iommu_en en c = Control ((control_bits c AND NOT (push_bit 0 1)) OR of_bool en)"

definition with_cmd_buf_en :: "bool \<Rightarrow> control \<Rightarrow> control" where
  "with_cmd_buf_en en c = Control ((control_bits c AND NOT (push_bit 12 1)) OR push_bit 12 (of_bool en))"

definition with_evt_log_en :: "bool \<Rightarrow> control \<Rightarrow> control" where
  "with_evt_log_en en c = Control ((control_bits c AND NOT (push_bit 2 1)) OR push_bit 2 (of_bool en))"

definition with_ppr_en :: "bool \<Rightarrow> control \<Rightarrow> control" where
  "with_ppr_en en c = Control ((control_bits c AND NOT (push_bit 15 1)) OR push_bit 15 (of_bool en))"

definition with_gt_en :: "bool \<Rightarrow> control \<Rightarrow> control" where
  "with_gt_en en c = Control ((control_bits c AND NOT (push_bit 16 1)) OR push_bit 16 (of_bool en))"

definition invalidation_timeout :: "control \<Rightarrow> u8" where
  "invalidation_timeout c = ucast (amd_extract_bits (control_bits c) 7 5)"

definition with_invalidation_timeout :: "u8 \<Rightarrow> control \<Rightarrow> control" where
  "with_invalidation_timeout t c =
     Control ((control_bits c AND NOT (push_bit 5 0x7)) OR push_bit 5 (ucast (t AND 0x7)))"

definition STATUS_FLAGS :: "(string \<times> u64) list" where
  "STATUS_FLAGS =
     [(''EVT_OVERFLOW'', push_bit 0 1), (''EVT_INT'', push_bit 1 1), (''COM_WAIT_INT'', push_bit 2 1),
      (''EVT_RUN'', push_bit 3 1), (''PPR_OVERFLOW'', push_bit 5 1), (''PPR_INT'', push_bit 6 1),
      (''PPR_RUN'', push_bit 7 1), (''GA_LOG_RUN'', push_bit 8 1), (''GA_LOG_OVERFLOW'', push_bit 9 1),
      (''GA_LOG_INT'', push_bit 10 1), (''CMD_BUF_RUN'', push_bit 12 1)]"

datatype status = Status (status_bits: u64)

definition status_new :: "u64 \<Rightarrow> status" where
  "status_new raw = Status raw"

section \<open>Interrupt remapping table entry\<close>

record amd_irte =
  irte_d0 :: u32
  irte_d1 :: u32
  irte_d2 :: u32
  irte_d3 :: u32

definition amd_irte_new :: amd_irte where
  "amd_irte_new = \<lparr>irte_d0 = 0, irte_d1 = 0, irte_d2 = 0, irte_d3 = 0\<rparr>"

definition amd_irte_valid :: "amd_irte \<Rightarrow> bool" where
  "amd_irte_valid e \<longleftrightarrow> irte_d1 e AND push_bit 16 1 \<noteq> 0"

definition amd_irte_with_valid :: "bool \<Rightarrow> amd_irte \<Rightarrow> amd_irte" where
  "amd_irte_with_valid v e =
     e\<lparr>irte_d1 := (irte_d1 e AND NOT (push_bit 16 1)) OR push_bit 16 (of_bool v)\<rparr>"

definition amd_irte_destination :: "amd_irte \<Rightarrow> u32" where
  "amd_irte_destination e = (irte_d0 e AND 0xffff) OR push_bit 16 (irte_d1 e AND 0xff)"

definition amd_irte_with_destination :: "u32 \<Rightarrow> amd_irte \<Rightarrow> amd_irte" where
  "amd_irte_with_destination dst e =
     (let e = e\<lparr>irte_d0 := (irte_d0 e AND NOT 0xffff) OR (dst AND 0xffff)\<rparr>
      in e\<lparr>irte_d1 := (irte_d1 e AND NOT 0xff) OR (drop_bit 16 dst AND 0xff)\<rparr>)"

definition amd_irte_vector :: "amd_irte \<Rightarrow> u8" where
  "amd_irte_vector e = ucast (irte_d2 e)"

definition amd_irte_with_vector :: "u8 \<Rightarrow> amd_irte \<Rightarrow> amd_irte" where
  "amd_irte_with_vector vector e = e\<lparr>irte_d2 := (irte_d2 e AND NOT 0xff) OR ucast vector\<rparr>"

definition amd_irte_words :: "amd_irte \<Rightarrow> u32 \<times> u32 \<times> u32 \<times> u32" where
  "amd_irte_words e = (irte_d0 e, irte_d1 e, irte_d2 e, irte_d3 e)"

text \<open>\<^verbatim>\<open>ref_from_bytes\<close> of the \<open>zerocopy\<close> crate is a parameter.\<close>

definition amd_irte_from_bytes :: "(bytes \<Rightarrow> amd_irte option) \<Rightarrow> bytes \<Rightarrow> amd_irte option" where
  "amd_irte_from_bytes ref_from_bytes bs = ref_from_bytes bs"

section \<open>Fields\<close>

lemma put_flag_shapes:
  "(v AND NOT (push_bit k 1)) OR push_bit k (of_bool b) = put_field k 1 (of_bool b) v"
  "(v AND NOT (push_bit 0 1)) OR of_bool b = put_field 0 1 (of_bool b) v"
  for v :: "'a::len word"
  by (rule bit_word_eqI, auto simp: bit_simps)+

lemma control_builders [field_shapes]:
  "with_iommu_en b c = Control (put_field 0 1 (of_bool b) (control_bits c))"
  "with_cmd_buf_en b c = Control (put_field 12 1 (of_bool b) (control_bits c))"
  "with_evt_log_en b c = Control (put_field 2 1 (of_bool b) (control_bits c))"
  "with_ppr_en b c = Control (put_field 15 1 (of_bool b) (control_bits c))"
  "with_gt_en b c = Control (put_field 16 1 (of_bool b) (control_bits c))"
  "with_invalidation_timeout t c = Control (put_field 5 3 (ucast t) (control_bits c))"
  unfolding with_iommu_en_def with_cmd_buf_en_def with_evt_log_en_def with_ppr_en_def with_gt_en_def
    with_invalidation_timeout_def
  by (simp_all only: mask_words put_shape_simps put_flag_shapes)

lemma amd_irte_builders [field_shapes]:
  "amd_irte_with_valid b e = e\<lparr>irte_d1 := put_field 16 1 (of_bool b) (irte_d1 e)\<rparr>"
  "amd_irte_with_destination dst e = e\<lparr>irte_d0 := put_field 0 16 dst (irte_d0 e),
     irte_d1 := put_field 0 8 (drop_bit 16 dst) (irte_d1 e)\<rparr>"
  "amd_irte_with_vector v e = e\<lparr>irte_d2 := put_field 0 8 (ucast v) (irte_d2 e)\<rparr>"
  unfolding amd_irte_with_valid_def amd_irte_with_destination_def amd_irte_with_vector_def mask_words Let_def
  by (simp_all add: put_shapes_wide put_flag_shapes del: push_bit_of_1)

lemma amd_irte_getters [field_shapes]:
  "amd_irte_valid e = bit (irte_d1 e) 16"
  "amd_irte_destination e = get_field 0 16 (irte_d0 e) OR push_bit 16 (get_field 0 8 (irte_d1 e))"
  "amd_irte_vector e = ucast (get_field 0 8 (irte_d2 e))"
proof -
  show "amd_irte_destination e = get_field 0 16 (irte_d0 e) OR push_bit 16 (get_field 0 8 (irte_d1 e))"
    unfolding amd_irte_destination_def mask_words by (rule bit_word_eqI) (auto simp: bit_simps)
  show "amd_irte_vector e = ucast (get_field 0 8 (irte_d2 e))"
    unfolding amd_irte_vector_def by (rule bit_word_eqI) (auto simp: bit_simps)
  show "amd_irte_valid e = bit (irte_d1 e) 16"
    by (simp only: amd_irte_valid_def flag_tests)
qed

section \<open>Properties\<close>

text \<open>A buffer base register reads back the page of its base and its length order, and neither
  disturbs the other; the size and entry-count accessors return the documented power of two, and
  overflow their shift exactly for length orders of 60 (63) or more.\<close>

lemma bb_roundtrip:
  "bb_base (bb_new base n) = base AND 0x000ffffffffff000 \<and> bb_length_order (bb_new base n) = n \<and>
   bb_size_bytes (bb_new base n) = (if unat n < 60 then Inr (2 ^ (unat n + 4)) else Inl ShiftOverflow) \<and>
   bb_entry_count (bb_new base n) = (if unat n < 63 then Inr (2 ^ (unat n + 1)) else Inl ShiftOverflow)"
proof -
  have order: "bb_length_order (bb_new base n) = n"
    unfolding bb_length_order_def bb_new_def
    by (simp add: extract_bits_at) (unfold mask_words, rule bit_word_eqI,
        auto simp: bit_simps dest: bit_imp_le_length)
  have base: "bb_base (bb_new base n) = base AND 0x000ffffffffff000"
    unfolding bb_base_def bb_new_def mask_words buffer_base.sel
    by (rule bit_word_eqI) (auto simp: bit_simps)
  have "unat (ucast n + k :: u32) = unat n + unat k" if "unat k \<le> 4" for k :: u32
    using that unat_bound [of n] by (subst unat_add_lem [THEN iffD1]) (simp_all add: unat_ucast_up)
  from this [of 4] this [of 1] show ?thesis
    by (simp add: base order bb_size_bytes_def bb_entry_count_def shl_chk_def push_bit_eq_mult)
qed

text \<open>The flags of the control register, of the status register and the offsets of the register map
  are pairwise distinct, every flag is a single bit outside the timeout field, and the control builders
  write exactly the flag they are named after.\<close>

lemma control_flags_disjoint:
  "distinct (map snd AMD_OFFSETS) \<and> distinct (map snd CONTROL_FLAGS) \<and> distinct (map snd STATUS_FLAGS) \<and>
   list_all (\<lambda>f. snd f AND push_bit 5 0x7 = 0) CONTROL_FLAGS \<and>
   control_bits (with_iommu_en True (control_new 0)) = the (map_of CONTROL_FLAGS ''IOMMU_EN'') \<and>
   control_bits (with_evt_log_en True (control_new 0)) = the (map_of CONTROL_FLAGS ''EVT_LOG_EN'') \<and>
   control_bits (with_cmd_buf_en True (control_new 0)) = the (map_of CONTROL_FLAGS ''CMD_BUF_EN'') \<and>
   control_bits (with_ppr_en True (control_new 0)) = the (map_of CONTROL_FLAGS ''PPR_EN'') \<and>
   control_bits (with_gt_en True (control_new 0)) = the (map_of CONTROL_FLAGS ''GT_EN'')"
  by (simp add: AMD_OFFSETS_def CONTROL_FLAGS_def STATUS_FLAGS_def with_iommu_en_def with_evt_log_en_def
      with_cmd_buf_en_def with_ppr_en_def with_gt_en_def control_new_def)

record amd_irte_view =
  iv_valid :: bool
  iv_destination :: u32
  iv_vector :: u8

definition amd_irte_view_of :: "amd_irte \<Rightarrow> amd_irte_view" where
  "amd_irte_view_of e = \<lparr>iv_valid = amd_irte_valid e, iv_destination = amd_irte_destination e,
     iv_vector = amd_irte_vector e\<rparr>"

datatype amd_irte_op = AiValid bool | AiDestination u32 | AiVector u8

fun amd_irte_step :: "amd_irte_op \<Rightarrow> amd_irte \<Rightarrow> amd_irte" where
  "amd_irte_step (AiValid b) = amd_irte_with_valid b"
| "amd_irte_step (AiDestination d) = amd_irte_with_destination d"
| "amd_irte_step (AiVector v) = amd_irte_with_vector v"

fun amd_irte_view_step :: "amd_irte_op \<Rightarrow> amd_irte_view \<Rightarrow> amd_irte_view" where
  "amd_irte_view_step (AiValid b) v = v\<lparr>iv_valid := b\<rparr>"
| "amd_irte_view_step (AiDestination d) v = v\<lparr>iv_destination := take_bit 24 d\<rparr>"
| "amd_irte_view_step (AiVector x) v = v\<lparr>iv_vector := x\<rparr>"

lemma amd_irte_step_view: "amd_irte_view_of (amd_irte_step op e) = amd_irte_view_step op (amd_irte_view_of e)"
proof (cases op)
  case (AiDestination d)
  have "take_bit 16 d OR push_bit 16 (take_bit 8 (drop_bit 16 d)) = take_bit 24 d"
  proof (rule bit_word_eqI)
    fix n show "bit (take_bit 16 d OR push_bit 16 (take_bit 8 (drop_bit 16 d))) n = bit (take_bit 24 d) n"
      by (cases "n < 16") (auto simp: bit_simps)
  qed
  then show ?thesis
    using AiDestination by (simp add: amd_irte_view_of_def amd_irte_getters amd_irte_builders)
qed (simp_all add: amd_irte_view_of_def amd_irte_getters amd_irte_builders)

text \<open>Whatever sequence of builders is applied to an interrupt remapping entry, it reads back the
  valid flag, the vector and the destination stored last; of the destination, documented as 32 bits,
  only the low 24 are kept.\<close>

lemma amd_irte_builders_refine:
  "amd_irte_view_of (fold amd_irte_step ops e) = fold amd_irte_view_step ops (amd_irte_view_of e)"
  by (induction ops arbitrary: e) (simp_all add: amd_irte_step_view)

text \<open>The reserved bits of the entry: everything but its four fields.\<close>

definition amd_irte_clean :: "amd_irte \<Rightarrow> bool" where
  "amd_irte_clean e \<longleftrightarrow> get_field 16 16 (irte_d0 e) = 0 \<and> get_field 8 8 (irte_d1 e) = 0 \<and>
     get_field 17 15 (irte_d1 e) = 0 \<and> get_field 8 24 (irte_d2 e) = 0 \<and> irte_d3 e = 0"

lemma amd_irte_clean_step: "amd_irte_clean e \<Longrightarrow> amd_irte_clean (amd_irte_step op e)"
  by (cases op) (simp_all add: amd_irte_clean_def amd_irte_builders)

lemma amd_irte_clean_new: "amd_irte_clean amd_irte_new"
  by (simp add: amd_irte_clean_def amd_irte_new_def)

end
