(* ===== verification/Intel_Irte.thy ===== *)
theory Intel_Irte
  imports Interfaces Bits
begin

text \<open>
  \<^verbatim>\<open>intel-iommu/src/irte.rs\<close>: interrupt remapping table entries.  The remapped and the posted format
  share one 128-bit entry: bits 63:38 are the upper part of the destination id in the one and the low part
  of the descriptor address in the other.  The abstract view keeps the shared bits once, so that the
  refinement says exactly which builder changes what the other format reads.
\<close>

section \<open>Enumerations\<close>

datatype irte_mode = Remapped | Posted

definition irte_mode_from_bit :: "bool \<Rightarrow> irte_mode" where
  "irte_mode_from_bit im = (if im then Posted else Remapped)"

datatype delivery_mode =
    DlmFixed
  | DlmLowestPriority
  | DlmSmi
  | DlmNmi
  | DlmInit
  | DlmExtInt
  | DlmReserved u8

definition delivery_mode_from_bits :: "u8 \<Rightarrow> delivery_mode" where
  "delivery_mode_from_bits v =
     (let m = v AND 0x7 in
      if m = 0 then DlmFixed
      else if m = 1 then DlmLowestPriority
      else if m = 2 then DlmSmi
      else if m = 4 then DlmNmi
      else if m = 5 then DlmInit
      else if m = 7 then DlmExtInt
      else DlmReserved m)"

fun delivery_mode_bits :: "delivery_mode \<Rightarrow> u8" where
  "delivery_mode_bits DlmFixed = 0"
| "delivery_mode_bits DlmLowestPriority = 1"
| "delivery_mode_bits DlmSmi = 2"
| "delivery_mode_bits DlmNmi = 4"
| "delivery_mode_bits DlmInit = 5"
| "delivery_mode_bits DlmExtInt = 7"
| "delivery_mode_bits (DlmReserved v) = v AND 0x7"

datatype source_validation =
    SvNoValidation
  | SvReserved01
  | SvVerifyBus
  | SvVerifyFull

definition source_validation_from_bits :: "u8 \<Rightarrow> source_validation" where
  "source_validation_from_bits v =
     (let m = v AND 0x3 in
      if m = 0 then SvNoValidation
      else if m = 1 then SvReserved01
      else if m = 2 then SvVerifyBus
      else SvVerifyFull)"

fun source_validation_bits :: "source_validation \<Rightarrow> u8" where
  "source_validation_bits SvNoValidation = 0"
| "source_validation_bits SvReserved01 = 1"
| "source_validation_bits SvVerifyBus = 2"
| "source_validation_bits SvVerifyFull = 3"

datatype source_qualifier =
    SqFullId
  | SqIgnoreFunction
  | SqBusOnly
  | SqReserved

definition source_qualifier_from_bits :: "u8 \<Rightarrow> source_qualifier" where
  "source_qualifier_from_bits v =
     (let m = v AND 0x3 in
      if m = 0 then SqFullId
      else if m = 1 then SqIgnoreFunction
      else if m = 2 then SqBusOnly
      else SqReserved)"

fun source_qualifier_bits :: "source_qualifier \<Rightarrow> u8" where
  "source_qualifier_bits SqFullId = 0"
| "source_qualifier_bits SqIgnoreFunction = 1"
| "source_qualifier_bits SqBusOnly = 2"
| "source_qualifier_bits SqReserved = 3"

section \<open>Entries\<close>

record irte =
  irte_low :: u64
  irte_high :: u64

definition new_remapped :: irte where
  "new_remapped = \<lparr>irte_low = 0, irte_high = 0\<rparr>"

definition new_posted :: irte where
  "new_posted = \<lparr>irte_low = push_bit 15 1, irte_high = 0\<rparr>"

definition irte_mode_of :: "irte \<Rightarrow> irte_mode" where
  "irte_mode_of e = irte_mode_from_bit (irte_low e AND push_bit 15 1 \<noteq> 0)"

definition irte_present :: "irte \<Rightarrow> bool" where
  "irte_present e \<longleftrightarrow> irte_low e AND 1 \<noteq> 0"

definition irte_with_present :: "bool \<Rightarrow> irte \<Rightarrow> irte" where
  "irte_with_present p e = e\<lparr>irte_low := (irte_low e AND NOT 1) OR ucast (of_bool p :: u8)\<rparr>"

definition irte_fault_disable :: "irte \<Rightarrow> bool" where
  "irte_fault_disable e \<longleftrightarrow> irte_low e AND 2 \<noteq> 0"

definition destination_mode_logical :: "irte \<Rightarrow> bool" where
  "destination_mode_logical e \<longleftrightarrow> irte_low e AND 4 \<noteq> 0"

definition redirection_hint :: "irte \<Rightarrow> bool" where
  "redirection_hint e \<longleftrightarrow> irte_low e AND 8 \<noteq> 0"

definition trigger_mode_level :: "irte \<Rightarrow> bool" where
  "trigger_mode_level e \<longleftrightarrow> irte_low e AND 0x10 \<noteq> 0"

definition with_trigger_mode_level :: "bool \<Rightarrow> irte \<Rightarrow> irte" where
  "with_trigger_mode_level level e =
     e\<lparr>irte_low := (irte_low e AND NOT 0x10) OR push_bit 4 (ucast (of_bool level :: u8))\<rparr>"

definition irte_delivery_mode :: "irte \<Rightarrow> delivery_mode" where
  "irte_delivery_mode e = delivery_mode_from_bits (ucast (extract_bits (irte_low e) 7 5))"

definition with_delivery_mode :: "delivery_mode \<Rightarrow> irte \<Rightarrow> irte" where
  "with_delivery_mode dlm e =
     (let bits = ucast (delivery_mode_bits dlm)
      in e\<lparr>irte_low := (irte_low e AND NOT (push_bit 5 0x7)) OR push_bit 5 bits\<rparr>)"

definition irte_vector :: "irte \<Rightarrow> u8" where
  "irte_vector e = ucast (extract_bits (irte_low e) 23 16)"

definition irte_with_vector :: "u8 \<Rightarrow> irte \<Rightarrow> irte" where
  "irte_with_vector vector e =
     e\<lparr>irte_low := (irte_low e AND NOT (push_bit 16 0xff)) OR push_bit 16 (ucast vector)\<rparr>"

definition irte_destination_id :: "irte \<Rightarrow> u32" where
  "irte_destination_id e = ucast (extract_bits (irte_low e) 63 32)"

definition irte_with_destination :: "u32 \<Rightarrow> irte \<Rightarrow> irte" where
  "irte_with_destination dst e =
     e\<lparr>irte_low := (irte_low e AND NOT (push_bit 32 0xffffffff)) OR push_bit 32 (ucast dst)\<rparr>"

definition irte_source_id :: "irte \<Rightarrow> u16" where
  "irte_source_id e = ucast (irte_high e)"

definition irte_with_source_id :: "u16 \<Rightarrow> irte \<Rightarrow> irte" where
  "irte_with_source_id sid e = e\<lparr>irte_high := (irte_high e AND NOT 0xffff) OR ucast sid\<rparr>"

definition irte_source_qualifier :: "irte \<Rightarrow> source_qualifier" where
  "irte_source_qualifier e = source_qualifier_from_bits (ucast (extract_bits (irte_high e) 17 16))"

definition with_source_qualifier :: "source_qualifier \<Rightarrow> irte \<Rightarrow> irte" where
  "with_source_qualifier sq e =
     (let bits = ucast (source_qualifier_bits sq)
      in e\<lparr>irte_high := (irte_high e AND NOT (push_bit 16 0x3)) OR push_bit 16 bits\<rparr>)"

definition irte_source_validation :: "irte \<Rightarrow> source_validation" where
  "irte_source_validation e = source_validation_from_bits (ucast (extract_bits (irte_high e) 19 18))"

definition with_source_validation :: "source_validation \<Rightarrow> irte \<Rightarrow> irte" where
  "with_source_validation svt e =
     (let bits = ucast (source_validation_bits svt)
      in e\<lparr>irte_high := (irte_high e AND NOT (push_bit 18 0x3)) OR push_bit 18 bits\<rparr>)"

subsection \<open>The posted format\<close>

definition irte_urgent :: "irte \<Rightarrow> bool" where
  "irte_urgent e \<longleftrightarrow> irte_low e AND push_bit 14 1 \<noteq> 0"

definition with_urgent :: "bool \<Rightarrow> irte \<Rightarrow> irte" where
  "with_urgent urg e =
     e\<lparr>irte_low := (irte_low e AND NOT (push_bit 14 1)) OR push_bit 14 (ucast (of_bool urg :: u8))\<rparr>"

definition posted_addr_low :: "irte \<Rightarrow> u32" where
  "posted_addr_low e = push_bit 6 (ucast (extract_bits (irte_low e) 63 38))"

definition posted_addr_high :: "irte \<Rightarrow> u32" where
  "posted_addr_high e = ucast (extract_bits (irte_high e) 63 32)"

definition posted_descriptor_addr :: "irte \<Rightarrow> u64" where
  "posted_descriptor_addr e = push_bit 32 (ucast (posted_addr_high e)) OR ucast (posted_addr_low e)"

definition with_posted_descriptor_addr :: "u64 \<Rightarrow> irte \<Rightarrow> irte" where
  "with_posted_descriptor_addr addr e =
     e\<lparr>irte_low := (irte_low e AND NOT (push_bit 38 0x3ffffff))
           OR push_bit 38 (drop_bit 6 addr AND 0x3ffffff) OR push_bit 15 1,
       irte_high := (irte_high e AND NOT (push_bit 32 0xffffffff)) OR push_bit 32 (drop_bit 32 addr)\<rparr>"

definition irte_words :: "irte \<Rightarrow> u64 \<times> u64" where
  "irte_words e = (irte_low e, irte_high e)"

section \<open>The codecs\<close>

interpretation dlm: enum_codec delivery_mode_from_bits delivery_mode_bits 3
proof
  fix v show "delivery_mode_bits (delivery_mode_from_bits v) = take_bit 3 v"
    using mask3_cases [of v] by (auto simp: delivery_mode_from_bits_def masked_literal Let_def)
  show "delivery_mode_from_bits (take_bit 3 v) = delivery_mode_from_bits v"
    by (simp add: delivery_mode_from_bits_def masked_literal)
next
  fix e show "take_bit 3 (delivery_mode_bits e) = delivery_mode_bits e"
    by (cases e) (simp_all add: masked_literal)
qed

interpretation svt: exact_enum_codec source_validation_from_bits source_validation_bits 2
proof
  fix v show "source_validation_bits (source_validation_from_bits v) = take_bit 2 v"
    using mask2_cases [of v] by (auto simp: source_validation_from_bits_def masked_literal Let_def)
  show "source_validation_from_bits (take_bit 2 v) = source_validation_from_bits v"
    by (simp add: source_validation_from_bits_def masked_literal)
next
  fix e show "take_bit 2 (source_validation_bits e) = source_validation_bits e" by (cases e) simp_all
  show "source_validation_from_bits (source_validation_bits e) = e"
    by (cases e) (simp_all add: source_validation_from_bits_def)
qed

interpretation sq: exact_enum_codec source_qualifier_from_bits source_qualifier_bits 2
proof
  fix v show "source_qualifier_bits (source_qualifier_from_bits v) = take_bit 2 v"
    using mask2_cases [of v] by (auto simp: source_qualifier_from_bits_def masked_literal Let_def)
  show "source_qualifier_from_bits (take_bit 2 v) = source_qualifier_from_bits v"
    by (simp add: source_qualifier_from_bits_def masked_literal)
next
  fix e show "take_bit 2 (source_qualifier_bits e) = source_qualifier_bits e" by (cases e) simp_all
  show "source_qualifier_from_bits (source_qualifier_bits e) = e"
    by (cases e) (simp_all add: source_qualifier_from_bits_def)
qed

section \<open>Fields\<close>

lemma put_flag4:
  "(v AND NOT 0x10) OR push_bit 4 (ucast (of_bool b :: u8)) = put_field 4 1 (of_bool b) (v :: u64)"
proof -
  have "(0x10 :: u64) = push_bit 4 1" by simp
  then show ?thesis by (simp only: put_shapes(3))
qed

lemma irte_getters [field_shapes]:
  "irte_mode_of e = (if bit (irte_low e) 15 then Posted else Remapped)"
  "irte_present e = bit (irte_low e) 0" "irte_fault_disable e = bit (irte_low e) 1"
  "destination_mode_logical e = bit (irte_low e) 2" "redirection_hint e = bit (irte_low e) 3"
  "trigger_mode_level e = bit (irte_low e) 4"
  "irte_delivery_mode e = delivery_mode_from_bits (ucast (get_field 5 3 (irte_low e)))"
  "irte_vector e = ucast (get_field 16 8 (irte_low e))"
  "irte_destination_id e = ucast (get_field 32 32 (irte_low e))"
  "irte_source_qualifier e = source_qualifier_from_bits (ucast (get_field 16 2 (irte_high e)))"
  "irte_source_validation e = source_validation_from_bits (ucast (get_field 18 2 (irte_high e)))"
  "irte_urgent e = bit (irte_low e) 14"
  "posted_addr_high e = ucast (get_field 32 32 (irte_high e))"
  by (simp_all only: irte_mode_of_def irte_mode_from_bit_def irte_present_def irte_fault_disable_def
      destination_mode_logical_def redirection_hint_def trigger_mode_level_def irte_delivery_mode_def
      irte_vector_def irte_destination_id_def irte_source_qualifier_def irte_source_validation_def
      irte_urgent_def posted_addr_high_def flag_tests)
    (simp_all add: extract_bits_at)

lemma irte_source_id_field: "irte_source_id e = ucast (get_field 0 16 (irte_high e))"
  unfolding irte_source_id_def by (rule bit_word_eqI) (auto simp: bit_simps)

text \<open>The low half of the descriptor address is the destination id without its six lowest bits.\<close>

lemma posted_addr_low_field: "posted_addr_low e = irte_destination_id e AND NOT 0x3f"
proof -
  have "extract_bits (irte_low e) 63 38 = get_field 38 26 (irte_low e)" by (simp add: extract_bits_at)
  then show ?thesis
    unfolding posted_addr_low_def irte_getters mask_words by (simp only:) (rule bit_word_eqI, auto simp: bit_simps)
qed

lemma irte_builders [field_shapes]:
  "irte_with_present b e = e\<lparr>irte_low := put_field 0 1 (of_bool b) (irte_low e)\<rparr>"
  "with_trigger_mode_level b e = e\<lparr>irte_low := put_field 4 1 (of_bool b) (irte_low e)\<rparr>"
  "with_delivery_mode d e = e\<lparr>irte_low := put_field 5 3 (ucast (delivery_mode_bits d)) (irte_low e)\<rparr>"
  "irte_with_vector x e = e\<lparr>irte_low := put_field 16 8 (ucast x) (irte_low e)\<rparr>"
  "irte_with_destination i e = e\<lparr>irte_low := put_field 32 32 (ucast i) (irte_low e)\<rparr>"
  "irte_with_source_id s e = e\<lparr>irte_high := put_field 0 16 (ucast s) (irte_high e)\<rparr>"
  "with_source_qualifier q e = e\<lparr>irte_high := put_field 16 2 (ucast (source_qualifier_bits q)) (irte_high e)\<rparr>"
  "with_source_validation t e = e\<lparr>irte_high := put_field 18 2 (ucast (source_validation_bits t)) (irte_high e)\<rparr>"
  "with_urgent b e = e\<lparr>irte_low := put_field 14 1 (of_bool b) (irte_low e)\<rparr>"
  unfolding irte_with_present_def with_trigger_mode_level_def with_delivery_mode_def irte_with_vector_def
    irte_with_destination_def irte_with_source_id_def with_source_qualifier_def with_source_validation_def
    with_urgent_def Let_def put_flag4
  by (simp_all only: mask_words put_code dlm.to_bits_fits svt.to_bits_fits sq.to_bits_fits put_shape_simps)

lemma posted_builder [field_shapes]:
  "with_posted_descriptor_addr a e =
     e\<lparr>irte_low := put_field 15 1 1 (put_field 38 26 (drop_bit 6 a) (irte_low e)),
       irte_high := put_field 32 32 (drop_bit 32 a) (irte_high e)\<rparr>"
proof -
  have low: "(v AND NOT (push_bit 38 0x3ffffff)) OR push_bit 38 (drop_bit 6 a AND 0x3ffffff) OR push_bit 15 1
      = put_field 15 1 1 (put_field 38 26 (drop_bit 6 a) v)" for v :: u64
    unfolding mask_words or.assoc [symmetric] unfolding put_shapes set_flag ..
  have high: "(v AND NOT (push_bit 32 0xffffffff)) OR push_bit 32 (drop_bit 32 a)
      = put_field 32 32 (drop_bit 32 a) v" for v :: u64
    unfolding mask_words by (rule bit_word_eqI) (auto simp: bit_simps)
  show ?thesis unfolding with_posted_descriptor_addr_def low high ..
qed

section \<open>Accessors and builders as lenses\<close>

text \<open>Three builders whose argument fits its field exactly.\<close>

lemma irte_field_pairs:
  "irte_vector (irte_with_vector x e) = x" "irte_destination_id (irte_with_destination i e) = i"
  "irte_source_id (irte_with_source_id s e) = s"
  by (simp_all add: irte_getters irte_builders irte_source_id_field)

interpretation vector_lens: field_lens irte_vector "\<lambda>e x. irte_with_vector x e" id
  by unfold_locales (simp_all add: irte_field_pairs irte_builders irte_getters)

interpretation destination_lens: field_lens irte_destination_id "\<lambda>e i. irte_with_destination i e" id
  by unfold_locales (simp_all add: irte_field_pairs irte_builders irte_getters)

interpretation source_lens: field_lens irte_source_id "\<lambda>e s. irte_with_source_id s e" id
  by unfold_locales (simp_all add: irte_field_pairs irte_builders irte_source_id_field)

text \<open>A write changes the entry exactly when it changes the field, and only the last write counts.\<close>

lemmas irte_write_laws =
  vector_lens.put_same_iff destination_lens.put_same_iff source_lens.put_same_iff
  vector_lens.fold_last_write destination_lens.fold_last_write source_lens.fold_last_write

section \<open>The abstract view\<close>

text \<open>
  \<open>tv_dest\<close> is the destination id, whose bits 31:6 are the descriptor address bits 31:6, and
  \<open>tv_pda_high\<close> the upper half of that address.
\<close>

record irte_view =
  tv_mode :: irte_mode
  tv_present :: bool
  tv_fpd :: bool
  tv_logical :: bool
  tv_hint :: bool
  tv_level :: bool
  tv_dlm :: delivery_mode
  tv_urgent :: bool
  tv_vector :: u8
  tv_dest :: u32
  tv_pda_low :: u32
  tv_pda_high :: u32
  tv_pda :: u64
  tv_sid :: u16
  tv_sq :: source_qualifier
  tv_svt :: source_validation

definition irte_view_of :: "irte \<Rightarrow> irte_view" where
  "irte_view_of e = \<lparr>tv_mode = irte_mode_of e, tv_present = irte_present e, tv_fpd = irte_fault_disable e,
     tv_logical = destination_mode_logical e, tv_hint = redirection_hint e, tv_level = trigger_mode_level e,
     tv_dlm = irte_delivery_mode e, tv_urgent = irte_urgent e, tv_vector = irte_vector e,
     tv_dest = irte_destination_id e, tv_pda_low = posted_addr_low e, tv_pda_high = posted_addr_high e,
     tv_pda = posted_descriptor_addr e, tv_sid = irte_source_id e,
     tv_sq = irte_source_qualifier e, tv_svt = irte_source_validation e\<rparr>"

datatype irte_op =
    TePresent bool
  | TeLevel bool
  | TeDelivery delivery_mode
  | TeVector u8
  | TeDestination u32
  | TeSourceId u16
  | TeQualifier source_qualifier
  | TeValidation source_validation
  | TeUrgent bool
  | TePosted u64

fun irte_step :: "irte_op \<Rightarrow> irte \<Rightarrow> irte" where
  "irte_step (TePresent b) = irte_with_present b"
| "irte_step (TeLevel b) = with_trigger_mode_level b"
| "irte_step (TeDelivery d) = with_delivery_mode d"
| "irte_step (TeVector x) = irte_with_vector x"
| "irte_step (TeDestination i) = irte_with_destination i"
| "irte_step (TeSourceId s) = irte_with_source_id s"
| "irte_step (TeQualifier q) = with_source_qualifier q"
| "irte_step (TeValidation t) = with_source_validation t"
| "irte_step (TeUrgent b) = with_urgent b"
| "irte_step (TePosted a) = with_posted_descriptor_addr a"

text \<open>
  The destination id of the remapped format and the low half of the descriptor address of the posted format
  share bits 63:38 of the entry: the builder of either changes what both formats read there.  The only builder that
  changes the format is the descriptor address; it keeps the six low bits of the destination id, which the posted
  format does not use.
\<close>

fun irte_view_step :: "irte_op \<Rightarrow> irte_view \<Rightarrow> irte_view" where
  "irte_view_step (TePresent b) v = v\<lparr>tv_present := b\<rparr>"
| "irte_view_step (TeLevel b) v = v\<lparr>tv_level := b\<rparr>"
| "irte_view_step (TeDelivery d) v = v\<lparr>tv_dlm := delivery_mode_from_bits (delivery_mode_bits d)\<rparr>"
| "irte_view_step (TeVector x) v = v\<lparr>tv_vector := x\<rparr>"
| "irte_view_step (TeDestination i) v = v\<lparr>tv_dest := i, tv_pda_low := i AND NOT 0x3f,
     tv_pda := push_bit 32 (drop_bit 32 (tv_pda v)) OR ucast (i AND NOT 0x3f)\<rparr>"
| "irte_view_step (TeSourceId s) v = v\<lparr>tv_sid := s\<rparr>"
| "irte_view_step (TeQualifier q) v = v\<lparr>tv_sq := q\<rparr>"
| "irte_view_step (TeValidation t) v = v\<lparr>tv_svt := t\<rparr>"
| "irte_view_step (TeUrgent b) v = v\<lparr>tv_urgent := b\<rparr>"
| "irte_view_step (TePosted a) v = v\<lparr>tv_mode := Posted,
     tv_dest := (ucast a AND NOT 0x3f) OR (tv_dest v AND 0x3f), tv_pda_low := ucast a AND NOT 0x3f,
     tv_pda_high := ucast (drop_bit 32 a), tv_pda := a AND NOT 0x3f\<rparr>"

lemma posted_destination:
  "irte_destination_id (with_posted_descriptor_addr a e) =
   (ucast a AND NOT 0x3f) OR (irte_destination_id e AND 0x3f)"
  unfolding irte_getters posted_builder mask_words
  by (simp, rule bit_word_eqI, rename_tac n, case_tac "n < 6") (auto simp: bit_simps)

lemma posted_high: "posted_addr_high (with_posted_descriptor_addr a e) = ucast (drop_bit 32 a)"
  unfolding irte_getters posted_builder by simp (rule bit_word_eqI, auto simp: bit_simps)

lemma join_halves: "push_bit 32 (ucast (ucast (drop_bit 32 a) :: u32)) OR ucast (ucast a AND NOT 0x3f :: u32)
    = a AND NOT 0x3f" for a :: u64
  unfolding mask_words
  by (rule bit_word_eqI, rename_tac n, case_tac "n < 32") (auto simp: bit_simps)

lemma posted_low: "posted_addr_low (with_posted_descriptor_addr a e) = ucast a AND NOT 0x3f"
  unfolding posted_addr_low_field posted_destination by (simp add: bit.conj_disj_distrib2 and.assoc)

lemma posted_address: "posted_descriptor_addr (with_posted_descriptor_addr a e) = a AND NOT 0x3f"
  by (simp only: posted_descriptor_addr_def posted_low posted_high join_halves)

lemma posted_halves:
  "push_bit 32 (drop_bit 32 (posted_descriptor_addr e)) = push_bit 32 (ucast (posted_addr_high e))"
  unfolding posted_descriptor_addr_def by (rule bit_word_eqI) (auto simp: bit_simps dest: bit_imp_le_length)

text \<open>The other builders leave both halves of the descriptor address alone.\<close>

lemma posted_parts:
  "irte_destination_id f = irte_destination_id e \<Longrightarrow> posted_addr_high f = posted_addr_high e \<Longrightarrow>
   posted_addr_low f = posted_addr_low e \<and> posted_descriptor_addr f = posted_descriptor_addr e"
  by (simp add: posted_addr_low_field posted_descriptor_addr_def)

lemma irte_step_view: "irte_view_of (irte_step op e) = irte_view_step op (irte_view_of e)"
proof (cases op)
  case (TePosted a)
  then show ?thesis
    by (simp add: irte_view_of_def posted_destination posted_high posted_low posted_address)
      (simp add: irte_getters irte_source_id_field posted_builder)
next
  case (TeDestination i)
  have high: "posted_addr_high (irte_with_destination i e) = posted_addr_high e"
    and dest: "irte_destination_id (irte_with_destination i e) = i"
    by (simp_all add: irte_getters irte_builders)
  then show ?thesis
    using TeDestination
    by (simp add: irte_view_of_def posted_addr_low_field posted_halves)
      (simp add: posted_descriptor_addr_def posted_addr_low_field high dest, simp add: irte_getters irte_source_id_field irte_builders)
qed (use posted_parts [of "irte_step op e" e] in \<open>simp_all add: irte_view_of_def irte_getters irte_source_id_field
    irte_builders dlm.to_bits_fits svt.to_bits_fits sq.to_bits_fits svt.from_to sq.from_to\<close>)

section \<open>Properties\<close>

lemma irte_fold_view: "irte_view_of (fold irte_step ops e) = fold irte_view_step ops (irte_view_of e)"
  by (induction ops arbitrary: e) (simp_all add: irte_step_view)

text \<open>The builders that leave the descriptor address alone.\<close>

fun keeps_address :: "irte_op \<Rightarrow> bool" where
  "keeps_address (TeDestination i) = False"
| "keeps_address (TePosted a) = False"
| "keeps_address _ = True"

lemma keeps_address_view:
  "list_all keeps_address ops \<Longrightarrow>
   tv_pda (fold irte_view_step ops v) = tv_pda v \<and> tv_mode (fold irte_view_step ops v) = tv_mode v"
proof (induction ops arbitrary: v)
  case (Cons op ops)
  then show ?case by (cases op) auto
qed simp

text \<open>A posted entry returns the 64-byte aligned part of the descriptor address stored in it and says
  that it is posted, whatever other fields of the posted format are set afterwards.\<close>

lemma posted_address_roundtrip:
  assumes "list_all keeps_address ops"
  shows "posted_descriptor_addr (fold irte_step ops (with_posted_descriptor_addr a e)) = a AND NOT 0x3f \<and>
         irte_mode_of (fold irte_step ops (with_posted_descriptor_addr a e)) = Posted"
proof -
  have "irte_mode_of (with_posted_descriptor_addr a e) = Posted" by (simp add: irte_getters posted_builder)
  then show ?thesis
    using keeps_address_view [OF assms, of "irte_view_of (with_posted_descriptor_addr a e)"]
    by (simp flip: irte_fold_view) (simp add: irte_view_of_def posted_address)
qed

lemma posted_address_roundtrip_example:
  "posted_descriptor_addr (irte_with_vector 0x51 (with_posted_descriptor_addr 0x123456789abcdec0 new_remapped))
   = 0x123456789abcdec0"
  using posted_address_roundtrip [of "[TeVector 0x51]" "0x123456789abcdec0" new_remapped] by simp

section \<open>Reserved bits\<close>

text \<open>The bits that no field of either format covers: the urgent flag and the descriptor address of the posted
  format are fields, whatever the format of the entry.\<close>

definition irte_clean :: "irte \<Rightarrow> bool" where
  "irte_clean e \<longleftrightarrow> get_field 8 6 (irte_low e) = 0 \<and> get_field 24 8 (irte_low e) = 0 \<and>
     get_field 20 12 (irte_high e) = 0"

lemma irte_clean_step: "irte_clean e \<Longrightarrow> irte_clean (irte_step op e)"
  by (cases op) (simp_all add: irte_clean_def irte_builders posted_builder)

lemma irte_clean_new: "irte_clean new_remapped" "irte_clean new_posted"
  by (simp_all add: irte_clean_def new_remapped_def new_posted_def get_field_def)

end
