(* ===== verification/Intel_Fault.thy ===== *)
theory Intel_Fault
  imports Interfaces Bits
begin

text \<open>
  \<^verbatim>\<open>intel-iommu/src/fault.rs\<close>: fault reasons, their codes and their order, and the fault recording
  registers with their builders, refined by an abstract view of the accessors.
\<close>

section \<open>Fault reasons\<close>

datatype fault_reason =
    FrNoFault
  | FrRootEntryPresent
  | FrContextEntryPresent
  | FrContextEntryRsvd
  | FrContextEntryTt
  | FrPagingEntryPresent
  | FrPagingEntryRsvd
  | FrAccessBlocked
  | FrPasidDirAccess
  | FrPasidDirPresent
  | FrPasidTableAccess
  | FrPasidTablePresent
  | FrPasidTableInvalid
  | FrIrRequestRsvd
  | FrIrIndexOver
  | FrIrEntryPresent
  | FrIrRootInvalid
  | FrIrteRsvd
  | FrIrRequestCompat
  | FrIrSourceId
  | FrRtaddrInvalidTtm
  | FrSmContextEntryPresent
  | FrFsPagingEntryAccess
  | FrFsPagingEntryPresent
  | FrFsPagingEntryRsvd
  | FrFsptptrInvalid
  | FrFsNonCanonical
  | FrFsPrivilege
  | FrSmWrite
  | FrSmInterruptAddr
  | FrOther u8

definition fault_reason_from_bits :: "u8 \<Rightarrow> fault_reason" where
  "fault_reason_from_bits v =
     (if v = 0x00 then FrNoFault
      else if v = 0x01 then FrRootEntryPresent
      else if v = 0x02 then FrContextEntryPresent
      else if v = 0x03 then FrContextEntryRsvd
      else if v = 0x04 then FrContextEntryTt
      else if v = 0x05 then FrPagingEntryPresent
      else if v = 0x06 then FrPagingEntryRsvd
      else if v = 0x07 then FrAccessBlocked
      else if v = 0x50 then FrPasidDirAccess
      else if v = 0x51 then FrPasidDirPresent
      else if v = 0x58 then FrPasidTableAccess
      else if v = 0x59 then FrPasidTablePresent
      else if v = 0x5b then FrPasidTableInvalid
      else if v = 0x20 then FrIrRequestRsvd
      else if v = 0x21 then FrIrIndexOver
      else if v = 0x22 then FrIrEntryPresent
      else if v = 0x23 then FrIrRootInvalid
      else if v = 0x24 then FrIrteRsvd
      else if v = 0x25 then FrIrRequestCompat
      else if v = 0x26 then FrIrSourceId
      else if v = 0x31 then FrRtaddrInvalidTtm
      else if v = 0x47 then FrSmContextEntryPresent
      else if v = 0x70 then FrFsPagingEntryAccess
      else if v = 0x71 then FrFsPagingEntryPresent
      else if v = 0x72 then FrFsPagingEntryRsvd
      else if v = 0x73 then FrFsptptrInvalid
      else if v = 0x80 then FrFsNonCanonical
      else if v = 0x81 then FrFsPrivilege
      else if v = 0x85 then FrSmWrite
      else if v = 0x87 then FrSmInterruptAddr
      else FrOther v)"

fun fault_reason_bits :: "fault_reason \<Rightarrow> u8" where
  "fault_reason_bits FrNoFault = 0x00"
| "fault_reason_bits FrRootEntryPresent = 0x01"
| "fault_reason_bits FrContextEntryPresent = 0x02"
| "fault_reason_bits FrContextEntryRsvd = 0x03"
| "fault_reason_bits FrContextEntryTt = 0x04"
| "fault_reason_bits FrPagingEntryPresent = 0x05"
| "fault_reason_bits FrPagingEntryRsvd = 0x06"
| "fault_reason_bits FrAccessBlocked = 0x07"
| "fault_reason_bits FrPasidDirAccess = 0x50"
| "fault_reason_bits FrPasidDirPresent = 0x51"
| "fault_reason_bits FrPasidTableAccess = 0x58"
| "fault_reason_bits FrPasidTablePresent = 0x59"
| "fault_reason_bits FrPasidTableInvalid = 0x5b"
| "fault_reason_bits FrIrRequestRsvd = 0x20"
| "fault_reason_bits FrIrIndexOver = 0x21"
| "fault_reason_bits FrIrEntryPresent = 0x22"
| "fault_reason_bits FrIrRootInvalid = 0x23"
| "fault_reason_bits FrIrteRsvd = 0x24"
| "fault_reason_bits FrIrRequestCompat = 0x25"
| "fault_reason_bits FrIrSourceId = 0x26"
| "fault_reason_bits FrRtaddrInvalidTtm = 0x31"
| "fault_reason_bits FrSmContextEntryPresent = 0x47"
| "fault_reason_bits FrFsPagingEntryAccess = 0x70"
| "fault_reason_bits FrFsPagingEntryPresent = 0x71"
| "fault_reason_bits FrFsPagingEntryRsvd = 0x72"
| "fault_reason_bits FrFsptptrInvalid = 0x73"
| "fault_reason_bits FrFsNonCanonical = 0x80"
| "fault_reason_bits FrFsPrivilege = 0x81"
| "fault_reason_bits FrSmWrite = 0x85"
| "fault_reason_bits FrSmInterruptAddr = 0x87"
| "fault_reason_bits (FrOther v) = v"

text \<open>
  The derived order compares discriminants, not the order of declaration, and payloads only between
  two \<open>Other\<close>s, whose discriminant follows that of the variant declared before it.
\<close>

fun fault_reason_rank :: "fault_reason \<Rightarrow> nat" where
  "fault_reason_rank (FrOther v) = 0x88 + unat v"
| "fault_reason_rank FrNoFault = 0x00"
| "fault_reason_rank FrRootEntryPresent = 0x01"
| "fault_reason_rank FrContextEntryPresent = 0x02"
| "fault_reason_rank FrContextEntryRsvd = 0x03"
| "fault_reason_rank FrContextEntryTt = 0x04"
| "fault_reason_rank FrPagingEntryPresent = 0x05"
| "fault_reason_rank FrPagingEntryRsvd = 0x06"
| "fault_reason_rank FrAccessBlocked = 0x07"
| "fault_reason_rank FrPasidDirAccess = 0x50"
| "fault_reason_rank FrPasidDirPresent = 0x51"
| "fault_reason_rank FrPasidTableAccess = 0x58"
| "fault_reason_rank FrPasidTablePresent = 0x59"
| "fault_reason_rank FrPasidTableInvalid = 0x5b"
| "fault_reason_rank FrIrRequestRsvd = 0x20"
| "fault_reason_rank FrIrIndexOver = 0x21"
| "fault_reason_rank FrIrEntryPresent = 0x22"
| "fault_reason_rank FrIrRootInvalid = 0x23"
| "fault_reason_rank FrIrteRsvd = 0x24"
| "fault_reason_rank FrIrRequestCompat = 0x25"
| "fault_reason_rank FrIrSourceId = 0x26"
| "fault_reason_rank FrRtaddrInvalidTtm = 0x31"
| "fault_reason_rank FrSmContextEntryPresent = 0x47"
| "fault_reason_rank FrFsPagingEntryAccess = 0x70"
| "fault_reason_rank FrFsPagingEntryPresent = 0x71"
| "fault_reason_rank FrFsPagingEntryRsvd = 0x72"
| "fault_reason_rank FrFsptptrInvalid = 0x73"
| "fault_reason_rank FrFsNonCanonical = 0x80"
| "fault_reason_rank FrFsPrivilege = 0x81"
| "fault_reason_rank FrSmWrite = 0x85"
| "fault_reason_rank FrSmInterruptAddr = 0x87"

text \<open>The variants with a code of their own.\<close>

definition named_reasons :: "fault_reason list" where
  "named_reasons =
     [FrNoFault, FrRootEntryPresent, FrContextEntryPresent, FrContextEntryRsvd,
      FrContextEntryTt, FrPagingEntryPresent, FrPagingEntryRsvd, FrAccessBlocked,
      FrPasidDirAccess, FrPasidDirPresent, FrPasidTableAccess, FrPasidTablePresent,
      FrPasidTableInvalid, FrIrRequestRsvd, FrIrIndexOver, FrIrEntryPresent,
      FrIrRootInvalid, FrIrteRsvd, FrIrRequestCompat, FrIrSourceId,
      FrRtaddrInvalidTtm, FrSmContextEntryPresent, FrFsPagingEntryAccess, FrFsPagingEntryPresent,
      FrFsPagingEntryRsvd, FrFsptptrInvalid, FrFsNonCanonical, FrFsPrivilege,
      FrSmWrite, FrSmInterruptAddr]"

lemma named_or_other: "r \<in> set named_reasons \<or> (\<exists>v. r = FrOther v)"
  by (cases r) (simp_all add: named_reasons_def)

lemma named_codes_distinct: "distinct (map fault_reason_bits named_reasons)"
  by (simp add: named_reasons_def)

lemma named_codes_small: "r \<in> set named_reasons \<Longrightarrow> unat (fault_reason_bits r) < 0x88"
  by (auto simp: named_reasons_def)

lemma other_not_named: "FrOther v \<notin> set named_reasons"
  by (simp add: named_reasons_def)

lemma rank_named: "r \<in> set named_reasons \<Longrightarrow> fault_reason_rank r = unat (fault_reason_bits r)"
  by (auto simp: named_reasons_def)

lemma named_codes_inj:
  "q \<in> set named_reasons \<Longrightarrow> r \<in> set named_reasons \<Longrightarrow> fault_reason_bits q = fault_reason_bits r \<Longrightarrow> q = r"
  using named_codes_distinct by (simp add: distinct_map inj_on_def)

lemma fault_reason_rank_inj: "fault_reason_rank q = fault_reason_rank r \<Longrightarrow> q = r"
proof -
  assume eq: "fault_reason_rank q = fault_reason_rank r"
  consider "q \<in> set named_reasons" "r \<in> set named_reasons" | v where "q = FrOther v" | v where "r = FrOther v"
    using named_or_other by blast
  then show ?thesis
  proof cases
    case 1
    then show ?thesis using eq by (simp add: rank_named named_codes_inj word_unat_eq_iff)
  next
    case 2
    then show ?thesis using eq named_or_other [of r] named_codes_small [of r]
      by (auto simp: rank_named word_unat_eq_iff)
  next
    case 3
    then show ?thesis using eq named_or_other [of q] named_codes_small [of q]
      by (auto simp: rank_named word_unat_eq_iff)
  qed
qed

instantiation fault_reason :: linorder
begin

definition less_eq_fault_reason :: "fault_reason \<Rightarrow> fault_reason \<Rightarrow> bool" where
  "q \<le> r \<longleftrightarrow> fault_reason_rank q \<le> fault_reason_rank r"

definition less_fault_reason :: "fault_reason \<Rightarrow> fault_reason \<Rightarrow> bool" where
  "q < r \<longleftrightarrow> fault_reason_rank q < fault_reason_rank r"

instance
  by standard (auto simp: less_eq_fault_reason_def less_fault_reason_def intro: fault_reason_rank_inj)

end

lemma reason_decode_named: "r \<in> set named_reasons \<Longrightarrow> fault_reason_from_bits (fault_reason_bits r) = r"
  by (cases r) (simp_all add: fault_reason_from_bits_def other_not_named)

lemma reason_decode_other:
  "v \<notin> fault_reason_bits ` set named_reasons \<Longrightarrow> fault_reason_from_bits v = FrOther v"
  by (simp add: named_reasons_def fault_reason_from_bits_def)

lemma reason_to_from: "fault_reason_bits (fault_reason_from_bits v) = v"
proof (cases "v \<in> fault_reason_bits ` set named_reasons")
  case True
  then show ?thesis using reason_decode_named by auto
next
  case False
  then show ?thesis using reason_decode_other by simp
qed

interpretation reason: enum_codec fault_reason_from_bits fault_reason_bits 8
  by unfold_locales (simp_all add: reason_to_from)

section \<open>Address types\<close>

datatype fault_addr_type =
    FaDefault
  | FaTranslationRequest
  | FaTranslated
  | FaReserved

definition addr_type_from_bits :: "u8 \<Rightarrow> fault_addr_type" where
  "addr_type_from_bits v =
     (let m = v AND 0x3 in
      if m = 0 then FaDefault
      else if m = 1 then FaTranslationRequest
      else if m = 2 then FaTranslated
      else FaReserved)"

fun addr_type_bits :: "fault_addr_type \<Rightarrow> u8" where
  "addr_type_bits FaDefault = 0"
| "addr_type_bits FaTranslationRequest = 1"
| "addr_type_bits FaTranslated = 2"
| "addr_type_bits FaReserved = 3"

interpretation addr_type: exact_enum_codec addr_type_from_bits addr_type_bits 2
proof
  fix v show "addr_type_bits (addr_type_from_bits v) = take_bit 2 v"
    using mask2_cases [of v] by (auto simp: addr_type_from_bits_def masked_literal Let_def)
  show "addr_type_from_bits (take_bit 2 v) = addr_type_from_bits v"
    by (simp add: addr_type_from_bits_def masked_literal)
next
  fix e show "take_bit 2 (addr_type_bits e) = addr_type_bits e" by (cases e) simp_all
  show "addr_type_from_bits (addr_type_bits e) = e" by (cases e) (simp_all add: addr_type_from_bits_def)
qed

section \<open>Fault recording registers\<close>

record fault_record =
  fr_low :: u64
  fr_high :: u64

definition fr_new :: fault_record where
  "fr_new = \<lparr>fr_low = 0, fr_high = 0\<rparr>"

definition fr_fault :: "fault_record \<Rightarrow> bool" where
  "fr_fault r \<longleftrightarrow> fr_high r AND push_bit 63 1 \<noteq> 0"

definition fr_with_fault :: "bool \<Rightarrow> fault_record \<Rightarrow> fault_record" where
  "fr_with_fault f r =
     r\<lparr>fr_high := (fr_high r AND NOT (push_bit 63 1)) OR push_bit 63 (ucast (of_bool f :: u8))\<rparr>"

definition fr_reason :: "fault_record \<Rightarrow> fault_reason" where
  "fr_reason r = fault_reason_from_bits (ucast (extract_bits (fr_high r) 39 32))"

definition fr_with_reason :: "fault_reason \<Rightarrow> fault_record \<Rightarrow> fault_record" where
  "fr_with_reason fr r =
     (let bits = ucast (fault_reason_bits fr)
      in r\<lparr>fr_high := (fr_high r AND NOT (push_bit 32 0xff)) OR push_bit 32 bits\<rparr>)"

definition fr_source_id :: "fault_record \<Rightarrow> u16" where
  "fr_source_id r = ucast (fr_high r)"

definition fr_with_source_id :: "u16 \<Rightarrow> fault_record \<Rightarrow> fault_record" where
  "fr_with_source_id sid r = r\<lparr>fr_high := (fr_high r AND NOT 0xffff) OR ucast sid\<rparr>"

definition fr_fault_info :: "fault_record \<Rightarrow> u64" where
  "fr_fault_info r = fr_low r AND NOT 0xfff"

definition fr_with_fault_info :: "u64 \<Rightarrow> fault_record \<Rightarrow> fault_record" where
  "fr_with_fault_info fi r = r\<lparr>fr_low := (fr_low r AND 0xfff) OR (fi AND NOT 0xfff)\<rparr>"

definition fr_pasid_present :: "fault_record \<Rightarrow> bool" where
  "fr_pasid_present r \<longleftrightarrow> fr_high r AND push_bit 31 1 \<noteq> 0"

definition fr_pasid :: "fault_record \<Rightarrow> u32" where
  "fr_pasid r = ucast (extract_bits (fr_high r) 59 40)"

definition fr_with_pasid :: "u32 \<Rightarrow> fault_record \<Rightarrow> fault_record" where
  "fr_with_pasid pasid r =
     (let r = r\<lparr>fr_high := (fr_high r AND NOT (push_bit 40 0xfffff)) OR push_bit 40 (ucast (pasid AND 0xfffff))\<rparr>
      in r\<lparr>fr_high := fr_high r OR push_bit 31 1\<rparr>)"

definition fr_privilege_requested :: "fault_record \<Rightarrow> bool" where
  "fr_privilege_requested r \<longleftrightarrow> fr_high r AND push_bit 30 1 \<noteq> 0"

definition fr_execute_requested :: "fault_record \<Rightarrow> bool" where
  "fr_execute_requested r \<longleftrightarrow> fr_high r AND push_bit 29 1 \<noteq> 0"

definition fr_addr_type :: "fault_record \<Rightarrow> fault_addr_type" where
  "fr_addr_type r = addr_type_from_bits (ucast (extract_bits (fr_high r) 61 60))"

definition fr_with_addr_type :: "fault_addr_type \<Rightarrow> fault_record \<Rightarrow> fault_record" where
  "fr_with_addr_type ty r =
     (let bits = ucast (addr_type_bits ty)
      in r\<lparr>fr_high := (fr_high r AND NOT (push_bit 60 0x3)) OR push_bit 60 bits\<rparr>)"

definition fr_words :: "fault_record \<Rightarrow> u64 \<times> u64" where
  "fr_words r = (fr_low r, fr_high r)"

definition fr_from_words :: "u64 \<Rightarrow> u64 \<Rightarrow> fault_record" where
  "fr_from_words low high = \<lparr>fr_low = low, fr_high = high\<rparr>"

section \<open>Fields\<close>

lemma fr_getters [field_shapes]:
  "fr_fault r = bit (fr_high r) 63"
  "fr_reason r = fault_reason_from_bits (ucast (get_field 32 8 (fr_high r)))"
  "fr_fault_info r = push_bit 12 (get_field 12 52 (fr_low r))"
  "fr_pasid_present r = bit (fr_high r) 31" "fr_pasid r = ucast (get_field 40 20 (fr_high r))"
  "fr_privilege_requested r = bit (fr_high r) 30" "fr_execute_requested r = bit (fr_high r) 29"
  "fr_addr_type r = addr_type_from_bits (ucast (get_field 60 2 (fr_high r)))"
  by (simp_all only: fr_fault_def fr_reason_def fr_fault_info_def fr_pasid_present_def fr_pasid_def
      fr_privilege_requested_def fr_execute_requested_def fr_addr_type_def flag_tests page_frame page_frame_negative)
    (simp_all add: extract_bits_at)

lemma fr_source_id_field: "fr_source_id r = ucast (get_field 0 16 (fr_high r))"
  unfolding fr_source_id_def by (rule bit_word_eqI) (auto simp: bit_simps)

lemma fr_builders [field_shapes]:
  "fr_with_fault b r = r\<lparr>fr_high := put_field 63 1 (of_bool b) (fr_high r)\<rparr>"
  "fr_with_reason c r = r\<lparr>fr_high := put_field 32 8 (ucast (fault_reason_bits c)) (fr_high r)\<rparr>"
  "fr_with_source_id s r = r\<lparr>fr_high := put_field 0 16 (ucast s) (fr_high r)\<rparr>"
  "fr_with_fault_info a r = r\<lparr>fr_low := put_field 12 52 (drop_bit 12 a) (fr_low r)\<rparr>"
  "fr_with_addr_type t r = r\<lparr>fr_high := put_field 60 2 (ucast (addr_type_bits t)) (fr_high r)\<rparr>"
  unfolding fr_with_fault_def fr_with_reason_def fr_with_source_id_def fr_with_fault_info_def
    fr_with_addr_type_def page_frame_put Let_def
  by (simp_all only: mask_words put_code addr_type.to_bits_fits reason.to_bits_fits put_shape_simps)

lemma fr_pasid_builder [field_shapes]:
  "fr_with_pasid i r = r\<lparr>fr_high := put_field 31 1 1 (put_field 40 20 (ucast i) (fr_high r))\<rparr>"
  unfolding fr_with_pasid_def Let_def mask_words put_shapes set_flag by simp

section \<open>The abstract view\<close>

record fr_view =
  fv_fault :: bool
  fv_reason :: fault_reason
  fv_sid :: u16
  fv_info :: u64
  fv_pasid :: "bool \<times> u32"
  fv_priv :: bool
  fv_exec :: bool
  fv_type :: fault_addr_type

definition fr_view_of :: "fault_record \<Rightarrow> fr_view" where
  "fr_view_of r = \<lparr>fv_fault = fr_fault r, fv_reason = fr_reason r, fv_sid = fr_source_id r,
     fv_info = fr_fault_info r, fv_pasid = (fr_pasid_present r, fr_pasid r),
     fv_priv = fr_privilege_requested r, fv_exec = fr_execute_requested r, fv_type = fr_addr_type r\<rparr>"

datatype fr_op =
    FrFault bool
  | FrReason fault_reason
  | FrSource u16
  | FrInfo u64
  | FrPasid u32
  | FrType fault_addr_type

fun fr_step :: "fr_op \<Rightarrow> fault_record \<Rightarrow> fault_record" where
  "fr_step (FrFault b) = fr_with_fault b"
| "fr_step (FrReason c) = fr_with_reason c"
| "fr_step (FrSource s) = fr_with_source_id s"
| "fr_step (FrInfo a) = fr_with_fault_info a"
| "fr_step (FrPasid i) = fr_with_pasid i"
| "fr_step (FrType t) = fr_with_addr_type t"

text \<open>An \<open>Other\<close> that carries the code of a named reason is read back as that reason.\<close>

definition canonical_reason :: "fault_reason \<Rightarrow> fault_reason" where
  "canonical_reason c = fault_reason_from_bits (fault_reason_bits c)"

fun fr_view_step :: "fr_op \<Rightarrow> fr_view \<Rightarrow> fr_view" where
  "fr_view_step (FrFault b) v = v\<lparr>fv_fault := b\<rparr>"
| "fr_view_step (FrReason c) v = v\<lparr>fv_reason := canonical_reason c\<rparr>"
| "fr_view_step (FrSource s) v = v\<lparr>fv_sid := s\<rparr>"
| "fr_view_step (FrInfo a) v = v\<lparr>fv_info := a AND NOT 0xfff\<rparr>"
| "fr_view_step (FrPasid i) v = v\<lparr>fv_pasid := (True, take_bit 20 i)\<rparr>"
| "fr_view_step (FrType t) v = v\<lparr>fv_type := t\<rparr>"

lemma fr_step_view: "fr_view_of (fr_step op r) = fr_view_step op (fr_view_of r)"
  by (cases op) (simp_all add: fr_view_of_def fr_getters fr_builders fr_pasid_builder fr_source_id_field
      page_frame page_frame_negative addr_type.from_to addr_type.to_bits_fits reason.to_bits_fits canonical_reason_def, simp_all add: get_field_def)

lemma canonical_fixpoint: "canonical_reason c = c \<longleftrightarrow> (\<forall>v. c = FrOther v \<longrightarrow> v \<notin> fault_reason_bits ` set named_reasons)"
proof (cases "c \<in> set named_reasons")
  case True
  then show ?thesis using other_not_named by (auto simp: canonical_reason_def reason_decode_named)
next
  case False
  then obtain v where c: "c = FrOther v" using named_or_other by blast
  show ?thesis
  proof (cases "v \<in> fault_reason_bits ` set named_reasons")
    case True
    then obtain r where "r \<in> set named_reasons" "v = fault_reason_bits r" by auto
    then show ?thesis using other_not_named by (metis c canonical_reason_def fault_reason_bits.simps(31) image_eqI reason_decode_named)
  next
    case False
    then show ?thesis by (simp add: c canonical_reason_def reason_decode_other)
  qed
qed

section \<open>Properties\<close>

text \<open>C29: Whatever sequence of builders is applied to a fault recording register, every accessor returns
  what was stored last for its field (the reason up to its canonical variant, the fault info by page, the
  PASID by its low 20 bits, setting its present flag), and the words of the record decode to it.\<close>

theorem fault_record_builders_refine:
  "fr_view_of (fold fr_step ops r) = fold fr_view_step ops (fr_view_of r) \<and>
   case_prod fr_from_words (fr_words r) = r"
  by (induction ops arbitrary: r) (simp_all add: fr_step_view fr_from_words_def fr_words_def)

text \<open>Fault reasons and their codes: every byte is the code of the reason decoded from it; a reason is
  read back unchanged exactly when it is not an \<open>Other\<close> that carries the code of a named reason; and the
  named reasons are ordered as their codes, all of them before every \<open>Other\<close>.\<close>

lemma fault_reason_codes:
  "fault_reason_bits (fault_reason_from_bits v) = v \<and>
   (fault_reason_from_bits (fault_reason_bits c) = c \<longleftrightarrow>
      c \<notin> FrOther ` fault_reason_bits ` set named_reasons) \<and>
   (\<forall>q \<in> set named_reasons. \<forall>r \<in> set named_reasons. q < r \<longleftrightarrow> fault_reason_bits q < fault_reason_bits r) \<and>
   (\<forall>q \<in> set named_reasons. q < FrOther v)"
proof -
  have "q < r \<longleftrightarrow> fault_reason_bits q < fault_reason_bits r"
    if "q \<in> set named_reasons" "r \<in> set named_reasons" for q r
    using that by (simp add: less_fault_reason_def rank_named word_less_nat_alt)
  moreover have "q < FrOther v" if "q \<in> set named_reasons" for q
    using that named_codes_small [of q] by (simp add: less_fault_reason_def rank_named)
  ultimately show ?thesis
    using canonical_fixpoint [of c] by (auto simp: reason_to_from canonical_reason_def)
qed

lemma fault_reason_codes_example:
  "FrIrRequestRsvd < FrPasidDirAccess \<and> FrSmInterruptAddr < FrOther 0 \<and>
   fault_reason_from_bits (fault_reason_bits (FrOther 0x06)) \<noteq> FrOther 0x06"
  using fault_reason_codes [of 0 "FrOther 0x06"] by (simp add: named_reasons_def)

end
