(* ===== verification/Intel_Regs.thy ===== *)
theory Intel_Regs
  imports Bits
begin

text \<open>
  \<^verbatim>\<open>intel-iommu/src/regs.rs\<close>: the register map, the two capability registers, the command and status
  words, and the layout of the fixed register block.  Tables of constants are association lists from the
  names of the source to their values.
\<close>

section \<open>Register offsets\<close>

definition INTEL_OFFSETS :: "(string \<times> u64) list" where
  "INTEL_OFFSETS =
     [(''VER'', 0), (''CAP'', 0x8), (''ECAP'', 0x10), (''GCMD'', 0x18),
      (''GSTS'', 0x1c), (''RTADDR'', 0x20), (''CCMD'', 0x28), (''FSTS'', 0x34),
      (''FECTL'', 0x38), (''FEDATA'', 0x3c), (''FEADDR'', 0x40), (''FEUADDR'', 0x44),
      (''PMEN'', 0x64), (''PLMBAS'', 0x68), (''PLMLIMIT'', 0x6c), (''PHMBAS'', 0x70),
      (''PHMLIMIT'', 0x78), (''IQH'', 0x80), (''IQT'', 0x88), (''IQA'', 0x90),
      (''ICS'', 0x9c), (''IECTL'', 0xa0), (''IEDATA'', 0xa4), (''IEADDR'', 0xa8),
      (''IEUADDR'', 0xac), (''IQERCD'', 0xb0), (''IRTA'', 0xb8), (''PQH'', 0xc0),
      (''PQT'', 0xc8), (''PQA'', 0xd0), (''PQS'', 0xdc), (''PECTL'', 0xe0),
      (''PEDATA'', 0xe4), (''PEADDR'', 0xe8), (''PEUADDR'', 0xec), (''MTRRCAP'', 0x100),
      (''MTRRDEF'', 0x108), (''MTRR_PHYSBASE0'', 0x180), (''MTRR_PHYSMASK0'', 0x188), (''PERFCAP'', 0x300),
      (''ECMD'', 0x400), (''ECEO'', 0x408), (''ECRSP'', 0x410), (''ECCAP'', 0x430),
      (''VCMD'', 0x440), (''VCEO'', 0x448), (''VCRSP'', 0x450), (''VCCAP'', 0x458)]"

definition QUEUE_ENTRY_SHIFT :: u32 where
  "QUEUE_ENTRY_SHIFT = 4"

section \<open>The capability register\<close>

datatype cap = Cap (cap_raw: u64)

definition cap_new :: "u64 \<Rightarrow> cap" where
  "cap_new raw = Cap raw"

text \<open>The shift and the increments are checked as the debug profile checks them.\<close>

definition cap_domain_ids :: "cap \<Rightarrow> u32 run" where
  "cap_domain_ids c = shl_chk 1 (unat (4 + 2 * ucast (extract_bits (cap_raw c) 2 0) :: u32))"

definition cap_rwbf :: "cap \<Rightarrow> bool" where
  "cap_rwbf c \<longleftrightarrow> extract_bits (cap_raw c) 4 4 \<noteq> 0"

definition cap_plmr :: "cap \<Rightarrow> bool" where
  "cap_plmr c \<longleftrightarrow> extract_bits (cap_raw c) 5 5 \<noteq> 0"

definition cap_phmr :: "cap \<Rightarrow> bool" where
  "cap_phmr c \<longleftrightarrow> extract_bits (cap_raw c) 6 6 \<noteq> 0"

definition cap_caching_mode :: "cap \<Rightarrow> bool" where
  "cap_caching_mode c \<longleftrightarrow> extract_bits (cap_raw c) 7 7 \<noteq> 0"

definition cap_sagaw :: "cap \<Rightarrow> u8" where
  "cap_sagaw c = ucast (extract_bits (cap_raw c) 12 8)"

definition cap_mgaw :: "cap \<Rightarrow> u32 run" where
  "cap_mgaw c = add_chk (ucast (extract_bits (cap_raw c) 21 16)) 1"

definition cap_zlr :: "cap \<Rightarrow> bool" where
  "cap_zlr c \<longleftrightarrow> extract_bits (cap_raw c) 22 22 \<noteq> 0"

definition cap_dep :: "cap \<Rightarrow> bool" where
  "cap_dep c \<longleftrightarrow> extract_bits (cap_raw c) 23 23 \<noteq> 0"

definition cap_fault_rec_offset_raw :: "cap \<Rightarrow> u16" where
  "cap_fault_rec_offset_raw c = ucast (extract_bits (cap_raw c) 33 24)"

definition cap_sslps :: "cap \<Rightarrow> u8" where
  "cap_sslps c = ucast (extract_bits (cap_raw c) 37 34)"

definition cap_page_selective_inval :: "cap \<Rightarrow> bool" where
  "cap_page_selective_inval c \<longleftrightarrow> extract_bits (cap_raw c) 39 39 \<noteq> 0"

definition cap_num_fault_regs :: "cap \<Rightarrow> u16 run" where
  "cap_num_fault_regs c = add_chk (ucast (extract_bits (cap_raw c) 47 40)) 1"

definition cap_max_amask_value :: "cap \<Rightarrow> u8" where
  "cap_max_amask_value c = ucast (extract_bits (cap_raw c) 53 48)"

definition cap_write_drain :: "cap \<Rightarrow> bool" where
  "cap_write_drain c \<longleftrightarrow> extract_bits (cap_raw c) 54 54 \<noteq> 0"

definition cap_read_drain :: "cap \<Rightarrow> bool" where
  "cap_read_drain c \<longleftrightarrow> extract_bits (cap_raw c) 55 55 \<noteq> 0"

definition cap_fs_1g_pages :: "cap \<Rightarrow> bool" where
  "cap_fs_1g_pages c \<longleftrightarrow> extract_bits (cap_raw c) 56 56 \<noteq> 0"

definition cap_posted_interrupts :: "cap \<Rightarrow> bool" where
  "cap_posted_interrupts c \<longleftrightarrow> extract_bits (cap_raw c) 59 59 \<noteq> 0"

definition cap_fs_5level :: "cap \<Rightarrow> bool" where
  "cap_fs_5level c \<longleftrightarrow> extract_bits (cap_raw c) 60 60 \<noteq> 0"

definition cap_enhanced_commands :: "cap \<Rightarrow> bool" where
  "cap_enhanced_commands c \<longleftrightarrow> extract_bits (cap_raw c) 61 61 \<noteq> 0"

definition cap_esirtps :: "cap \<Rightarrow> bool" where
  "cap_esirtps c \<longleftrightarrow> extract_bits (cap_raw c) 62 62 \<noteq> 0"

definition cap_esrtps :: "cap \<Rightarrow> bool" where
  "cap_esrtps c \<longleftrightarrow> extract_bits (cap_raw c) 63 63 \<noteq> 0"

section \<open>The extended capability register\<close>

datatype ecap = Ecap (ecap_raw: u64)

definition ecap_new :: "u64 \<Rightarrow> ecap" where
  "ecap_new raw = Ecap raw"

definition ecap_coherent :: "ecap \<Rightarrow> bool" where
  "ecap_coherent c \<longleftrightarrow> extract_bits (ecap_raw c) 0 0 \<noteq> 0"

definition ecap_queued_inval :: "ecap \<Rightarrow> bool" where
  "ecap_queued_inval c \<longleftrightarrow> extract_bits (ecap_raw c) 1 1 \<noteq> 0"

definition ecap_dev_tlb :: "ecap \<Rightarrow> bool" where
  "ecap_dev_tlb c \<longleftrightarrow> extract_bits (ecap_raw c) 2 2 \<noteq> 0"

definition ecap_intr_remap :: "ecap \<Rightarrow> bool" where
  "ecap_intr_remap c \<longleftrightarrow> extract_bits (ecap_raw c) 3 3 \<noteq> 0"

definition ecap_extended_intr_mode :: "ecap \<Rightarrow> bool" where
  "ecap_extended_intr_mode c \<longleftrightarrow> extract_bits (ecap_raw c) 4 4 \<noteq> 0"

definition ecap_pass_through :: "ecap \<Rightarrow> bool" where
  "ecap_pass_through c \<longleftrightarrow> extract_bits (ecap_raw c) 6 6 \<noteq> 0"

definition ecap_snoop_control :: "ecap \<Rightarrow> bool" where
  "ecap_snoop_control c \<longleftrightarrow> extract_bits (ecap_raw c) 7 7 \<noteq> 0"

definition ecap_iotlb_offset_raw :: "ecap \<Rightarrow> u16" where
  "ecap_iotlb_offset_raw c = ucast (extract_bits (ecap_raw c) 17 8)"

definition ecap_max_handle_mask :: "ecap \<Rightarrow> u8" where
  "ecap_max_handle_mask c = ucast (extract_bits (ecap_raw c) 23 20)"

definition ecap_memory_type :: "ecap \<Rightarrow> bool" where
  "ecap_memory_type c \<longleftrightarrow> extract_bits (ecap_raw c) 25 25 \<noteq> 0"

definition ecap_nested :: "ecap \<Rightarrow> bool" where
  "ecap_nested c \<longleftrightarrow> extract_bits (ecap_raw c) 26 26 \<noteq> 0"

definition ecap_deferred_inval :: "ecap \<Rightarrow> bool" where
  "ecap_deferred_inval c \<longleftrightarrow> extract_bits (ecap_raw c) 27 27 \<noteq> 0"

definition ecap_page_requests :: "ecap \<Rightarrow> bool" where
  "ecap_page_requests c \<longleftrightarrow> extract_bits (ecap_raw c) 29 29 \<noteq> 0"

definition ecap_execute_requests :: "ecap \<Rightarrow> bool" where
  "ecap_execute_requests c \<longleftrightarrow> extract_bits (ecap_raw c) 30 30 \<noteq> 0"

definition ecap_supervisor_requests :: "ecap \<Rightarrow> bool" where
  "ecap_supervisor_requests c \<longleftrightarrow> extract_bits (ecap_raw c) 31 31 \<noteq> 0"

definition ecap_no_write_flag :: "ecap \<Rightarrow> bool" where
  "ecap_no_write_flag c \<longleftrightarrow> extract_bits (ecap_raw c) 33 33 \<noteq> 0"

definition ecap_extended_accessed_flag :: "ecap \<Rightarrow> bool" where
  "ecap_extended_accessed_flag c \<longleftrightarrow> extract_bits (ecap_raw c) 34 34 \<noteq> 0"

definition ecap_pasid_size :: "ecap \<Rightarrow> u8" where
  "ecap_pasid_size c = ucast (extract_bits (ecap_raw c) 39 35)"

definition ecap_pasid :: "ecap \<Rightarrow> bool" where
  "ecap_pasid c \<longleftrightarrow> extract_bits (ecap_raw c) 40 40 \<noteq> 0"

definition ecap_devtlb_inval_throttle :: "ecap \<Rightarrow> bool" where
  "ecap_devtlb_inval_throttle c \<longleftrightarrow> extract_bits (ecap_raw c) 41 41 \<noteq> 0"

definition ecap_pasid_devtlb :: "ecap \<Rightarrow> bool" where
  "ecap_pasid_devtlb c \<longleftrightarrow> extract_bits (ecap_raw c) 42 42 \<noteq> 0"

definition ecap_scalable_mode :: "ecap \<Rightarrow> bool" where
  "ecap_scalable_mode c \<longleftrightarrow> extract_bits (ecap_raw c) 43 43 \<noteq> 0"

definition ecap_virtual_commands :: "ecap \<Rightarrow> bool" where
  "ecap_virtual_commands c \<longleftrightarrow> extract_bits (ecap_raw c) 44 44 \<noteq> 0"

definition ecap_ss_accessed_dirty :: "ecap \<Rightarrow> bool" where
  "ecap_ss_accessed_dirty c \<longleftrightarrow> extract_bits (ecap_raw c) 45 45 \<noteq> 0"

definition ecap_second_stage :: "ecap \<Rightarrow> bool" where
  "ecap_second_stage c \<longleftrightarrow> extract_bits (ecap_raw c) 46 46 \<noteq> 0"

definition ecap_first_stage :: "ecap \<Rightarrow> bool" where
  "ecap_first_stage c \<longleftrightarrow> extract_bits (ecap_raw c) 47 47 \<noteq> 0"

definition ecap_sm_page_walk_coherency :: "ecap \<Rightarrow> bool" where
  "ecap_sm_page_walk_coherency c \<longleftrightarrow> extract_bits (ecap_raw c) 48 48 \<noteq> 0"

definition ecap_rid_pasid :: "ecap \<Rightarrow> bool" where
  "ecap_rid_pasid c \<longleftrightarrow> extract_bits (ecap_raw c) 49 49 \<noteq> 0"

definition ecap_tdx_connect :: "ecap \<Rightarrow> bool" where
  "ecap_tdx_connect c \<longleftrightarrow> extract_bits (ecap_raw c) 50 50 \<noteq> 0"

definition ecap_perf_monitoring :: "ecap \<Rightarrow> bool" where
  "ecap_perf_monitoring c \<longleftrightarrow> extract_bits (ecap_raw c) 51 51 \<noteq> 0"

definition ecap_abort_dma_mode :: "ecap \<Rightarrow> bool" where
  "ecap_abort_dma_mode c \<longleftrightarrow> extract_bits (ecap_raw c) 52 52 \<noteq> 0"

definition ecap_rid_priv :: "ecap \<Rightarrow> bool" where
  "ecap_rid_priv c \<longleftrightarrow> extract_bits (ecap_raw c) 53 53 \<noteq> 0"

definition ecap_host_permission_table :: "ecap \<Rightarrow> bool" where
  "ecap_host_permission_table c \<longleftrightarrow> extract_bits (ecap_raw c) 55 55 \<noteq> 0"

definition ecap_pasid_translated :: "ecap \<Rightarrow> bool" where
  "ecap_pasid_translated c \<longleftrightarrow> extract_bits (ecap_raw c) 56 56 \<noteq> 0"

definition ecap_ss_io_rw_bits :: "ecap \<Rightarrow> bool" where
  "ecap_ss_io_rw_bits c \<longleftrightarrow> extract_bits (ecap_raw c) 57 57 \<noteq> 0"

definition ecap_stop_marker :: "ecap \<Rightarrow> bool" where
  "ecap_stop_marker c \<longleftrightarrow> extract_bits (ecap_raw c) 58 58 \<noteq> 0"

definition ecap_hpt_1g_pages :: "ecap \<Rightarrow> bool" where
  "ecap_hpt_1g_pages c \<longleftrightarrow> extract_bits (ecap_raw c) 59 59 \<noteq> 0"

definition ecap_rdt_config :: "ecap \<Rightarrow> bool" where
  "ecap_rdt_config c \<longleftrightarrow> extract_bits (ecap_raw c) 60 60 \<noteq> 0"

definition ecap_eim_required :: "ecap \<Rightarrow> bool" where
  "ecap_eim_required c \<longleftrightarrow> extract_bits (ecap_raw c) 61 61 \<noteq> 0"

definition ecap_ir_required :: "ecap \<Rightarrow> bool" where
  "ecap_ir_required c \<longleftrightarrow> extract_bits (ecap_raw c) 62 62 \<noteq> 0"

section \<open>Offsets that depend on the capabilities\<close>

definition iotlb_offset :: "ecap \<Rightarrow> u64 \<times> u64" where
  "iotlb_offset e = (let iva = push_bit 4 (extract_bits (ecap_raw e) 17 8) in (iva, iva + 8))"

definition fault_rec_offset :: "cap \<Rightarrow> u16 \<Rightarrow> u64" where
  "fault_rec_offset c n = push_bit 4 (extract_bits (cap_raw c) 33 24) + ucast n * 16"

section \<open>Global command and status\<close>

definition GCMD_FLAGS :: "(string \<times> u32) list" where
  "GCMD_FLAGS =
     [(''ENABLE'', push_bit 31 1), (''SRTP'', push_bit 30 1), (''SFL'', push_bit 29 1),
      (''WBF'', push_bit 28 1), (''EA'', push_bit 27 1), (''QIE'', push_bit 26 1),
      (''IRE'', push_bit 25 1), (''SIRTP'', push_bit 24 1), (''CFI'', push_bit 23 1)]"

definition GSTS_FLAGS :: "(string \<times> u32) list" where
  "GSTS_FLAGS =
     [(''TES'', push_bit 31 1), (''RTPS'', push_bit 30 1), (''FLS'', push_bit 29 1),
      (''WBFS'', push_bit 28 1), (''EAS'', push_bit 27 1), (''QIES'', push_bit 26 1),
      (''IRES'', push_bit 25 1), (''IRTPS'', push_bit 24 1), (''CFIS'', push_bit 23 1)]"

record version =
  ver_major :: u8
  ver_minor :: u8

definition version_new :: "u32 \<Rightarrow> version" where
  "version_new raw = \<lparr>ver_major = ucast (drop_bit 4 (raw AND 0xf0)), ver_minor = ucast (raw AND 0x0f)\<rparr>"

section \<open>Register words\<close>

datatype table_mode = TmLegacy | TmScalable | TmAbortDma | TmReserved

datatype rtaddr = Rtaddr (rtaddr_raw: u64)

definition rtaddr_table_mode :: "rtaddr \<Rightarrow> table_mode" where
  "rtaddr_table_mode r =
     (let m = extract_bits (rtaddr_raw r) 11 10 in
      if m = 0 then TmLegacy
      else if m = 1 then TmScalable
      else if m = 2 then TmAbortDma
      else TmReserved)"

definition rtaddr_table_base :: "rtaddr \<Rightarrow> u64" where
  "rtaddr_table_base r = push_bit 12 (extract_bits (rtaddr_raw r) 63 12)"

datatype ccmd = Ccmd (ccmd_raw: u64)

datatype cirg = CirgReserved | CirgGlobal | CirgDomain | CirgDevice

definition ccmd_new :: "cirg \<Rightarrow> u16 \<Rightarrow> u16 \<Rightarrow> u8 \<Rightarrow> ccmd" where
  "ccmd_new granularity did sid fm =
     (let cirg = (case granularity of CirgReserved \<Rightarrow> 0 | CirgGlobal \<Rightarrow> 1 | CirgDomain \<Rightarrow> 2 | CirgDevice \<Rightarrow> 3);
          v = push_bit 4 cirg OR push_bit 8 (ucast did) OR push_bit 32 (ucast sid);
          v = v OR push_bit 32 (ucast (fm AND 0x3))
      in Ccmd v)"

definition ccmd_initiate :: "ccmd \<Rightarrow> bool" where
  "ccmd_initiate c \<longleftrightarrow> extract_bits (ccmd_raw c) 63 63 \<noteq> 0"

definition ccmd_granularity :: "ccmd \<Rightarrow> cirg" where
  "ccmd_granularity c =
     (let g = extract_bits (ccmd_raw c) 5 4 in
      if g = 1 then CirgGlobal
      else if g = 2 then CirgDomain
      else if g = 3 then CirgDevice
      else CirgReserved)"

definition ccmd_did :: "ccmd \<Rightarrow> u16" where
  "ccmd_did c = ucast (extract_bits (ccmd_raw c) 31 8)"

definition ccmd_sid :: "ccmd \<Rightarrow> u16" where
  "ccmd_sid c = ucast (extract_bits (ccmd_raw c) 47 32)"

definition ccmd_fm :: "ccmd \<Rightarrow> u8" where
  "ccmd_fm c = ucast (extract_bits (ccmd_raw c) 33 32)"

datatype iqa = Iqa (iqa_raw: u64)

definition iqa_new :: "u64 \<Rightarrow> bool \<Rightarrow> iqa" where
  "iqa_new base wide = Iqa ((base AND NOT 0xfff) OR push_bit 4 (of_bool wide))"

definition iqa_base :: "iqa \<Rightarrow> u64" where
  "iqa_base q = push_bit 12 (extract_bits (iqa_raw q) 63 12)"

definition iqa_wide_descriptors :: "iqa \<Rightarrow> bool" where
  "iqa_wide_descriptors q \<longleftrightarrow> extract_bits (iqa_raw q) 4 4 \<noteq> 0"

datatype irta = Irta (irta_raw: u64)

definition irta_new :: "u64 \<Rightarrow> u8 \<Rightarrow> bool \<Rightarrow> irta" where
  "irta_new base size_order x2apic =
     Irta ((base AND NOT 0xfff) OR push_bit 14 (ucast (size_order AND 0x3)) OR push_bit 11 (of_bool x2apic))"

definition irta_base :: "irta \<Rightarrow> u64" where
  "irta_base t = push_bit 12 (extract_bits (irta_raw t) 63 12)"

definition irta_size_order :: "irta \<Rightarrow> u8" where
  "irta_size_order t = ucast (extract_bits (irta_raw t) 15 14)"

definition irta_eime :: "irta \<Rightarrow> bool" where
  "irta_eime t \<longleftrightarrow> extract_bits (irta_raw t) 11 11 \<noteq> 0"

section \<open>IOTLB invalidation registers\<close>

datatype iotlb_inval = IotlbInval (iotlb_raw: u64)

datatype iirg = IirgReserved | IirgGlobal | IirgDomain | IirgPage

definition iotlb_inval_new :: "iirg \<Rightarrow> u16 \<Rightarrow> bool \<Rightarrow> bool \<Rightarrow> iotlb_inval" where
  "iotlb_inval_new granularity did drain_reads drain_writes =
     (let iirg = (case granularity of IirgReserved \<Rightarrow> 0 | IirgGlobal \<Rightarrow> 1 | IirgDomain \<Rightarrow> 2 | IirgPage \<Rightarrow> 3);
          v = push_bit 60 iirg;
          v = (if drain_reads then v OR push_bit 49 1 else v);
          v = (if drain_writes then v OR push_bit 48 1 else v);
          v = v OR push_bit 32 (ucast did)
      in IotlbInval v)"

definition iotlb_initiate :: "iotlb_inval \<Rightarrow> bool" where
  "iotlb_initiate w \<longleftrightarrow> extract_bits (iotlb_raw w) 63 63 \<noteq> 0"

definition iotlb_granularity :: "iotlb_inval \<Rightarrow> iirg" where
  "iotlb_granularity w =
     (let g = extract_bits (iotlb_raw w) 61 60 in
      if g = 1 then IirgGlobal
      else if g = 2 then IirgDomain
      else if g = 3 then IirgPage
      else IirgReserved)"

definition iotlb_did :: "iotlb_inval \<Rightarrow> u16" where
  "iotlb_did w = ucast (extract_bits (iotlb_raw w) 47 32)"

datatype iva = Iva (iva_raw: u64)

definition iva_new :: "u64 \<Rightarrow> u8 \<Rightarrow> iva" where
  "iva_new addr am = Iva ((addr AND NOT 0xfff) OR ucast (am AND 0x3f))"

definition iva_addr :: "iva \<Rightarrow> u64" where
  "iva_addr w = push_bit 12 (extract_bits (iva_raw w) 63 12)"

definition iva_am :: "iva \<Rightarrow> u8" where
  "iva_am w = ucast (extract_bits (iva_raw w) 5 0)"

section \<open>Fault status\<close>

text \<open>The unnamed flag of the source has no bits.\<close>

definition FSTS_FLAGS :: "(string \<times> u32) list" where
  "FSTS_FLAGS =
     [(''PFO'', push_bit 0 1), (''PPF'', push_bit 1 1), (''IQE'', push_bit 2 1),
      (''ITE'', push_bit 3 1), (''PRO'', push_bit 4 1)]"

definition fsts_fri :: "u32 \<Rightarrow> u8" where
  "fsts_fri fsts = ucast (extract_bits (ucast fsts) 12 8)"

section \<open>The fixed register block\<close>

text \<open>The fields of a 32-bit register: name, offset and width in bits.\<close>

definition FECTL_FIELDS :: "(string \<times> nat \<times> nat) list" where
  "FECTL_FIELDS =
     [(''INTR_EN'', 0, 1), (''INTR_MASK'', 1, 1), (''INTR_PENDING'', 31, 1)]"

definition GCMD_FIELDS :: "(string \<times> nat \<times> nat) list" where
  "GCMD_FIELDS =
     [(''TE'', 31, 1), (''SRTP'', 30, 1), (''SFL'', 29, 1),
      (''WBF'', 28, 1), (''EA'', 27, 1), (''QIE'', 26, 1),
      (''IRE'', 25, 1), (''SIRTP'', 24, 1), (''CFI'', 23, 1)]"

text \<open>The rows of the block: a register of four or eight bytes, padding, or the end.\<close>

datatype reg_row =
    Register string nat
  | Padding
  | BlockEnd

definition DMAR_REGS :: "(nat \<times> reg_row) list" where
  "DMAR_REGS =
     [(0, Register ''version'' 4), (0x4, Padding), (0x8, Register ''cap_lo'' 4),
      (0xc, Register ''cap_hi'' 4), (0x10, Register ''ecap_lo'' 4), (0x14, Register ''ecap_hi'' 4),
      (0x18, Register ''gcmd'' 4), (0x1c, Register ''gsts'' 4), (0x20, Register ''rtaddr'' 8),
      (0x28, Register ''ccmd'' 8), (0x30, Padding), (0x34, Register ''fsts'' 4),
      (0x38, Register ''fectl'' 4), (0x3c, Register ''fedata'' 4), (0x40, Register ''feaddr'' 4),
      (0x44, Register ''feuaddr'' 4), (0x48, Padding), (0x64, Register ''pmen'' 4),
      (0x68, Register ''plmbase'' 4), (0x6c, Register ''plmlimit'' 4), (0x70, Register ''phmbase'' 8),
      (0x78, Register ''phmlimit'' 8), (0x80, Register ''iqh'' 8), (0x88, Register ''iqt'' 8),
      (0x90, Register ''iqa'' 8), (0x98, Padding), (0x9c, Register ''ics'' 4),
      (0xa0, Register ''iectl'' 4), (0xa4, Register ''iedata'' 4), (0xa8, Register ''ieaddr'' 4),
      (0xac, Register ''ieuaddr'' 4), (0xb0, Register ''iqercd'' 8), (0xb8, Register ''irta'' 8),
      (0xc0, BlockEnd)]"

section \<open>Layouts\<close>

text \<open>A layout lists the fields of a register by position and width.\<close>

definition field_mask :: "(nat \<times> nat) list \<Rightarrow> u64" where
  "field_mask layout = foldr (\<lambda>(lo, w) m. push_bit lo (mask w) OR m) layout 0"

lemma bit_field_mask: "bit (field_mask L) n \<longleftrightarrow> n < 64 \<and> list_ex (\<lambda>(lo, w). lo \<le> n \<and> n < lo + w) L"
  by (induction L) (auto simp: field_mask_def bit_simps)

text \<open>Two register values agree on a mask exactly when they agree on every field under it.\<close>

lemma field_mask_agree:
  "r AND field_mask L = r' AND field_mask L \<longleftrightarrow> list_all (\<lambda>(lo, w). get_field lo w r = get_field lo w r') L"
proof
  assume eq: "r AND field_mask L = r' AND field_mask L"
  have "get_field lo w r = get_field lo w r'" if f: "(lo, w) \<in> set L" for lo w
  proof (rule bit_word_eqI)
    fix n
    have "bit r (lo + n) = bit r' (lo + n)" if "n < w"
    proof (cases "lo + n < 64")
      case True
      then have "bit (field_mask L) (lo + n)"
        using f \<open>n < w\<close> by (auto simp: bit_field_mask list_ex_iff intro!: bexI [OF _ f])
      then show ?thesis using arg_cong [OF eq, of "\<lambda>x. bit x (lo + n)"] by (simp add: bit_simps)
    next
      case False
      then show ?thesis by (auto dest: bit_imp_le_length)
    qed
    then show "bit (get_field lo w r) n = bit (get_field lo w r') n" by (auto simp: bit_simps)
  qed
  then show "list_all (\<lambda>(lo, w). get_field lo w r = get_field lo w r') L" by (auto simp: list_all_iff)
next
  assume all: "list_all (\<lambda>(lo, w). get_field lo w r = get_field lo w r') L"
  show "r AND field_mask L = r' AND field_mask L"
  proof (rule bit_word_eqI)
    fix n
    have "bit r n = bit r' n" if m: "bit (field_mask L) n"
    proof -
      obtain lo w where f: "(lo, w) \<in> set L" "lo \<le> n" "n < lo + w"
        using m by (auto simp: bit_field_mask list_ex_iff)
      then have "get_field lo w r = get_field lo w r'" using all by (auto simp: list_all_iff)
      from arg_cong [OF this, of "\<lambda>x. bit x (n - lo)"] show ?thesis using f by (auto simp: bit_simps)
    qed
    then show "bit (r AND field_mask L) n = bit (r' AND field_mask L) n" by (auto simp: bit_simps)
  qed
qed

lemma flag_agree: "get_field k (Suc 0) r = get_field k (Suc 0) r' \<longleftrightarrow> (bit r k \<longleftrightarrow> bit r' k)" for r :: u64
proof
  assume "get_field k (Suc 0) r = get_field k (Suc 0) r'"
  from arg_cong [OF this, of "\<lambda>x. bit x 0"] show "bit r k \<longleftrightarrow> bit r' k" by (simp add: bit_get_field)
next
  assume "bit r k \<longleftrightarrow> bit r' k"
  then show "get_field k (Suc 0) r = get_field k (Suc 0) r'" by (intro bit_word_eqI) (auto simp: bit_get_field)
qed

lemma number_agree:
  "w \<le> LENGTH('b) \<Longrightarrow>
   (ucast (get_field lo w r) :: 'b::len word) = ucast (get_field lo w r') \<longleftrightarrow> get_field lo w r = get_field lo w r'"
  for r :: u64
  by (metis ucast_get_field)

lemma unat_field_less: "unat (get_field lo w v) < 2 ^ w" for v :: u64
  by (simp add: get_field_def unsigned_take_bit_eq)

lemma unat_scaled_field:
  "lo + w \<le> 64 \<Longrightarrow> w + 4 \<le> 64 \<Longrightarrow> unat (push_bit 4 (get_field lo w v)) = 16 * unat (get_field lo w v)"
  for v :: u64
proof -
  assume "w + 4 \<le> 64"
  then have "unat (get_field lo w v) * 2 ^ 4 < 2 ^ w * 2 ^ 4" "(2 :: nat) ^ (w + 4) \<le> 2 ^ 64"
    using unat_field_less [of lo w v] by (simp, intro power_increasing) simp_all
  then have "unat (get_field lo w v) * 16 < 2 ^ 64" by (simp only: power_add) simp
  then show ?thesis by (simp add: push_bit_eq_mult unat_word_ariths take_bit_nat_eq_self mult.commute)
qed

lemma unat_narrowed_field:
  "w \<le> LENGTH('b) \<Longrightarrow> unat (ucast (get_field lo w v) :: 'b::len word) = unat (get_field lo w v)" for v :: u64
proof -
  assume w: "w \<le> LENGTH('b)"
  have "unat (get_field lo w v) < 2 ^ LENGTH('b)"
    using unat_field_less [of lo w v] w by (meson less_le_trans one_le_numeral power_increasing)
  then show ?thesis by (simp add: unsigned_ucast_eq take_bit_nat_eq_self)
qed

lemma unat_number_less:
  "w \<le> LENGTH('b) \<Longrightarrow> unat (ucast (get_field lo w r) :: 'b::len word) < 2 ^ w" for r :: u64
proof -
  assume "w \<le> LENGTH('b)"
  then have "(ucast (get_field lo w r) :: 'b word) = take_bit w (ucast (get_field lo w r))" by simp
  then show ?thesis by (metis take_bit_nat_less_exp unsigned_take_bit_eq)
qed

text \<open>A field plus one fits a wider type.\<close>

lemma number_plus_one:
  "w < LENGTH('b) \<Longrightarrow>
   add_chk (ucast (get_field lo w r) :: 'b::len word) 1 = Inr (ucast (get_field lo w r) + 1)" for r :: u64
proof -
  assume w: "w < LENGTH('b)"
  then have "2 ^ w < (2 :: nat) ^ LENGTH('b)" by (rule power_strict_increasing) simp
  moreover have "unat (ucast (get_field lo w r) :: 'b word) < 2 ^ w" using w by (intro unat_number_less) simp
  ultimately have "unat (ucast (get_field lo w r) :: 'b word) + 1 < 2 ^ LENGTH('b)" by linarith
  then show ?thesis by (intro add_chk_in) simp
qed

lemma number_successor:
  assumes "w < LENGTH('b::len)"
  shows "\<exists>x. (Inr (ucast (get_field lo w (r :: u64)) + 1) :: 'b word run) = Inr x \<and> 1 \<le> unat x \<and> unat x \<le> 2 ^ w"
proof -
  have "unat (ucast (get_field lo w r) + 1 :: 'b word) = unat (ucast (get_field lo w r) :: 'b word) + 1"
    using unat_add_chk [OF number_plus_one [OF assms, of lo r]] by simp
  moreover have "unat (ucast (get_field lo w r) :: 'b word) < 2 ^ w"
    using assms by (intro unat_number_less) simp
  ultimately show ?thesis by simp
qed

text \<open>The number of domains: the exponent is at most 18, so neither the sum nor the shift overflows.\<close>

lemma domain_ids_power:
  "cap_domain_ids c = Inr (2 ^ (4 + 2 * unat (get_field 0 3 (cap_raw c))))"
proof -
  define x where "x = (ucast (get_field 0 3 (cap_raw c)) :: u32)"
  have less: "unat (get_field 0 3 (cap_raw c)) < 8" using unat_field_less [of 0 3 "cap_raw c"] by simp
  then have "unat (get_field 0 3 (cap_raw c)) < 2 ^ 32" by (rule less_trans) simp
  then have x: "unat x < 8" "unat x = unat (get_field 0 3 (cap_raw c))"
    using less by (simp_all add: x_def unsigned_ucast_eq take_bit_nat_eq_self)
  then have "unat (4 + 2 * x) = 4 + 2 * unat x"
    by (simp add: unat_word_ariths take_bit_nat_eq_self_iff)
  then show ?thesis
    using x by (simp add: cap_domain_ids_def extract_bits_at shl_chk_def push_bit_eq_mult flip: x_def)
qed

lemma domain_ids_agree:
  "cap_domain_ids c = cap_domain_ids c' \<longleftrightarrow> get_field 0 3 (cap_raw c) = get_field 0 3 (cap_raw c')"
proof
  assume eq: "cap_domain_ids c = cap_domain_ids c'"
  have inj: "a = b" if "(2 :: u32) ^ (4 + 2 * a) = 2 ^ (4 + 2 * b)" "a < 8" "b < 8" for a b
  proof -
    have pow: "unat ((2 :: u32) ^ k) = 2 ^ k" if "k < 32" for k
    proof -
      have "(2 :: nat) ^ k < 2 ^ LENGTH(32)" using that by (intro power_strict_increasing) simp_all
      from unat_of_nat_in [OF this] show ?thesis by simp
    qed
    from that(1) have "unat ((2 :: u32) ^ (4 + 2 * a)) = unat ((2 :: u32) ^ (4 + 2 * b))" by simp
    then have "(2 :: nat) ^ (4 + 2 * a) = 2 ^ (4 + 2 * b)" using that(2,3) by (simp only: pow)
    then show ?thesis by simp
  qed
  show "get_field 0 3 (cap_raw c) = get_field 0 3 (cap_raw c')"
    using eq inj unat_field_less [of 0 3 "cap_raw c"] unat_field_less [of 0 3 "cap_raw c'"]
    by (simp add: domain_ids_power word_unat_eq_iff)
qed (simp add: domain_ids_power)

section \<open>The accessors of the capability registers\<close>

definition CAP_LAYOUT :: "(nat \<times> nat) list" where
  "CAP_LAYOUT =
     [(4, 1), (5, 1), (6, 1), (7, 1), (22, 1), (23, 1), (39, 1), (54, 1), (55, 1),
      (56, 1), (59, 1), (60, 1), (61, 1), (62, 1), (63, 1), (0, 3), (8, 5), (16, 6),
      (24, 10), (34, 4), (40, 8), (48, 6)]"

definition ECAP_LAYOUT :: "(nat \<times> nat) list" where
  "ECAP_LAYOUT =
     [(0, 1), (1, 1), (2, 1), (3, 1), (4, 1), (6, 1), (7, 1), (25, 1), (26, 1),
      (27, 1), (29, 1), (30, 1), (31, 1), (33, 1), (34, 1), (40, 1), (41, 1), (42, 1),
      (43, 1), (44, 1), (45, 1), (46, 1), (47, 1), (48, 1), (49, 1), (50, 1), (51, 1),
      (52, 1), (53, 1), (55, 1), (56, 1), (57, 1), (58, 1), (59, 1), (60, 1), (61, 1),
      (62, 1), (8, 10), (20, 4), (35, 5)]"

definition cap_flags :: "cap \<Rightarrow> bool list" where
  "cap_flags c =
     [cap_rwbf c, cap_plmr c, cap_phmr c, cap_caching_mode c,
      cap_zlr c, cap_dep c, cap_page_selective_inval c, cap_write_drain c,
      cap_read_drain c, cap_fs_1g_pages c, cap_posted_interrupts c, cap_fs_5level c,
      cap_enhanced_commands c, cap_esirtps c, cap_esrtps c]"

definition cap_numbers ::
  "cap \<Rightarrow> u32 run \<times> u8 \<times> u32 run \<times> u16 \<times> u8 \<times> u16 run \<times> u8" where
  "cap_numbers c =
     (cap_domain_ids c, cap_sagaw c, cap_mgaw c, cap_fault_rec_offset_raw c,
      cap_sslps c, cap_num_fault_regs c, cap_max_amask_value c)"

definition ecap_flags :: "ecap \<Rightarrow> bool list" where
  "ecap_flags e =
     [ecap_coherent e, ecap_queued_inval e, ecap_dev_tlb e, ecap_intr_remap e,
      ecap_extended_intr_mode e, ecap_pass_through e, ecap_snoop_control e, ecap_memory_type e,
      ecap_nested e, ecap_deferred_inval e, ecap_page_requests e, ecap_execute_requests e,
      ecap_supervisor_requests e, ecap_no_write_flag e, ecap_extended_accessed_flag e, ecap_pasid e,
      ecap_devtlb_inval_throttle e, ecap_pasid_devtlb e, ecap_scalable_mode e, ecap_virtual_commands e,
      ecap_ss_accessed_dirty e, ecap_second_stage e, ecap_first_stage e, ecap_sm_page_walk_coherency e,
      ecap_rid_pasid e, ecap_tdx_connect e, ecap_perf_monitoring e, ecap_abort_dma_mode e,
      ecap_rid_priv e, ecap_host_permission_table e, ecap_pasid_translated e, ecap_ss_io_rw_bits e,
      ecap_stop_marker e, ecap_hpt_1g_pages e, ecap_rdt_config e, ecap_eim_required e,
      ecap_ir_required e]"

definition ecap_numbers :: "ecap \<Rightarrow> u16 \<times> u8 \<times> u8" where
  "ecap_numbers e = (ecap_iotlb_offset_raw e, ecap_max_handle_mask e, ecap_pasid_size e)"

lemma flag_field: "extract_bits v k k \<noteq> 0 \<longleftrightarrow> bit v (unat k)" if "k < 64"
  using that by (simp add: extract_bits_at)

lemma cap_masks: "field_mask CAP_LAYOUT = 0xf9ffffbfffff1ff7" "field_mask ECAP_LAYOUT = 0x7fbffffeeef3ffdf"
  by (simp_all add: field_mask_def CAP_LAYOUT_def ECAP_LAYOUT_def mask_numeral)

lemma cap_flag_fields:
  "cap_rwbf c = bit (cap_raw c) 4"
  "cap_plmr c = bit (cap_raw c) 5"
  "cap_phmr c = bit (cap_raw c) 6"
  "cap_caching_mode c = bit (cap_raw c) 7"
  "cap_zlr c = bit (cap_raw c) 22"
  "cap_dep c = bit (cap_raw c) 23"
  "cap_page_selective_inval c = bit (cap_raw c) 39"
  "cap_write_drain c = bit (cap_raw c) 54"
  "cap_read_drain c = bit (cap_raw c) 55"
  "cap_fs_1g_pages c = bit (cap_raw c) 56"
  "cap_posted_interrupts c = bit (cap_raw c) 59"
  "cap_fs_5level c = bit (cap_raw c) 60"
  "cap_enhanced_commands c = bit (cap_raw c) 61"
  "cap_esirtps c = bit (cap_raw c) 62"
  "cap_esrtps c = bit (cap_raw c) 63"
  by (simp_all add: cap_rwbf_def cap_plmr_def cap_phmr_def cap_caching_mode_def cap_zlr_def
      cap_dep_def cap_page_selective_inval_def cap_write_drain_def cap_read_drain_def cap_fs_1g_pages_def
      cap_posted_interrupts_def cap_fs_5level_def cap_enhanced_commands_def cap_esirtps_def cap_esrtps_def flag_field)

lemma ecap_flag_fields:
  "ecap_coherent e = bit (ecap_raw e) 0"
  "ecap_queued_inval e = bit (ecap_raw e) 1"
  "ecap_dev_tlb e = bit (ecap_raw e) 2"
  "ecap_intr_remap e = bit (ecap_raw e) 3"
  "ecap_extended_intr_mode e = bit (ecap_raw e) 4"
  "ecap_pass_through e = bit (ecap_raw e) 6"
  "ecap_snoop_control e = bit (ecap_raw e) 7"
  "ecap_memory_type e = bit (ecap_raw e) 25"
  "ecap_nested e = bit (ecap_raw e) 26"
  "ecap_deferred_inval e = bit (ecap_raw e) 27"
  "ecap_page_requests e = bit (ecap_raw e) 29"
  "ecap_execute_requests e = bit (ecap_raw e) 30"
  "ecap_supervisor_requests e = bit (ecap_raw e) 31"
  "ecap_no_write_flag e = bit (ecap_raw e) 33"
  "ecap_extended_accessed_flag e = bit (ecap_raw e) 34"
  "ecap_pasid e = bit (ecap_raw e) 40"
  "ecap_devtlb_inval_throttle e = bit (ecap_raw e) 41"
  "ecap_pasid_devtlb e = bit (ecap_raw e) 42"
  "ecap_scalable_mode e = bit (ecap_raw e) 43"
  "ecap_virtual_commands e = bit (ecap_raw e) 44"
  "ecap_ss_accessed_dirty e = bit (ecap_raw e) 45"
  "ecap_second_stage e = bit (ecap_raw e) 46"
  "ecap_first_stage e = bit (ecap_raw e) 47"
  "ecap_sm_page_walk_coherency e = bit (ecap_raw e) 48"
  "ecap_rid_pasid e = bit (ecap_raw e) 49"
  "ecap_tdx_connect e = bit (ecap_raw e) 50"
  "ecap_perf_monitoring e = bit (ecap_raw e) 51"
  "ecap_abort_dma_mode e = bit (ecap_raw e) 52"
  "ecap_rid_priv e = bit (ecap_raw e) 53"
  "ecap_host_permission_table e = bit (ecap_raw e) 55"
  "ecap_pasid_translated e = bit (ecap_raw e) 56"
  "ecap_ss_io_rw_bits e = bit (ecap_raw e) 57"
  "ecap_stop_marker e = bit (ecap_raw e) 58"
  "ecap_hpt_1g_pages e = bit (ecap_raw e) 59"
  "ecap_rdt_config e = bit (ecap_raw e) 60"
  "ecap_eim_required e = bit (ecap_raw e) 61"
  "ecap_ir_required e = bit (ecap_raw e) 62"
  by (simp_all add: ecap_coherent_def ecap_queued_inval_def ecap_dev_tlb_def ecap_intr_remap_def ecap_extended_intr_mode_def
      ecap_pass_through_def ecap_snoop_control_def ecap_memory_type_def ecap_nested_def ecap_deferred_inval_def
      ecap_page_requests_def ecap_execute_requests_def ecap_supervisor_requests_def ecap_no_write_flag_def ecap_extended_accessed_flag_def
      ecap_pasid_def ecap_devtlb_inval_throttle_def ecap_pasid_devtlb_def ecap_scalable_mode_def ecap_virtual_commands_def
      ecap_ss_accessed_dirty_def ecap_second_stage_def ecap_first_stage_def ecap_sm_page_walk_coherency_def ecap_rid_pasid_def
      ecap_tdx_connect_def ecap_perf_monitoring_def ecap_abort_dma_mode_def ecap_rid_priv_def ecap_host_permission_table_def
      ecap_pasid_translated_def ecap_ss_io_rw_bits_def ecap_stop_marker_def ecap_hpt_1g_pages_def ecap_rdt_config_def
      ecap_eim_required_def ecap_ir_required_def flag_field)

lemma cap_number_fields:
  "cap_sagaw c = ucast (get_field 8 5 (cap_raw c))"
  "cap_mgaw c = Inr (ucast (get_field 16 6 (cap_raw c)) + 1)"
  "cap_fault_rec_offset_raw c = ucast (get_field 24 10 (cap_raw c))"
  "cap_sslps c = ucast (get_field 34 4 (cap_raw c))"
  "cap_num_fault_regs c = Inr (ucast (get_field 40 8 (cap_raw c)) + 1)"
  "cap_max_amask_value c = ucast (get_field 48 6 (cap_raw c))"
  by (simp_all add: cap_sagaw_def cap_mgaw_def cap_fault_rec_offset_raw_def cap_sslps_def
      cap_num_fault_regs_def cap_max_amask_value_def extract_bits_at number_plus_one)

lemma ecap_number_fields:
  "ecap_iotlb_offset_raw e = ucast (get_field 8 10 (ecap_raw e))"
  "ecap_max_handle_mask e = ucast (get_field 20 4 (ecap_raw e))"
  "ecap_pasid_size e = ucast (get_field 35 5 (ecap_raw e))"
  by (simp_all add: ecap_iotlb_offset_raw_def ecap_max_handle_mask_def ecap_pasid_size_def extract_bits_at)

section \<open>Properties\<close>

text \<open>Bits and fields as arithmetic on the value of the register.\<close>

lemma bit_odd: "k < 64 \<Longrightarrow> bit r k \<longleftrightarrow> odd (unat r div 2 ^ k)" for r :: u64
  by (simp add: bit_unsigned_iff flip: bit_iff_odd)

lemma unat_field_arith: "unat (get_field lo w r) = unat r div 2 ^ lo mod 2 ^ w" for r :: u64
  unfolding get_field_def unsigned_take_bit_eq unat_drop_bit_eq by (simp add: take_bit_eq_mod drop_bit_eq_div)

lemma unat_number_arith:
  "w \<le> LENGTH('b) \<Longrightarrow> unat (ucast (get_field lo w r) :: 'b::len word) = unat r div 2 ^ lo mod 2 ^ w" for r :: u64
  by (simp only: unat_narrowed_field unat_field_arith)

lemma unat_successor_arith:
  fixes r :: u64
  assumes "w < LENGTH('b::len)"
  shows "unat (ucast (get_field lo w r) + 1 :: 'b word) = unat r div 2 ^ lo mod 2 ^ w + 1"
  using unat_add_chk [OF number_plus_one [OF assms, of lo r]] unat_number_arith [of w lo r, where 'b = 'b] assms by simp

text \<open>The three derived counts return, and are the documented functions of their fields.\<close>

lemma capability_numbers:
  "\<exists>ids. cap_domain_ids (Cap r) = Inr ids \<and> unat ids = 2 ^ (4 + 2 * (unat r mod 8))"
  "\<exists>gaw. cap_mgaw (Cap r) = Inr gaw \<and> unat gaw = unat r div 2 ^ 16 mod 64 + 1"
  "\<exists>regs. cap_num_fault_regs (Cap r) = Inr regs \<and> unat regs = unat r div 2 ^ 40 mod 256 + 1"
proof -
  have "4 + 2 * (unat r mod 8) < 32" by simp
  then have "(2 :: nat) ^ (4 + 2 * (unat r mod 8)) < 2 ^ LENGTH(32)"
    by (intro power_strict_increasing) simp_all
  from unat_of_nat_in [OF this]
  show "\<exists>ids. cap_domain_ids (Cap r) = Inr ids \<and> unat ids = 2 ^ (4 + 2 * (unat r mod 8))"
    using unat_field_arith [of 0 3 r] by (simp add: domain_ids_power)
  show "\<exists>gaw. cap_mgaw (Cap r) = Inr gaw \<and> unat gaw = unat r div 2 ^ 16 mod 64 + 1"
    using unat_successor_arith [of 6 16 r, where 'b = 32] by (simp add: cap_number_fields)
  show "\<exists>regs. cap_num_fault_regs (Cap r) = Inr regs \<and> unat regs = unat r div 2 ^ 40 mod 256 + 1"
    using unat_successor_arith [of 8 40 r, where 'b = 16] by (simp add: cap_number_fields)
qed

lemma capability_registers_agree:
  "cap_flags (Cap r) = cap_flags (Cap r') \<and> cap_numbers (Cap r) = cap_numbers (Cap r') \<longleftrightarrow>
      r AND 0xf9ffffbfffff1ff7 = r' AND 0xf9ffffbfffff1ff7"
  "ecap_flags (Ecap s) = ecap_flags (Ecap s') \<and> ecap_numbers (Ecap s) = ecap_numbers (Ecap s') \<longleftrightarrow>
      s AND 0x7fbffffeeef3ffdf = s' AND 0x7fbffffeeef3ffdf"
  unfolding cap_masks [symmetric] field_mask_agree
  by (simp_all add: CAP_LAYOUT_def ECAP_LAYOUT_def cap_flags_def cap_numbers_def ecap_flags_def ecap_numbers_def
      cap_flag_fields cap_number_fields ecap_flag_fields ecap_number_fields domain_ids_agree number_agree flag_agree)

text \<open>C35: The accessors of the two capability registers, for every register value: each flag, in the order of
  \<open>cap_flags\<close> and \<open>ecap_flags\<close>, is the bit of the position listed; each number is the value of its field, the address
  width and the number of fault registers one more, and the number of domains \<open>2^(4 + 2n)\<close>; and none of the three
  that compute with the field (domains, address width, fault registers) panics.  Moreover the accessors together
  lose nothing of their fields: two register values are indistinguishable by them if and only if they agree on
  the field positions.\<close>

theorem capability_accessors_exact:
  "cap_flags (Cap r) = map (\<lambda>k. odd (unat r div 2 ^ k)) [4, 5, 6, 7, 22, 23, 39, 54, 55, 56, 59, 60, 61, 62, 63] \<and>
   (\<exists>ids. cap_domain_ids (Cap r) = Inr ids \<and> unat ids = 2 ^ (4 + 2 * (unat r mod 8))) \<and>
   (\<exists>gaw. cap_mgaw (Cap r) = Inr gaw \<and> unat gaw = unat r div 2 ^ 16 mod 64 + 1) \<and>
   (\<exists>regs. cap_num_fault_regs (Cap r) = Inr regs \<and> unat regs = unat r div 2 ^ 40 mod 256 + 1) \<and>
   unat (cap_sagaw (Cap r)) = unat r div 2 ^ 8 mod 32 \<and>
   unat (cap_fault_rec_offset_raw (Cap r)) = unat r div 2 ^ 24 mod 1024 \<and>
   unat (cap_sslps (Cap r)) = unat r div 2 ^ 34 mod 16 \<and>
   unat (cap_max_amask_value (Cap r)) = unat r div 2 ^ 48 mod 64 \<and>
   ecap_flags (Ecap s) = map (\<lambda>k. odd (unat s div 2 ^ k))
     ([0, 1, 2, 3, 4, 6, 7, 25, 26, 27, 29, 30, 31, 33, 34] @ [40..<54] @ [55..<63]) \<and>
   unat (ecap_iotlb_offset_raw (Ecap s)) = unat s div 2 ^ 8 mod 1024 \<and>
   unat (ecap_max_handle_mask (Ecap s)) = unat s div 2 ^ 20 mod 16 \<and>
   unat (ecap_pasid_size (Ecap s)) = unat s div 2 ^ 35 mod 32 \<and>
   (cap_flags (Cap r) = cap_flags (Cap r') \<and> cap_numbers (Cap r) = cap_numbers (Cap r') \<longleftrightarrow>
      r AND 0xf9ffffbfffff1ff7 = r' AND 0xf9ffffbfffff1ff7) \<and>
   (ecap_flags (Ecap s) = ecap_flags (Ecap s') \<and> ecap_numbers (Ecap s) = ecap_numbers (Ecap s') \<longleftrightarrow>
      s AND 0x7fbffffeeef3ffdf = s' AND 0x7fbffffeeef3ffdf)"
proof (intro conjI)
  show "cap_flags (Cap r) = map (\<lambda>k. odd (unat r div 2 ^ k)) [4, 5, 6, 7, 22, 23, 39, 54, 55, 56, 59, 60, 61, 62, 63]"
    unfolding cap_flags_def cap_flag_fields cap.sel list.map by (simp only: bit_odd rel_simps simp_thms)
  show "ecap_flags (Ecap s) = map (\<lambda>k. odd (unat s div 2 ^ k)) ([0, 1, 2, 3, 4, 6, 7, 25, 26, 27, 29, 30, 31, 33, 34] @ [40..<54] @ [55..<63])"
    by (simp add: ecap_flags_def ecap_flag_fields bit_odd upt_rec)
qed (rule capability_numbers capability_registers_agree |
    simp add: cap_number_fields ecap_number_fields unat_number_arith)+

text \<open>The counts and offsets derived from the capabilities: the number of domains, the address width
  and the number of fault registers never overflow; the fault recording registers are 16 bytes apart, and
  the two IOTLB registers 8, at the offsets the capabilities report.\<close>

lemma capability_counts:
  "cap_domain_ids c = Inr (2 ^ (4 + 2 * unat (get_field 0 3 (cap_raw c)))) \<and>
   (\<exists>w. cap_mgaw c = Inr w \<and> 1 \<le> unat w \<and> unat w \<le> 64) \<and>
   (\<exists>k. cap_num_fault_regs c = Inr k \<and> 1 \<le> unat k \<and> unat k \<le> 256) \<and>
   unat (fault_rec_offset c n) = 16 * (unat (cap_fault_rec_offset_raw c) + unat n) \<and>
   unat (fst (iotlb_offset e)) = 16 * unat (ecap_iotlb_offset_raw e) \<and>
   snd (iotlb_offset e) = fst (iotlb_offset e) + 8"
proof -
  have tens: "unat (push_bit 4 (get_field lo 10 r)) = 16 * unat (ucast (get_field lo 10 r) :: u16)"
    "unat (ucast (get_field lo 10 r) :: u16) < 1024" for lo and r :: u64
  proof -
    have f: "unat (get_field lo 10 r) < 1024" using unat_field_less [of lo 10 r] by simp
    then show "unat (push_bit 4 (get_field lo 10 r)) = 16 * unat (ucast (get_field lo 10 r) :: u16)"
      by (simp add: push_bit_eq_mult unat_word_ariths unsigned_ucast_eq take_bit_nat_eq_self_iff take_bit_nat_def)
    show "unat (ucast (get_field lo 10 r) :: u16) < 1024"
      using unat_number_less [of 10 lo r, where 'b = 16] by simp
  qed
  have "unat (push_bit 4 (get_field 24 10 r) + ucast n * 16) =
      16 * (unat (ucast (get_field 24 10 r) :: u16) + unat n)" for r :: u64
    using tens [of 24 r] unat_bound [of n]
    by (simp add: unat_word_ariths unat_ucast_up take_bit_nat_def)
  then show ?thesis
    using number_successor [where 'b = 32, of 6 16 "cap_raw c"] number_successor [where 'b = 16, of 8 40 "cap_raw c"]
    by (simp add: domain_ids_power cap_number_fields ecap_number_fields fault_rec_offset_def iotlb_offset_def
        Let_def extract_bits_at tens)
qed

section \<open>Register words\<close>

lemma word_page:
  "push_bit 12 (extract_bits x 63 12) = x AND NOT 0xfff"
proof -
  have "extract_bits x 63 12 = get_field 12 52 x" by (simp add: extract_bits_at)
  then show ?thesis
    unfolding mask_words by (simp only:) (rule bit_word_eqI, auto simp: bit_simps)
qed

text \<open>The encoders as field writes; the granularities are codes of two bits.\<close>

fun cirg_code :: "cirg \<Rightarrow> u64" where
  "cirg_code CirgReserved = 0"
| "cirg_code CirgGlobal = 1"
| "cirg_code CirgDomain = 2"
| "cirg_code CirgDevice = 3"

fun iirg_code :: "iirg \<Rightarrow> u64" where
  "iirg_code IirgReserved = 0"
| "iirg_code IirgGlobal = 1"
| "iirg_code IirgDomain = 2"
| "iirg_code IirgPage = 3"

lemma ccmd_word:
  "ccmd_raw (ccmd_new g did sid fm) =
     put_field 32 16 (ucast (sid OR ucast (fm AND 0x3))) (put_field 8 16 (ucast did) (put_field 4 2 (cirg_code g) 0))"
proof -
  have code: "(case g of CirgReserved \<Rightarrow> 0 | CirgGlobal \<Rightarrow> 1 | CirgDomain \<Rightarrow> 2 | CirgDevice \<Rightarrow> 3)
      = take_bit 2 (cirg_code g)" by (cases g) simp_all
  show ?thesis
    unfolding ccmd_new_def Let_def code ccmd.sel unfolding mask_words
    by (rule bit_word_eqI) (auto simp: bit_simps dest: bit_imp_le_length)
qed

lemma iotlb_word:
  "iotlb_raw (iotlb_inval_new g did dr dw) = put_field 32 16 (ucast did)
     (put_field 48 1 (of_bool dw) (put_field 49 1 (of_bool dr) (put_field 60 2 (iirg_code g) 0)))"
proof -
  have code: "(case g of IirgReserved \<Rightarrow> 0 | IirgGlobal \<Rightarrow> 1 | IirgDomain \<Rightarrow> 2 | IirgPage \<Rightarrow> 3)
      = take_bit 2 (iirg_code g)" by (cases g) simp_all
  have flag: "(if b then v OR push_bit k 1 else v) = v OR push_bit k (of_bool b)" for b k and v :: u64 by simp
  show ?thesis
    unfolding iotlb_inval_new_def Let_def code iotlb_inval.sel flag
    by (rule bit_word_eqI) (auto simp: bit_simps simp del: push_bit_of_1 dest: bit_imp_le_length)
qed

lemma granularity_codes:
  "ccmd_granularity c = (let g = get_field 4 2 (ccmd_raw c) in
     if g = 1 then CirgGlobal else if g = 2 then CirgDomain else if g = 3 then CirgDevice else CirgReserved)"
  "iotlb_granularity w = (let g = get_field 60 2 (iotlb_raw w) in
     if g = 1 then IirgGlobal else if g = 2 then IirgDomain else if g = 3 then IirgPage else IirgReserved)"
  by (simp_all add: ccmd_granularity_def iotlb_granularity_def extract_bits_at)

lemma iotlb_fields:
  "iotlb_granularity (iotlb_inval_new g did dr dw) = g" "iotlb_did (iotlb_inval_new g did dr dw) = did"
  "\<not> iotlb_initiate (iotlb_inval_new g did dr dw)"
  "bit (iotlb_raw (iotlb_inval_new g did dr dw)) 49 = dr" "bit (iotlb_raw (iotlb_inval_new g did dr dw)) 48 = dw"
proof -
  show "iotlb_granularity (iotlb_inval_new g did dr dw) = g"
    by (cases g) (simp_all add: granularity_codes iotlb_word)
  show "iotlb_did (iotlb_inval_new g did dr dw) = did"
    by (simp add: iotlb_did_def extract_bits_at iotlb_word)
  show "\<not> iotlb_initiate (iotlb_inval_new g did dr dw)"
    by (simp add: iotlb_initiate_def extract_bits_at iotlb_word)
  show "bit (iotlb_raw (iotlb_inval_new g did dr dw)) 49 = dr" "bit (iotlb_raw (iotlb_inval_new g did dr dw)) 48 = dw"
    unfolding iotlb_word by (simp_all add: bit_simps)
qed

lemma ccmd_fields:
  "ccmd_granularity (ccmd_new g did sid fm) = g" "ccmd_did (ccmd_new g did sid fm) = did"
  "\<not> ccmd_initiate (ccmd_new g did sid fm)" "ccmd_sid (ccmd_new g did sid fm) = sid OR ucast (fm AND 0x3)"
  "ccmd_fm (ccmd_new g did sid fm) = (ucast sid OR fm) AND 0x3"
proof -
  show "ccmd_granularity (ccmd_new g did sid fm) = g"
    by (cases g) (simp_all add: granularity_codes ccmd_word)
  show "ccmd_did (ccmd_new g did sid fm) = did"
    by (simp add: ccmd_did_def extract_bits_at ccmd_word) (rule bit_word_eqI, auto simp: bit_simps)
  show "\<not> ccmd_initiate (ccmd_new g did sid fm)"
    by (simp add: ccmd_initiate_def extract_bits_at ccmd_word)
  show "ccmd_sid (ccmd_new g did sid fm) = sid OR ucast (fm AND 0x3)"
    by (simp add: ccmd_sid_def extract_bits_at ccmd_word)
  have "extract_bits x 33 32 = get_field 32 2 x" for x by (simp add: extract_bits_at)
  then show "ccmd_fm (ccmd_new g did sid fm) = (ucast sid OR fm) AND 0x3"
    unfolding ccmd_fm_def ccmd_word mask_words
    by (simp only:) (rule bit_word_eqI, auto simp: bit_simps)
qed

lemma iqa_fields:
  "iqa_base (iqa_new b wide) = b AND NOT 0xfff" "iqa_wide_descriptors (iqa_new b wide) = wide"
proof -
  have word: "iqa_raw (iqa_new b wide) = put_field 12 52 (drop_bit 12 b) (put_field 4 1 (of_bool wide) 0)"
    unfolding iqa_new_def iqa.sel page_frame(1) by (rule bit_word_eqI) (auto simp: bit_simps)
  show "iqa_base (iqa_new b wide) = b AND NOT 0xfff"
    unfolding iqa_base_def word page_frame(1) by (simp add: extract_bits_at) (simp add: get_field_def)
  show "iqa_wide_descriptors (iqa_new b wide) = wide"
    unfolding iqa_wide_descriptors_def word by (simp add: extract_bits_at)
qed

lemma iva_fields: "iva_addr (iva_new b am) = b AND NOT 0xfff" "iva_am (iva_new b am) = am AND 0x3f"
proof -
  have word: "iva_raw (iva_new b am) = put_field 12 52 (drop_bit 12 b) (put_field 0 6 (ucast am) 0)"
    unfolding iva_new_def iva.sel page_frame(1) mask_words by (rule bit_word_eqI) (auto simp: bit_simps)
  show "iva_addr (iva_new b am) = b AND NOT 0xfff"
    unfolding iva_addr_def word page_frame(1) by (simp add: extract_bits_at) (simp add: get_field_def)
  show "iva_am (iva_new b am) = am AND 0x3f"
  proof -
    have "extract_bits v 5 0 = get_field 0 6 v" for v by (simp add: extract_bits_at)
    then show ?thesis
      unfolding iva_am_def word mask_words by (simp only:) (rule bit_word_eqI, auto simp: bit_simps)
  qed
qed

lemma irta_fields:
  "irta_base (irta_new b n x) = (b AND NOT 0xfff) OR push_bit 14 (ucast (n AND 0x3))"
  "irta_size_order (irta_new b n x) = (ucast (drop_bit 14 b) OR n) AND 0x3" "irta_eime (irta_new b n x) = x"
proof -
  have raw: "irta_raw (irta_new b n x) = push_bit 12 (get_field 12 52 b) OR put_field 14 2 (ucast n) 0 OR
      put_field 11 1 (of_bool x) 0"
    unfolding irta_new_def irta.sel page_frame(1) mask_words by (rule bit_word_eqI) (auto simp: bit_simps)
  have at: "extract_bits v 63 12 = get_field 12 52 v" "extract_bits v 15 14 = get_field 14 2 v"
    "extract_bits v 11 11 \<noteq> 0 \<longleftrightarrow> bit v 11" for v by (simp_all add: extract_bits_at)
  show "irta_base (irta_new b n x) = (b AND NOT 0xfff) OR push_bit 14 (ucast (n AND 0x3))"
    unfolding irta_base_def raw at unfolding page_frame(1) mask_words by (rule bit_word_eqI) (auto simp: bit_simps)
  show "irta_size_order (irta_new b n x) = (ucast (drop_bit 14 b) OR n) AND 0x3"
    unfolding irta_size_order_def raw at unfolding mask_words by (rule bit_word_eqI) (auto simp: bit_simps)
  show "irta_eime (irta_new b n x) = x"
    unfolding irta_eime_def raw at by (simp add: bit_simps)
qed

text \<open>The remaining words are read only.\<close>

lemma rtaddr_fields:
  "rtaddr_table_base (Rtaddr r) = r AND NOT 0xfff"
  "rtaddr_table_mode (Rtaddr (push_bit 10 1)) = TmScalable" "rtaddr_table_mode (Rtaddr (push_bit 11 1)) = TmAbortDma"
  "version_new 0x65 = \<lparr>ver_major = 6, ver_minor = 5\<rparr>" "fsts_fri 0x1f00 = 0x1f"
  by (simp_all add: rtaddr_table_base_def rtaddr_table_mode_def version_new_def fsts_fri_def word_page)
    (simp_all add: extract_bits_at get_field_def)

text \<open>Register words and what they read back.\<close>

lemma intel_register_words:
  "iqa_base (iqa_new b wide) = b AND NOT 0xfff \<and> iqa_wide_descriptors (iqa_new b wide) = wide \<and>
   iva_addr (iva_new b am) = b AND NOT 0xfff \<and> iva_am (iva_new b am) = am AND 0x3f \<and>
   iotlb_granularity (iotlb_inval_new i did dr dw) = i \<and> iotlb_did (iotlb_inval_new i did dr dw) = did \<and>
   \<not> iotlb_initiate (iotlb_inval_new i did dr dw) \<and>
   bit (iotlb_raw (iotlb_inval_new i did dr dw)) 49 = dr \<and> bit (iotlb_raw (iotlb_inval_new i did dr dw)) 48 = dw \<and>
   ccmd_granularity (ccmd_new g did sid fm) = g \<and> ccmd_did (ccmd_new g did sid fm) = did \<and>
   \<not> ccmd_initiate (ccmd_new g did sid fm) \<and>
   ccmd_sid (ccmd_new g did sid fm) = sid OR ucast (fm AND 0x3) \<and>
   ccmd_fm (ccmd_new g did sid fm) = (ucast sid OR fm) AND 0x3 \<and>
   irta_base (irta_new b n x) = (b AND NOT 0xfff) OR push_bit 14 (ucast (n AND 0x3)) \<and>
   irta_size_order (irta_new b n x) = (ucast (drop_bit 14 b) OR n) AND 0x3 \<and>
   irta_eime (irta_new b n x) = x"
  by (simp only: iqa_fields iva_fields iotlb_fields ccmd_fields irta_fields simp_thms)

section \<open>The block and the tables\<close>

text \<open>The macro of the block requires that each register ends where the next row starts, and that
  padding is not empty.\<close>

fun contiguous :: "(nat \<times> reg_row) list \<Rightarrow> bool" where
  "contiguous ((p, Register name n) # (q, r) # rows) = (q = p + n \<and> contiguous ((q, r) # rows))"
| "contiguous ((p, Padding) # (q, r) # rows) = (p < q \<and> contiguous ((q, r) # rows))"
| "contiguous [(p, BlockEnd)] = True"
| "contiguous _ = False"

definition row_offset :: "string \<Rightarrow> nat option" where
  "row_offset name =
     map_of (List.map_filter (\<lambda>(p, r). case r of Register n _ \<Rightarrow> Some (n, p) | _ \<Rightarrow> None) DMAR_REGS) name"

text \<open>Each register of the block, with the constant that names its offset.\<close>

definition BLOCK_NAMES :: "(string \<times> string) list" where
  "BLOCK_NAMES =
     [(''version'', ''VER''), (''cap_lo'', ''CAP''), (''ecap_lo'', ''ECAP''), (''gcmd'', ''GCMD''),
      (''gsts'', ''GSTS''), (''rtaddr'', ''RTADDR''), (''ccmd'', ''CCMD''), (''fsts'', ''FSTS''),
      (''fectl'', ''FECTL''), (''fedata'', ''FEDATA''), (''feaddr'', ''FEADDR''), (''feuaddr'', ''FEUADDR''),
      (''pmen'', ''PMEN''), (''plmbase'', ''PLMBAS''), (''plmlimit'', ''PLMLIMIT''), (''phmbase'', ''PHMBAS''),
      (''phmlimit'', ''PHMLIMIT''), (''iqh'', ''IQH''), (''iqt'', ''IQT''), (''iqa'', ''IQA''),
      (''ics'', ''ICS''), (''iectl'', ''IECTL''), (''iedata'', ''IEDATA''), (''ieaddr'', ''IEADDR''),
      (''ieuaddr'', ''IEUADDR''), (''iqercd'', ''IQERCD''), (''irta'', ''IRTA'')]"

lemma block_contiguous: "contiguous DMAR_REGS"
  by (simp add: DMAR_REGS_def)

lemma block_offsets:
  "list_all (\<lambda>(row, reg). row_offset row = map_option unat (map_of INTEL_OFFSETS reg)) BLOCK_NAMES"
  by (simp add: BLOCK_NAMES_def row_offset_def DMAR_REGS_def INTEL_OFFSETS_def map_filter_simps)

text \<open>The status register mirrors the command register, and the typed view has the same bits.\<close>

lemma command_status_mirror:
  "map snd GSTS_FLAGS = map snd GCMD_FLAGS \<and>
   map snd GCMD_FLAGS = map (\<lambda>(_, k, w). push_bit k (mask w)) GCMD_FIELDS \<and>
   distinct (map snd GCMD_FLAGS) \<and> distinct (map snd FSTS_FLAGS)"
  by (simp add: GSTS_FLAGS_def GCMD_FLAGS_def GCMD_FIELDS_def FSTS_FLAGS_def)

text \<open>The register offsets that depend on the capabilities, as numbers.\<close>

lemma capability_offsets:
  "unat (fst (iotlb_offset e)) = 16 * unat (ecap_iotlb_offset_raw e)"
  "snd (iotlb_offset e) = fst (iotlb_offset e) + 8"
  "unat (fault_rec_offset c n) = 16 * (unat (cap_fault_rec_offset_raw c) + unat n)"
proof -
  show "unat (fst (iotlb_offset e)) = 16 * unat (ecap_iotlb_offset_raw e)"
    by (simp add: iotlb_offset_def Let_def ecap_iotlb_offset_raw_def extract_bits_at unat_scaled_field
        unat_narrowed_field)
  show "snd (iotlb_offset e) = fst (iotlb_offset e) + 8" by (simp add: iotlb_offset_def Let_def)
  have "unat (get_field 24 10 (cap_raw c)) < 1024" "unat n < 65536"
    using unat_field_less [of 24 10 "cap_raw c"] unsigned_less [of n] by simp_all
  moreover from this have "unat (ucast n * 16 :: u64) = 16 * unat n"
    by (simp add: unat_word_ariths unsigned_ucast_eq take_bit_nat_eq_self)
  ultimately show "unat (fault_rec_offset c n) = 16 * (unat (cap_fault_rec_offset_raw c) + unat n)"
    by (simp add: fault_rec_offset_def cap_fault_rec_offset_raw_def extract_bits_at unat_narrowed_field
        unat_scaled_field unat_word_ariths)
qed

text \<open>Slots of 16 bytes are disjoint unless they are the same.\<close>

lemma slots_apart: "16 * a + 16 \<le> 16 * b \<or> 16 * b + 16 \<le> 16 * a \<longleftrightarrow> a \<noteq> b" for a b :: nat
  by arith

lemma slots_beyond: "16 * 12 \<le> 16 * a \<longleftrightarrow> 12 \<le> a" for a :: nat
  by arith

lemma fixed_block_end: "fst (last DMAR_REGS) = 16 * 12"
  by (simp add: DMAR_REGS_def)

text \<open>C37: The register map is consistent.  The registers whose place depends on the capabilities lie, without
  wrap-around, at sixteen times the capability field: the pair of IOTLB registers at the offset field, eight
  bytes apart, and fault recording register \<open>n\<close> at the offset field plus \<open>n\<close>.  Each lies beyond the fixed block
  exactly when that sum is at least twelve; the 16 bytes of two fault registers overlap only if they are the
  same one, and those of the IOTLB pair and of fault register \<open>n\<close> exactly if their sums are equal.  The fixed
  tables fit together: the rows of the block leave no gap and do not overlap, each of its registers stands at the
  offset the constant of its name gives, and the flag words of the command register, the status register and the
  typed view have the same bits.\<close>

theorem register_map:
  "unat (fst (iotlb_offset e)) = 16 * unat (ecap_iotlb_offset_raw e) \<and>
   snd (iotlb_offset e) = fst (iotlb_offset e) + 8 \<and>
   unat (fault_rec_offset c n) = 16 * (unat (cap_fault_rec_offset_raw c) + unat n) \<and>
   (fst (last DMAR_REGS) \<le> unat (fst (iotlb_offset e)) \<longleftrightarrow> 12 \<le> unat (ecap_iotlb_offset_raw e)) \<and>
   (fst (last DMAR_REGS) \<le> unat (fault_rec_offset c n) \<longleftrightarrow> 12 \<le> unat (cap_fault_rec_offset_raw c) + unat n) \<and>
   (unat (fault_rec_offset c n) + 16 \<le> unat (fault_rec_offset c m) \<or>
    unat (fault_rec_offset c m) + 16 \<le> unat (fault_rec_offset c n) \<longleftrightarrow> n \<noteq> m) \<and>
   (unat (fst (iotlb_offset e)) + 16 \<le> unat (fault_rec_offset c n) \<or>
    unat (fault_rec_offset c n) + 16 \<le> unat (fst (iotlb_offset e)) \<longleftrightarrow>
      unat (ecap_iotlb_offset_raw e) \<noteq> unat (cap_fault_rec_offset_raw c) + unat n) \<and>
   contiguous DMAR_REGS \<and>
   list_all (\<lambda>(row, reg). row_offset row = map_option unat (map_of INTEL_OFFSETS reg)) BLOCK_NAMES \<and>
   map snd GSTS_FLAGS = map snd GCMD_FLAGS \<and>
   map snd GCMD_FLAGS = map (\<lambda>(_, k, w). push_bit k (mask w)) GCMD_FIELDS \<and>
   distinct (map snd GCMD_FLAGS) \<and> distinct (map snd FSTS_FLAGS)"
proof (intro conjI)
  show "fst (last DMAR_REGS) \<le> unat (fst (iotlb_offset e)) \<longleftrightarrow> 12 \<le> unat (ecap_iotlb_offset_raw e)"
    "fst (last DMAR_REGS) \<le> unat (fault_rec_offset c n) \<longleftrightarrow> 12 \<le> unat (cap_fault_rec_offset_raw c) + unat n"
    unfolding capability_offsets fixed_block_end slots_beyond by (rule refl)+
  show "unat (fault_rec_offset c n) + 16 \<le> unat (fault_rec_offset c m) \<or>
      unat (fault_rec_offset c m) + 16 \<le> unat (fault_rec_offset c n) \<longleftrightarrow> n \<noteq> m"
    unfolding capability_offsets slots_apart by (simp add: word_unat_eq_iff)
  show "unat (fst (iotlb_offset e)) + 16 \<le> unat (fault_rec_offset c n) \<or>
      unat (fault_rec_offset c n) + 16 \<le> unat (fst (iotlb_offset e)) \<longleftrightarrow>
      unat (ecap_iotlb_offset_raw e) \<noteq> unat (cap_fault_rec_offset_raw c) + unat n"
    unfolding capability_offsets slots_apart ..
qed (rule block_contiguous block_offsets capability_offsets
    command_status_mirror [THEN conjunct1] command_status_mirror [THEN conjunct2, THEN conjunct1]
    command_status_mirror [THEN conjunct2, THEN conjunct2, THEN conjunct1]
    command_status_mirror [THEN conjunct2, THEN conjunct2, THEN conjunct2])+

end
