(* ===== verification/Formatting.thy ===== *)
theory Formatting
  imports Intel_Dmar Amd_Ivrs Amd_Pagetables Intel_Pagetables Intel_Context Intel_Irte Intel_Fault Intel_Qi
begin

text \<open>
  The \<^verbatim>\<open>fmt::Display\<close> implementations of both crates, as the text they write: \<open>fmt_dec\<close> is
  \<^verbatim>\<open>{}\<close> of an unsigned integer, \<open>fmt_hex\<close> is \<^verbatim>\<open>{:x}\<close>, \<open>fmt_hex2\<close> is \<^verbatim>\<open>{:02x}\<close> and
  \<open>fmt_hex2_list\<close> is \<^verbatim>\<open>{:02x?}\<close> of an array of bytes.  The contract \<open>printer\<close> (an injective
  text over an alphabet) is what the messages are read back by: a number that ends at a character outside
  its alphabet, or at the end of the message, determines its value.
\<close>

section \<open>Numbers as text\<close>

text \<open>Most significant digit first; at least one digit.\<close>

fun digits :: "nat \<Rightarrow> nat \<Rightarrow> nat list" where
  "digits b n = (if n < b \<or> b < 2 then [n] else digits b (n div b) @ [n mod b])"

declare digits.simps [simp del]

definition digit_char :: "nat \<Rightarrow> char" where
  "digit_char d = ''0123456789abcdef'' ! d"

definition fmt_dec :: "nat \<Rightarrow> string" where
  "fmt_dec n = map digit_char (digits 10 n)"

definition fmt_hex :: "nat \<Rightarrow> string" where
  "fmt_hex n = map digit_char (digits 16 n)"

definition fmt_hex2 :: "u8 \<Rightarrow> string" where
  "fmt_hex2 v = (let s = fmt_hex (unat v) in replicate (2 - length s) (CHR ''0'') @ s)"

fun separated :: "string list \<Rightarrow> string" where
  "separated [] = ''''"
| "separated [s] = s"
| "separated (s # t # ss) = s @ '', '' @ separated (t # ss)"

definition fmt_hex2_list :: "bytes \<Rightarrow> string" where
  "fmt_hex2_list bs = ''['' @ separated (map fmt_hex2 bs) @ '']''"

text \<open>Reading the digits back, from the left.\<close>

definition undigits :: "nat \<Rightarrow> nat list \<Rightarrow> nat" where
  "undigits b = foldl (\<lambda>acc d. acc * b + d) 0"

lemma undigits_digits: "undigits b (digits b n) = n"
proof (induction b n rule: digits.induct)
  case (1 b n)
  show ?case
  proof (cases "n < b \<or> b < 2")
    case True
    then show ?thesis by (subst digits.simps) (simp add: undigits_def)
  next
    case False
    with 1 have "undigits b (digits b (n div b)) = n div b" by simp
    with False show ?thesis by (subst digits.simps) (simp add: undigits_def)
  qed
qed

lemma digits_bound: "2 \<le> b \<Longrightarrow> d \<in> set (digits b n) \<Longrightarrow> d < b"
proof (induction b n rule: digits.induct)
  case (1 b n)
  then show ?case by (subst (asm) (2) digits.simps) (auto split: if_splits)
qed

lemma digits_eq_iff: "digits b m = digits b n \<longleftrightarrow> m = n"
  by (metis undigits_digits)

lemma digit_char_eq_iff: "d < 16 \<Longrightarrow> e < 16 \<Longrightarrow> digit_char d = digit_char e \<longleftrightarrow> d = e"
  using nth_eq_iff_index_eq [of "''0123456789abcdef''" d e] by (simp add: digit_char_def)

lemma digit_char_decimal: "d < 10 \<Longrightarrow> digit_char d \<in> set ''0123456789''"
  by (auto simp: digit_char_def numeral_nat less_Suc_eq)

lemma digit_char_hex: "d < 16 \<Longrightarrow> digit_char d \<in> set ''0123456789abcdef''"
  unfolding digit_char_def by (rule nth_mem) simp

lemma map_digits_eq_iff:
  assumes "2 \<le> b" "b \<le> 16"
  shows "map digit_char (digits b m) = map digit_char (digits b n) \<longleftrightarrow> m = n"
proof -
  have "d < 16" if "d \<in> set (digits b k)" for d k
    using digits_bound [OF assms(1) that] assms(2) by simp
  then have "inj_on digit_char (set (digits b m) \<union> set (digits b n))"
    by (intro inj_onI) (metis Un_iff digit_char_eq_iff)
  then show ?thesis by (metis map_inj_on digits_eq_iff)
qed

section \<open>The contract of a printer\<close>

locale printer =
  fixes pr :: "'a \<Rightarrow> string" and alphabet :: "char set"
  assumes pr_eq_iff: "pr a = pr b \<longleftrightarrow> a = b"
    and pr_alphabet: "set (pr a) \<subseteq> alphabet"
begin

lemma pr_inj: "inj pr"
  by (simp add: inj_def pr_eq_iff)

text \<open>A printed value that ends at a foreign character is delimited by it.\<close>

lemma delimited:
  assumes "c \<notin> alphabet"
  shows "pr a @ c # s = pr b @ c # t \<longleftrightarrow> a = b \<and> s = t"
proof
  assume eq: "pr a @ c # s = pr b @ c # t"
  have "takeWhile (\<lambda>x. x \<noteq> c) (pr v @ c # u) = pr v" for v u
    using assms pr_alphabet [of v] by (subst takeWhile_append2) auto
  then have "pr a = pr b" using eq by metis
  with eq show "a = b \<and> s = t" by (simp add: pr_eq_iff)
qed simp

end

interpretation decimal: printer fmt_dec "set ''0123456789''"
proof
  show "set (fmt_dec a) \<subseteq> set ''0123456789''" for a
    unfolding fmt_dec_def using digits_bound [of 10 _ a] digit_char_decimal by fastforce
qed (simp add: fmt_dec_def map_digits_eq_iff)

interpretation hexadecimal: printer fmt_hex "set ''0123456789abcdef''"
proof
  show "set (fmt_hex a) \<subseteq> set ''0123456789abcdef''" for a
    unfolding fmt_hex_def using digits_bound [of 16 _ a] digit_char_hex by fastforce
qed (simp add: fmt_hex_def map_digits_eq_iff)

text \<open>Two hexadecimal digits per byte.\<close>

lemma fmt_hex2_eq: "fmt_hex2 v = [digit_char (unat v div 16), digit_char (unat v mod 16)]"
proof -
  have "unat v < 256" using unat_bound [of v] by simp
  then have "unat v div 16 < 16" by simp
  moreover have "digit_char 0 = CHR ''0''" by (simp add: digit_char_def)
  ultimately show ?thesis
    by (subst fmt_hex2_def, subst fmt_hex_def, subst digits.simps)
      (auto simp: digits.simps [of 16 "unat v div 16"])
qed

interpretation byte: printer fmt_hex2 "set ''0123456789abcdef''"
proof
  fix a b :: u8
  have a: "unat a < 256" and b: "unat b < 256" using unat_bound [of a] unat_bound [of b] by simp_all
  have "unat a div 16 = unat b div 16 \<and> unat a mod 16 = unat b mod 16 \<longleftrightarrow> unat a = unat b"
    by (metis div_mult_mod_eq)
  with a b show "fmt_hex2 a = fmt_hex2 b \<longleftrightarrow> a = b"
    by (simp add: fmt_hex2_eq digit_char_eq_iff word_unat_eq_iff)
  show "set (fmt_hex2 a) \<subseteq> set ''0123456789abcdef''"
    using a digit_char_hex [of "unat a div 16"] digit_char_hex [of "unat a mod 16"]
    by (simp add: fmt_hex2_eq)
qed

lemma separated_Cons: "separated (s # ss) = s @ (if ss = [] then '''' else '', '' @ separated ss)"
  by (cases ss) auto

lemma separated_bytes:
  "separated (map fmt_hex2 as) @ '']'' = separated (map fmt_hex2 bs) @ '']'' \<longleftrightarrow> as = bs"
proof (induction as arbitrary: bs)
  case Nil
  then show ?case by (cases bs) (auto simp: separated_Cons fmt_hex2_eq)
next
  case (Cons a as)
  show ?case
  proof (cases bs)
    case Nil
    then show ?thesis by (auto simp: separated_Cons fmt_hex2_eq)
  next
    case (Cons b bs')
    then show ?thesis using Cons.IH [of bs'] byte.pr_eq_iff [of a b]
      by (cases as; cases bs') (auto simp: separated_Cons fmt_hex2_eq)
  qed
qed

interpretation byte_list: printer fmt_hex2_list UNIV
  using separated_bytes by unfold_locales (simp_all add: fmt_hex2_list_def)


section \<open>The messages\<close>

fun dmar_error_display :: "dmar_error \<Rightarrow> string" where
  "dmar_error_display (DmarTooShort len) = ''DMAR table too short: '' @ fmt_dec len @ '' bytes''"
| "dmar_error_display (DmarBadSignature sig) = ''bad DMAR signature: '' @ fmt_hex2_list sig"
| "dmar_error_display (DmarBadLength claimed available) =
     ''bad length: claimed '' @ fmt_dec claimed @ '', available '' @ fmt_dec available"
| "dmar_error_display DmarBadChecksum = ''checksum mismatch''"

fun ivrs_error_display :: "ivrs_error \<Rightarrow> string" where
  "ivrs_error_display (IvrsTooShort len) = ''IVRS table too short: '' @ fmt_dec len @ '' bytes''"
| "ivrs_error_display (IvrsBadSignature sig) = ''bad IVRS signature: '' @ fmt_hex2_list sig"
| "ivrs_error_display (IvrsBadLength claimed available) =
     ''bad length: claimed '' @ fmt_dec claimed @ '', available '' @ fmt_dec available"
| "ivrs_error_display IvrsBadChecksum = ''checksum mismatch''"

fun amd_walk_error_display :: "amd_walk_error \<Rightarrow> string" where
  "amd_walk_error_display (AmdNotPresent level) = ''not present at level '' @ fmt_dec (unat level)"
| "amd_walk_error_display (AmdAddressTooLarge bits) =
     ''address exceeds '' @ fmt_dec (unat bits) @ ''-bit table width''"

fun intel_walk_error_display :: "intel_walk_error \<Rightarrow> string" where
  "intel_walk_error_display (IntelNotPresent level) = ''not present at level '' @ fmt_dec (unat level)"
| "intel_walk_error_display (IntelAddressTooLarge bits) =
     ''address exceeds '' @ fmt_dec (unat bits) @ ''-bit table width''"

fun addr_width_display :: "addr_width \<Rightarrow> string" where
  "addr_width_display Agaw39 = ''39-bit (3-level)''"
| "addr_width_display Agaw48 = ''48-bit (4-level)''"
| "addr_width_display Agaw57 = ''57-bit (5-level)''"
| "addr_width_display other = ''reserved ('' @ fmt_hex (unat (addr_width_bits other)) @ '')''"

fun delivery_mode_display :: "delivery_mode \<Rightarrow> string" where
  "delivery_mode_display DlmFixed = ''fixed''"
| "delivery_mode_display DlmLowestPriority = ''lowest-priority''"
| "delivery_mode_display DlmSmi = ''smi''"
| "delivery_mode_display DlmNmi = ''nmi''"
| "delivery_mode_display DlmInit = ''init''"
| "delivery_mode_display DlmExtInt = ''extint''"
| "delivery_mode_display (DlmReserved v) = ''reserved('' @ fmt_dec (unat v) @ '')''"

definition qi_type_display :: "qi_type \<Rightarrow> string" where
  "qi_type_display t =
     (if t = CONTEXT_CACHE then ''context-cache invalidate''
      else if t = IOTLB then ''IOTLB invalidate''
      else if t = DEVICE_TLB then ''device-TLB invalidate''
      else if t = INTERRUPT_ENTRY_CACHE then ''interrupt entry cache invalidate''
      else if t = WAIT then ''invalidation wait''
      else if t = PASID_IOTLB then ''PASID-based IOTLB invalidate''
      else if t = PASID_CACHE then ''PASID-cache invalidate''
      else if t = PASID_DEVICE_TLB then ''PASID-based device-TLB invalidate''
      else if t = PAGE_GROUP_RESPONSE then ''page group response''
      else ''unknown (0x'' @ fmt_hex (unat (qi_code t)) @ '')'')"

fun fault_reason_display :: "fault_reason \<Rightarrow> string" where
  "fault_reason_display FrNoFault = ''no fault''"
| "fault_reason_display FrRootEntryPresent = ''root entry not present''"
| "fault_reason_display FrContextEntryPresent = ''context entry not present''"
| "fault_reason_display FrContextEntryRsvd = ''context entry reserved bits''"
| "fault_reason_display FrContextEntryTt = ''unsupported translation type''"
| "fault_reason_display FrPagingEntryPresent = ''paging entry not present''"
| "fault_reason_display FrPagingEntryRsvd = ''paging entry reserved bits''"
| "fault_reason_display FrAccessBlocked = ''DMA access blocked''"
| "fault_reason_display FrPasidDirAccess = ''PASID directory access failure''"
| "fault_reason_display FrPasidDirPresent = ''PASID directory entry not present''"
| "fault_reason_display FrPasidTableAccess = ''PASID table access failure''"
| "fault_reason_display FrPasidTablePresent = ''PASID table entry not present''"
| "fault_reason_display FrPasidTableInvalid = ''PASID table entry invalid''"
| "fault_reason_display FrIrRequestRsvd = ''IR request reserved fields''"
| "fault_reason_display FrIrIndexOver = ''IR index out of range''"
| "fault_reason_display FrIrEntryPresent = ''IRTE not present''"
| "fault_reason_display FrIrRootInvalid = ''invalid IR table address''"
| "fault_reason_display FrIrteRsvd = ''IRTE reserved bits''"
| "fault_reason_display FrIrRequestCompat = ''compat interrupt while IR disabled''"
| "fault_reason_display FrIrSourceId = ''interrupt source-id invalid''"
| "fault_reason_display FrRtaddrInvalidTtm = ''invalid TTM in RTADDR''"
| "fault_reason_display FrSmContextEntryPresent = ''scalable context entry not present''"
| "fault_reason_display FrFsPagingEntryAccess = ''first-stage entry access failure''"
| "fault_reason_display FrFsPagingEntryPresent = ''first-stage entry not present''"
| "fault_reason_display FrFsPagingEntryRsvd = ''first-stage entry reserved bits''"
| "fault_reason_display FrFsptptrInvalid = ''invalid FSPTPTR''"
| "fault_reason_display FrFsNonCanonical = ''non-canonical first-stage address''"
| "fault_reason_display FrFsPrivilege = ''first-stage privilege violation''"
| "fault_reason_display FrSmWrite = ''write without permission''"
| "fault_reason_display FrSmInterruptAddr = ''output in interrupt address range''"
| "fault_reason_display (FrOther v) = ''fault reason 0x'' @ fmt_hex2 v"

text \<open>
  Every message is a printer: what it starts with decides the variant, and the payload is delimited or
  ends the message.
\<close>

lemmas message_simps = decimal.delimited [of "CHR '' ''" _ "''bytes''"] decimal.delimited [of "CHR '',''"]
  decimal.delimited [of "CHR ''-''"] decimal.pr_eq_iff hexadecimal.pr_eq_iff byte.pr_eq_iff byte_list.pr_eq_iff
  word_unat_eq_iff

interpretation dmar_error: printer dmar_error_display UNIV
proof
  show "dmar_error_display a = dmar_error_display b \<longleftrightarrow> a = b" for a b
    by (cases a; cases b) (simp_all add: message_simps)
qed simp

interpretation ivrs_error: printer ivrs_error_display UNIV
proof
  show "ivrs_error_display a = ivrs_error_display b \<longleftrightarrow> a = b" for a b
    by (cases a; cases b) (simp_all add: message_simps)
qed simp

interpretation amd_walk_error: printer amd_walk_error_display UNIV
proof
  show "amd_walk_error_display a = amd_walk_error_display b \<longleftrightarrow> a = b" for a b
    by (cases a; cases b) (simp_all add: message_simps)
qed simp

interpretation intel_walk_error: printer intel_walk_error_display UNIV
proof
  show "intel_walk_error_display a = intel_walk_error_display b \<longleftrightarrow> a = b" for a b
    by (cases a; cases b) (simp_all add: message_simps)
qed simp

interpretation delivery_mode: printer delivery_mode_display UNIV
proof
  show "delivery_mode_display a = delivery_mode_display b \<longleftrightarrow> a = b" for a b
    by (cases a; cases b) (simp_all add: message_simps)
qed simp

interpretation fault_reason: printer fault_reason_display UNIV
proof
  show "fault_reason_display a = fault_reason_display b \<longleftrightarrow> a = b" for a b
    by (cases a; cases b) (simp_all add: message_simps)
qed simp

text \<open>The descriptor type is matched against constants, with the number as the last resort.\<close>

definition qi_type_names :: "(qi_type \<times> string) list" where
  "qi_type_names =
     [(CONTEXT_CACHE, ''context-cache invalidate''), (IOTLB, ''IOTLB invalidate''),
      (DEVICE_TLB, ''device-TLB invalidate''), (INTERRUPT_ENTRY_CACHE, ''interrupt entry cache invalidate''),
      (WAIT, ''invalidation wait''), (PASID_IOTLB, ''PASID-based IOTLB invalidate''),
      (PASID_CACHE, ''PASID-cache invalidate''), (PASID_DEVICE_TLB, ''PASID-based device-TLB invalidate''),
      (PAGE_GROUP_RESPONSE, ''page group response'')]"

lemma qi_type_display_table:
  "qi_type_display t = (case map_of qi_type_names t of
     Some s \<Rightarrow> s | None \<Rightarrow> ''unknown (0x'' @ fmt_hex (unat (qi_code t)) @ '')'')"
  by (simp add: qi_type_display_def qi_type_names_def)

lemma qi_type_names_unique: "(a, s) \<in> set qi_type_names \<Longrightarrow> (b, s) \<in> set qi_type_names \<Longrightarrow> a = b"
  unfolding qi_type_names_def by auto

lemma qi_type_names_known: "(a, ''unknown (0x'' @ s) \<notin> set qi_type_names"
  unfolding qi_type_names_def by simp

interpretation qi_type: printer qi_type_display UNIV
proof
  show "qi_type_display a = qi_type_display b \<longleftrightarrow> a = b" for a b
  proof
    assume eq: "qi_type_display a = qi_type_display b"
    show "a = b"
    proof (cases "map_of qi_type_names a"; cases "map_of qi_type_names b")
      assume "map_of qi_type_names a = None" "map_of qi_type_names b = None"
      with eq show ?thesis by (simp add: qi_type_display_table message_simps qi_type.expand)
    qed (use eq in \<open>auto simp: qi_type_display_table dest!: map_of_SomeD
          dest: qi_type_names_unique simp: qi_type_names_known [simplified]\<close>)
  qed simp
qed simp

text \<open>A width that was decoded from a register prints the three bits it was decoded from.\<close>

lemma addr_width_display_decoded:
  "addr_width_display (addr_width_from_bits v) = addr_width_display (addr_width_from_bits w) \<longleftrightarrow>
   take_bit 3 v = take_bit 3 w"
  using mask3_cases [of v] mask3_cases [of w]
  by (auto simp: addr_width_from_bits_def masked_literal message_simps)

text \<open>C39: Every message identifies what it reports: the texts the Display implementations write for the two
  table errors, the two walk errors, the fault reasons, the delivery modes and the descriptor types are
  injective, with numbers of any size and signatures of any bytes, and two address widths decoded from
  three bits print alike exactly when the bits agree.\<close>

theorem displays_identify:
  "inj dmar_error_display \<and> inj ivrs_error_display \<and> inj amd_walk_error_display \<and>
   inj intel_walk_error_display \<and> inj fault_reason_display \<and> inj delivery_mode_display \<and>
   inj qi_type_display \<and>
   (addr_width_display (addr_width_from_bits v) = addr_width_display (addr_width_from_bits w) \<longleftrightarrow>
     take_bit 3 v = take_bit 3 w)"
  by (intro conjI dmar_error.pr_inj ivrs_error.pr_inj amd_walk_error.pr_inj intel_walk_error.pr_inj
      fault_reason.pr_inj delivery_mode.pr_inj qi_type.pr_inj addr_width_display_decoded)

end
