(* ===== verification/Dmar_Table.thy ===== *)
theory Dmar_Table
  imports Intel_Dmar
begin

text \<open>
  The DMAR table as a codec (\<^verbatim>\<open>intel-iommu/src/dmar.rs\<close>): what every structure type contains, the bytes
  firmware writes for it, and the reader that a client of the crate composes from the iterators and
  accessors.  Reading is a left inverse of writing for whole tables.
\<close>

section \<open>Contents\<close>

text \<open>The byte of a scope type: \<open>scope_type_from\<close> is injective, its inverse is \<open>scope_type_code\<close>.\<close>

fun scope_type_code :: "scope_type \<Rightarrow> u8" where
  "scope_type_code PciEndpoint = 0x01"
| "scope_type_code PciSubhierarchy = 0x02"
| "scope_type_code ScopeIoapic = 0x03"
| "scope_type_code MsiCapableHpet = 0x04"
| "scope_type_code AcpiNamespaceDevice = 0x05"
| "scope_type_code (ScopeReserved v) = v"

interpretation scope_codec: enum_codec scope_type_from scope_type_code 8
  by unfold_locales (auto simp: scope_type_from_def)

text \<open>One constructor per structure type, with one argument per accessor.\<close>

datatype struct_content =
    CDrhd bool u8 u16 u64 "device_scope list"
  | CRmrr u16 u64 u64 "device_scope list"
  | CAtsr bool u16 "device_scope list"
  | CRhsa u32 u64 u32
  | CAndd u8 u16 bytes
  | CSatc bool u16 "device_scope list"
  | CSidp u16 "device_scope list"
  | CUnknown u8 bytes

text \<open>What a client reads: the iterator item, taken apart by the accessors of its type.\<close>

fun read_struct :: "remap_struct \<Rightarrow> struct_content" where
  "read_struct (RDrhd d) = CDrhd (include_pci_all d) (register_size_order d) (drhd_segment d) (register_base d)
     (drhd_scopes d)"
| "read_struct (RRmrr r) = CRmrr (rmrr_segment r) (rmrr_base r) (rmrr_limit r) (rmrr_scopes r)"
| "read_struct (RAtsr a) = CAtsr (all_ports a) (atsr_segment a) (atsr_scopes a)"
| "read_struct (RRhsa r) = CRhsa (rhsa_segment r) (rhsa_base r) (proximity_domain r)"
| "read_struct (RAndd a) = CAndd (acpi_device_number a) (andd_segment a) (object_name a)"
| "read_struct (RSatc a) = CSatc (atc_required a) (satc_segment a) (satc_scopes a)"
| "read_struct (RSidp a) = CSidp (sidp_segment a) (sidp_scopes a)"
| "read_struct (RUnknown ty raw) = CUnknown ty (drop 4 raw)"

section \<open>Images\<close>

definition device_scope_image :: "device_scope \<Rightarrow> bytes" where
  "device_scope_image s =
     [scope_type_code (scope_ty s), of_nat (6 + length (scope_path s))] @ to_le_bytes (scope_flags s) @
     [enumeration_id s, scope_bus s] @ scope_path s"

definition scopes_image :: "device_scope list \<Rightarrow> bytes" where
  "scopes_image ss = concat (map device_scope_image ss)"

text \<open>A structure with the given type code and bytes after its four-byte header.\<close>

definition struct_image :: "u8 \<Rightarrow> bytes \<Rightarrow> bytes" where
  "struct_image ty body = [ty, 0] @ to_le_bytes (of_nat (4 + length body) :: u16) @ body"

fun content_type :: "struct_content \<Rightarrow> u8" where
  "content_type (CDrhd _ _ _ _ _) = 0"
| "content_type (CRmrr _ _ _ _) = 1"
| "content_type (CAtsr _ _ _) = 2"
| "content_type (CRhsa _ _ _) = 3"
| "content_type (CAndd _ _ _) = 4"
| "content_type (CSatc _ _ _) = 5"
| "content_type (CSidp _ _) = 6"
| "content_type (CUnknown ty _) = ty"

fun content_body :: "struct_content \<Rightarrow> bytes" where
  "content_body (CDrhd all order seg base ss) =
     [of_bool all, order] @ to_le_bytes seg @ to_le_bytes base @ scopes_image ss"
| "content_body (CRmrr seg base limit ss) =
     [0, 0] @ to_le_bytes seg @ to_le_bytes base @ to_le_bytes limit @ scopes_image ss"
| "content_body (CAtsr all seg ss) = [of_bool all, 0] @ to_le_bytes seg @ scopes_image ss"
| "content_body (CRhsa seg base prox) =
     [0, 0, 0, 0] @ to_le_bytes seg @ to_le_bytes base @ to_le_bytes prox"
| "content_body (CAndd number seg name) = [0, 0, 0, number] @ to_le_bytes seg @ name @ [0]"
| "content_body (CSatc req seg ss) = [of_bool req, 0] @ to_le_bytes seg @ scopes_image ss"
| "content_body (CSidp seg ss) = [0, 0] @ to_le_bytes seg @ scopes_image ss"
| "content_body (CUnknown _ body) = body"

definition content_image :: "struct_content \<Rightarrow> bytes" where
  "content_image c = struct_image (content_type c) (content_body c)"

section \<open>Which contents a table can hold\<close>

text \<open>A scope's path fits its length byte and its type is one a byte decodes to.\<close>

definition scope_ok :: "device_scope \<Rightarrow> bool" where
  "scope_ok s \<longleftrightarrow> 6 + length (scope_path s) < 256 \<and> scope_type_from (scope_type_code (scope_ty s)) = scope_ty s"

fun content_scopes :: "struct_content \<Rightarrow> device_scope list" where
  "content_scopes (CDrhd _ _ _ _ ss) = ss"
| "content_scopes (CRmrr _ _ _ ss) = ss"
| "content_scopes (CAtsr _ _ ss) = ss"
| "content_scopes (CSatc _ _ ss) = ss"
| "content_scopes (CSidp _ ss) = ss"
| "content_scopes _ = []"

fun fields_ok :: "struct_content \<Rightarrow> bool" where
  "fields_ok (CDrhd _ order _ _ _) \<longleftrightarrow> order < 16"
| "fields_ok (CAndd _ _ name) \<longleftrightarrow> 0 \<notin> set name"
| "fields_ok (CUnknown ty _) \<longleftrightarrow> 6 < ty"
| "fields_ok _ \<longleftrightarrow> True"

definition content_ok :: "struct_content \<Rightarrow> bool" where
  "content_ok c \<longleftrightarrow> fields_ok c \<and> list_all scope_ok (content_scopes c) \<and> 4 + length (content_body c) < 2 ^ 16"

section \<open>Reading back one structure\<close>

lemma device_scope_record:
  assumes "scope_ok s"
  shows "6 \<le> length (device_scope_image s)" "unat (device_scope_image s ! 1) = length (device_scope_image s)"
    "scope_parse (device_scope_image s) = s"
  using assms
  by (simp_all add: device_scope_image_def scope_ok_def scope_parse_def nth_append unat_of_nat_in
      to_le_bytes16 pair_le16 [unfolded to_le_bytes16, simplified] del: of_nat_add of_nat_Suc)

lemma scopes_read:
  assumes "list_all scope_ok ss"
  shows "collect scope_next (scopes_image ss) = ss"
proof -
  have "collect scope_next (concat (map device_scope_image ss)) = map scope_parse (map device_scope_image ss)"
    by (rule scopes.collect_records) (use assms device_scope_record in \<open>auto simp: list_all_iff\<close>)
  also have "\<dots> = ss"
    using assms by (induction ss) (simp_all add: device_scope_record(3))
  finally show ?thesis by (simp only: scopes_image_def)
qed

text \<open>Every accessor of a structure reads its field at an offset of the image.\<close>

lemmas struct_reads = include_pci_all_def register_size_order_def drhd_segment_def register_base_def
  drhd_scopes_def rmrr_segment_def rmrr_base_def rmrr_limit_def rmrr_scopes_def all_ports_def
  atsr_segment_def atsr_scopes_def rhsa_segment_def rhsa_base_def proximity_domain_def
  acpi_device_number_def andd_segment_def object_name_def atc_required_def satc_segment_def
  satc_scopes_def sidp_segment_def sidp_scopes_def

lemma struct_image_record:
  assumes "4 + length body < 2 ^ 16"
  shows "4 \<le> length (struct_image ty body)" "struct_size (struct_image ty body) = length (struct_image ty body)"
  using assms
  by (simp_all add: struct_image_def struct_size_def nth_append pair_le16 [simplified] unat_of_nat_in
      del: of_nat_add)

lemma order_nibble: "order < 16 \<Longrightarrow> order AND 0x0f = order" for order :: u8
proof -
  assume "order < 16"
  then have "take_bit 4 order = order"
    by (simp add: word_unat_eq_iff unsigned_take_bit_eq take_bit_nat_eq_self word_less_nat_alt)
  then show ?thesis by (simp add: take_bit_eq_mask mask_numeral)
qed

lemma name_read: "0 \<notin> set name \<Longrightarrow> takeWhile (\<lambda>b. b \<noteq> 0) (name @ [0]) = name" for name :: bytes
  by (induction name) auto

lemma content_read:
  assumes "content_ok c"
  shows "read_struct (struct_parse (content_image c)) = c"
  using assms
  by (cases c)
    (auto simp: content_ok_def content_image_def struct_image_def struct_parse_def struct_reads scopes_after_def
      scopes_read slice_from_def slice_get_def byte_get_def le16_def le32_def le64_def nth_append
      pair_le16 [simplified] order_nibble name_read Let_def)

section \<open>Whole tables\<close>

lemma content_record:
  assumes "content_ok c"
  shows "4 \<le> length (content_image c)" "struct_size (content_image c) = length (content_image c)"
  using assms struct_image_record [of "content_body c"] by (simp_all add: content_ok_def content_image_def)

lemma dmar_image_header:
  assumes oem: "length oem = 26" and t: "t = \<lparr>dmar_raw = dmar_image revision oem haw flags raws\<rparr>"
  shows "dmar_signature t = Inr DMAR_SIG" "dmar_revision t = Inr revision" "dmar_oem_id t = Inr (take 6 oem)"
proof -
  let ?body = "oem @ [haw, flags] @ replicate 10 0 @ concat raws"
  note parts = acpi_image_parts(1,3,4) [of DMAR_SIG revision ?body]
    and len = length_acpi_image [of DMAR_SIG revision ?body]
  have sig: "length DMAR_SIG = 4" by (simp add: DMAR_SIG_def)
  show "dmar_signature t = Inr DMAR_SIG" "dmar_revision t = Inr revision"
    using parts len oem sig by (simp_all add: t dmar_image_def dmar_signature_def dmar_revision_def)
  have "take 6 (drop 10 (acpi_image DMAR_SIG revision ?body)) = take 6 oem"
    using parts(2) [OF sig] oem by simp
  then show "dmar_oem_id t = Inr (take 6 oem)"
    using len oem sig by (simp add: t dmar_image_def dmar_oem_id_def)
qed

text \<open>C11: A DMAR table is read back completely: from the bytes of a table of less than \<open>2^32\<close> bytes with a
  header of any revision, OEM fields (26 bytes), width byte and flags, and any list of structures of all
  seven types and of unknown ones, whatever follows them in memory, the validator returns a view whose header
  accessors give the header (for the width byte 255 the width accessor panics instead), and whose
  iterator gives the structures in order, each with every field, every device scope and every path the bytes
  were written from.  The contents are those a structure can hold (\<open>content_ok\<close>): lengths fit their 16-bit
  and 8-bit fields, the size order of a DRHD its four bits, an object name has no zero byte, and an unknown type
  or scope type is none of the known codes.  An RHSA is written with the fields at the offsets the accessors
  use, 24 bytes long, although its comment calls it a 20-byte structure.\<close>

theorem dmar_table_roundtrip:
  assumes "length oem = 26" "list_all content_ok cs"
    and "48 + length (concat (map content_image cs)) < 2 ^ 32"
  shows "\<exists>t ss. dmar_new (dmar_image revision oem haw flags (map content_image cs) @ tail) = Inr t \<and>
    dmar_revision t = Inr revision \<and> dmar_oem_id t = Inr (take 6 oem) \<and>
    host_address_width t = (if haw = 255 then Inl AddOverflow else Inr (haw + 1)) \<and>
    intr_remap_required t = Inr (bit flags 0) \<and> x2apic_opt_out t = Inr (bit flags 1) \<and>
    dmar_structs t = Inr ss \<and> map read_struct ss = cs"
proof -
  let ?t = "\<lparr>dmar_raw = dmar_image revision oem haw flags (map content_image cs)\<rparr>"
  have raws: "4 \<le> length r \<and> struct_size r = length r" if "r \<in> set (map content_image cs)" for r
    using that assms(2) content_record by (auto simp: list_all_iff)
  note built = dmar_image_accepted [OF assms(1,3) raws refl]
  have "dmar_flags_raw ?t = Inr flags" by (rule built(3))
  then have flags: "intr_remap_required ?t = Inr (bit flags 0)" "x2apic_opt_out ?t = Inr (bit flags 1)"
    by (simp_all add: intr_remap_required_def x2apic_opt_out_def flag_tests)
  have "map read_struct (map struct_parse (map content_image cs)) = cs"
    using assms(2) content_read by (induction cs) simp_all
  moreover have "dmar_structs ?t = Inr (map struct_parse (map content_image cs))"
    "host_address_width ?t = (if haw = 255 then Inl AddOverflow else Inr (haw + 1))"
    by (rule built(2), assumption, rule built(4))
  ultimately show ?thesis
    using flags dmar_image_header [OF assms(1) refl]
    by (intro exI [of _ ?t] exI [of _ "map struct_parse (map content_image cs)"] conjI built(1))
qed

text \<open>A table with one structure of every type.\<close>

definition sample_scope :: device_scope where
  "sample_scope = \<lparr>scope_ty = ScopeIoapic, scope_bus = 0xf0, enumeration_id = 8, scope_flags = 0,
     scope_path = [0x1f, 0]\<rparr>"

definition sample_contents :: "struct_content list" where
  "sample_contents =
     [CDrhd True 1 0 0xfed90000 [sample_scope, sample_scope\<lparr>scope_ty := ScopeReserved 9\<rparr>],
      CRmrr 0 0x7b800000 0x7fffffff [sample_scope], CAtsr False 1 [], CRhsa 0 0xfed90000 2,
      CAndd 3 0 [0x5c, 0x5f, 0x53, 0x42], CSatc True 0 [sample_scope], CSidp 7 [], CUnknown 0x20 [1, 2]]"

theorem dmar_table_roundtrip_witness:
  "\<exists>t ss. dmar_new (dmar_image 1 (replicate 26 0x20) 51 3 (map content_image sample_contents)) = Inr t \<and>
    host_address_width t = Inr 52 \<and> x2apic_opt_out t = Inr True \<and>
    dmar_structs t = Inr ss \<and> map read_struct ss = sample_contents"
proof -
  have ok: "list_all content_ok sample_contents"
    by (simp add: sample_contents_def sample_scope_def content_ok_def scope_ok_def scope_type_from_def
        device_scope_image_def scopes_image_def)
  have "length (concat (map content_image sample_contents)) < 2 ^ 31"
    by (simp add: sample_contents_def sample_scope_def content_image_def struct_image_def device_scope_image_def
        scopes_image_def)
  then show ?thesis
    using dmar_table_roundtrip [OF _ ok, of "replicate 26 0x20" 1 51 3 "[]"] by auto
qed

end
