(* ===== verification/Ivrs_Table.thy ===== *)
theory Ivrs_Table
  imports Amd_Ivrs
begin

text \<open>
  The IVRS table as a codec (\<^verbatim>\<open>amd-iommu/src/ivrs.rs\<close>): what the blocks and device entries contain, the
  bytes firmware writes for them, and the reader that a client of the crate composes from the iterators
  and accessors.  Reading is a left inverse of writing for whole tables, and a panic of an accessor is a
  result of the reader.
\<close>

section \<open>Device entries\<close>

fun device_type_code :: "device_type \<Rightarrow> u8" where
  "device_type_code DevAll = 0x01"
| "device_type_code DevSelect = 0x02"
| "device_type_code DevAliasSelect = 0x03"
| "device_type_code DevSpecial = 0x40"
| "device_type_code DevAcpiHid = 0x48"
| "device_type_code (DevReserved v) = v"

text \<open>An entry of the variable format keeps its bytes, so its type code is among them.\<close>

fun entry_image :: "device_entry \<Rightarrow> bytes" where
  "entry_image (DeShort ty d d2) = [device_type_code ty, 0, d, d2]"
| "entry_image (DeLong ty b df sid) = [device_type_code ty, 0, b, df, 0, 0] @ to_le_bytes sid"
| "entry_image (DeVariable ty raw) = raw"

text \<open>The entries the iterator can yield.\<close>

fun entry_ok :: "device_entry \<Rightarrow> bool" where
  "entry_ok (DeShort ty d d2) \<longleftrightarrow> \<not> is_variable (device_type_code ty) \<and> \<not> is_long (device_type_code ty) \<and>
     device_type_from (device_type_code ty) = ty"
| "entry_ok (DeLong ty b df sid) \<longleftrightarrow> is_long (device_type_code ty) \<and> device_type_from (device_type_code ty) = ty"
| "entry_ok (DeVariable ty raw) \<longleftrightarrow> 4 \<le> length raw \<and> is_variable (raw ! 0) \<and> unat (raw ! 1) = length raw \<and>
     device_type_from (raw ! 0) = ty"

lemma entry_record:
  "entry_ok e \<Longrightarrow> 4 \<le> length (entry_image e) \<and> device_size (entry_image e) = length (entry_image e) \<and>
     device_parse (entry_image e) = e"
  by (cases e) (auto simp: device_size_def device_parse_def not_long nth_append pair_le16 [simplified] Let_def)

lemma entries_read:
  assumes "list_all entry_ok es"
  shows "collect device_next (concat (map entry_image es)) = es"
proof -
  have "collect device_next (concat (map entry_image es)) = map device_parse (map entry_image es)"
    by (rule devices.collect_records) (use assms entry_record in \<open>auto simp: list_all_iff\<close>)
  also have "\<dots> = es"
    using assms by (induction es) (simp_all add: entry_record)
  finally show ?thesis .
qed

text \<open>Conversely, the iterator yields only such entries, and they take up the bytes they were read from.\<close>

lemma special_codes: "0x40 \<le> v \<Longrightarrow> v \<le> 0x42 \<Longrightarrow> is_variable v" for v :: u8
proof -
  assume "0x40 \<le> v" "v \<le> 0x42"
  then have "unat v = 0x40 \<or> unat v = 0x41 \<or> unat v = 0x42" by (auto simp: word_le_nat_alt)
  then show ?thesis by (auto simp: is_variable_def word_unat_eq_iff)
qed

lemma device_type_code_from: "\<not> is_variable v \<Longrightarrow> device_type_code (device_type_from v) = v"
  using special_codes [of v] by (auto simp: device_type_from_def is_variable_def)

lemma device_next_ok: "device_next bs = Some (e, rest) \<Longrightarrow> entry_ok e"
  by (auto simp: devices.next_eq device_parse_def device_size_def Let_def device_type_code_from not_long
      split: if_splits)

section \<open>Blocks\<close>

text \<open>One argument per accessor; the optional fields are those the crate returns as options.\<close>

datatype block_content =
    CIvhd entry_type u8 u8 u16 u64 "(u16 \<times> u16) option" "u32 option" "u32 option" "device_entry list"
  | CIvmd u8 u16 u64 u64
  | CBlockUnknown u8 bytes

fun read_block :: "ivrs_block \<Rightarrow> block_content run" where
  "read_block (BIvhd h) =
     run_bind (ivhd_entry_type h) (\<lambda>ty.
     run_bind (ivhd_flags h) (\<lambda>flags.
     run_bind (iommu_id h) (\<lambda>i.
     run_bind (ivhd_segment h) (\<lambda>seg.
     run_bind (extended_features h) (\<lambda>ext.
     run_bind (ivhd_devices h) (\<lambda>es.
       Inr (CIvhd ty flags i seg (ivhd_base_address h) (device_range h) (ivhd_capability h) ext es)))))))"
| "read_block (BIvmd m) =
     run_bind (ivmd_flags m) (\<lambda>flags.
     run_bind (ivmd_segment m) (\<lambda>seg. Inr (CIvmd flags seg (ivmd_base m) (ivmd_length m))))"
| "read_block (BUnknown ty raw) = Inr (CBlockUnknown ty (drop 4 raw))"

fun entry_type_code :: "entry_type \<Rightarrow> u8" where
  "entry_type_code IvhdType10 = 0x10"
| "entry_type_code IvhdType11 = 0x11"
| "entry_type_code IvhdType40 = 0x40"
| "entry_type_code IvmdType = 0x20"
| "entry_type_code (EntryReserved v) = v"

text \<open>
  The bytes of a block.  \<open>gap\<close> stands for the three bytes between the last field of an IVHD header, which ends at
  21 or, with the feature word, at 25, and the 24 or 28 bytes after which the code of \<^verbatim>\<open>devices\<close> reads device
  entries; nothing documents them, and the comment there adds the header up to 20 or 24 bytes.
\<close>

fun block_image :: "bytes \<Rightarrow> block_content \<Rightarrow> bytes" where
  "block_image gap (CIvhd ty flags i seg base rng cap ext es) =
     (let rng_bytes = (case rng of Some (lo, hi) \<Rightarrow> [ucast lo, ucast hi] | None \<Rightarrow> []);
          cap_bytes = (case cap of Some c \<Rightarrow> to_le_bytes c | None \<Rightarrow> []);
          ext_bytes = (case ext of Some x \<Rightarrow> to_le_bytes x | None \<Rightarrow> []);
          body = [i] @ to_le_bytes seg @ to_le_bytes base @ rng_bytes @ cap_bytes @ ext_bytes @ gap @
            concat (map entry_image es)
      in [entry_type_code ty, flags] @ to_le_bytes (of_nat (4 + length body) :: u16) @ body)"
| "block_image gap (CIvmd flags seg base len) =
     [0x20, flags] @ to_le_bytes (24 :: u16) @ to_le_bytes seg @ [0, 0] @ to_le_bytes base @ to_le_bytes len"
| "block_image gap (CBlockUnknown ty body) = [ty, 0] @ to_le_bytes (of_nat (4 + length body) :: u16) @ body"

fun block_fields_ok :: "block_content \<Rightarrow> bool" where
  "block_fields_ok (CIvhd ty flags i seg base rng cap ext es) \<longleftrightarrow>
     ty \<in> {IvhdType10, IvhdType11, IvhdType40} \<and> (\<exists>lo hi. rng = Some (ucast (lo :: u8), ucast (hi :: u8))) \<and>
     cap \<noteq> None \<and> (ext = None \<longleftrightarrow> ty = IvhdType10) \<and> list_all entry_ok es"
| "block_fields_ok (CIvmd flags seg base len) \<longleftrightarrow> True"
| "block_fields_ok (CBlockUnknown ty body) \<longleftrightarrow> ty \<notin> {0x10, 0x11, 0x20, 0x40}"

definition block_ok :: "bytes \<Rightarrow> block_content \<Rightarrow> bool" where
  "block_ok gap c \<longleftrightarrow> length gap = 3 \<and> block_fields_ok c \<and> length (block_image gap c) < 2 ^ 16"

lemmas block_reads = ivhd_entry_type_def ivhd_flags_def iommu_id_def ivhd_segment_def ivhd_base_address_def
  device_range_def ivhd_capability_def extended_features_def ivhd_devices_def ivmd_flags_def
  ivmd_segment_def ivmd_base_def ivmd_length_def

lemma block_record:
  assumes "block_ok gap c"
  shows "4 \<le> length (block_image gap c)" "block_size (block_image gap c) = length (block_image gap c)"
  using assms
  by (cases c; auto simp: block_ok_def block_size_def Let_def nth_append pair_le16 [simplified] unat_of_nat_in
      simp del: of_nat_add)+

lemma ivhd_read:
  fixes lo hi :: u8
  assumes "length gap = 3" "list_all entry_ok es" "ty = IvhdType10 \<and> ext = None \<or> ty \<in> {IvhdType11, IvhdType40} \<and> ext = Some x"
  shows "read_block (BIvhd (Ivhd (block_image gap (CIvhd ty flags i seg base (Some (ucast lo, ucast hi)) (Some cap) ext es))))
    = Inr (CIvhd ty flags i seg base (Some (ucast lo, ucast hi)) (Some cap) ext es)"
proof -
  consider "ty = IvhdType10" "ext = None" | "ty = IvhdType11" "ext = Some x" | "ty = IvhdType40" "ext = Some x"
    using assms(3) by blast
  then show ?thesis
    using assms(1) entries_read [OF assms(2)]
    by cases (simp_all add: block_reads entry_type_from_def slice_from_def slice_get_def byte_get_def nth_append
        pair_le16 [simplified] Let_def)
qed

lemma ivhd_parse:
  assumes "ty \<in> {IvhdType10, IvhdType11, IvhdType40}"
  shows "block_parse (block_image gap (CIvhd ty flags i seg base rng cap ext es)) =
    BIvhd (Ivhd (block_image gap (CIvhd ty flags i seg base rng cap ext es)))"
  using assms by (auto simp: block_parse_def entry_type_from_def Let_def)

lemma ivmd_read: "read_block (block_parse (block_image gap (CIvmd flags seg base len))) = Inr (CIvmd flags seg base len)"
  by (simp add: block_parse_def entry_type_from_def block_reads slice_get_def nth_append pair_le16 [simplified])

lemma block_read:
  assumes "block_ok gap c"
  shows "read_block (block_parse (block_image gap c)) = Inr c"
proof (cases c)
  case (CIvhd ty flags i seg base rng cap ext es)
  have gap: "length gap = 3" using assms by (simp add: block_ok_def)
  obtain lo hi k where parts: "rng = Some (ucast (lo :: u8), ucast (hi :: u8))" "cap = Some k"
    "list_all entry_ok es" "ty \<in> {IvhdType10, IvhdType11, IvhdType40}"
    "ty = IvhdType10 \<and> ext = None \<or> ty \<in> {IvhdType11, IvhdType40} \<and> ext = Some (the ext)"
    using CIvhd assms unfolding block_ok_def block_fields_ok.simps by (cases ext) auto
  show ?thesis
    unfolding CIvhd ivhd_parse [OF parts(4)] unfolding parts(1,2) by (rule ivhd_read [OF gap parts(3,5)])
next
  case CIvmd
  then show ?thesis by (simp only: ivmd_read)
next
  case CBlockUnknown
  then show ?thesis using assms by (simp add: block_ok_def block_parse_def entry_type_from_def)
qed

section \<open>Whole tables\<close>

text \<open>C13: An IVRS table is read back completely: from the bytes of a table of less than \<open>2^32\<close> bytes with any
  header and any list of blocks (IVHD types 10h, 11h and 40h with device entries of every format, memory
  definitions of type 20h and unknown blocks; each shorter than \<open>2^16\<close> bytes, with contents the crate can name,
  \<open>block_fields_ok\<close>), whatever follows them in memory, the validator returns a view whose iterator gives the
  blocks in order, no accessor panics, and every field and device entry is the one the bytes were written
  from.  The device entries are written where the code looks for them, 24 bytes into a block of type 10h and 28
  into the others, with any three bytes before them: the comment of \<^verbatim>\<open>devices\<close>, which adds the header up to 20
  and 24 bytes, describes another layout, which the code does not read.  The capability word is read from all
  three types, although it is documented for 10h and 11h.\<close>

theorem ivrs_table_roundtrip:
  assumes "length header = 34" "list_all (case_prod block_ok) cs"
    and "44 + length (concat (map (case_prod block_image) cs)) < 2 ^ 32"
  shows "\<exists>t bs. ivrs_new (ivrs_image revision header (map (case_prod block_image) cs) @ tail) = Inr t \<and>
    ivrs_revision t = Inr revision \<and> ivrs_blocks t = Inr bs \<and> map read_block bs = map (Inr \<circ> snd) cs"
proof -
  let ?raws = "map (case_prod block_image) cs"
  let ?t = "\<lparr>ivrs_raw = ivrs_image revision header ?raws\<rparr>"
  have raws: "4 \<le> length r \<and> block_size r = length r" if "r \<in> set ?raws" for r
    using that assms(2) block_record by (fastforce simp: list_all_iff)
  note built = ivrs_image_accepted [OF assms(1,3) raws refl]
  have sig: "length IVRS_SIG = 4" by (simp add: IVRS_SIG_def)
  have "ivrs_revision ?t = Inr revision"
    using acpi_image_parts(4) [OF sig, of revision "header @ concat ?raws"] length_acpi_image [OF sig]
    by (simp add: ivrs_revision_def ivrs_image_def)
  moreover have "map read_block (map block_parse ?raws) = map (Inr \<circ> snd) cs"
    using assms(2) block_read by (induction cs) auto
  ultimately show ?thesis
    by (intro exI [of _ ?t] exI [of _ "map block_parse ?raws"] conjI built)
qed

text \<open>A table with one block of every kind.\<close>

definition sample_blocks :: "block_content list" where
  "sample_blocks =
     [CIvhd IvhdType10 0xb0 2 1 0xfed80000 (Some (8, 0xff)) (Some 0x18ff) None
        [DeShort DevSelect 8 0, DeLong DevAliasSelect 1 2 0x1234, DeVariable DevAcpiHid [0x48, 5, 0, 7, 9]],
      CIvhd IvhdType40 0 0 0 0xfed90000 (Some (0, 0)) (Some 0) (Some 0x80486) [DeShort (DevReserved 4) 0 9],
      CIvmd 8 0 0x7b800000 0x1000, CBlockUnknown 0x22 [1, 2, 3]]"

theorem ivrs_table_roundtrip_witness:
  "\<exists>t bs. ivrs_new (ivrs_image 1 (replicate 34 0) (map (block_image [1, 2, 3]) sample_blocks) @ [7]) = Inr t \<and>
    ivrs_blocks t = Inr bs \<and> map read_block bs = map Inr sample_blocks"
proof -
  let ?cs = "map (Pair [1, 2, 3]) sample_blocks"
  have "\<exists>lo hi. (8 :: u16) = ucast (lo :: u8) \<and> (0xff :: u16) = ucast (hi :: u8)"
    by (rule exI [where x = "8 :: u8"], rule exI [where x = "0xff :: u8"]) simp
  moreover have "\<exists>lo hi. (0 :: u16) = ucast (lo :: u8) \<and> (0 :: u16) = ucast (hi :: u8)"
    by (rule exI [where x = "0 :: u8"], rule exI [where x = "0 :: u8"]) simp
  ultimately have ok: "list_all (case_prod block_ok) ?cs"
    by (simp add: sample_blocks_def block_ok_def is_variable_def is_long_def device_type_from_def word_le_nat_alt
        Let_def)
  have len: "length (concat (map (case_prod block_image) ?cs)) < 2 ^ 31"
    by (simp add: sample_blocks_def Let_def)
  have images: "map (case_prod block_image) ?cs = map (block_image [1, 2, 3]) sample_blocks"
    "map (Inr \<circ> snd) ?cs = map Inr sample_blocks" by simp_all
  show ?thesis
    using ivrs_table_roundtrip [OF _ ok, where header = "replicate 34 0" and revision = 1 and tail = "[7]"] len
    unfolding images by auto
qed

end
