(* ===== verification/Amd_Tests.thy ===== *)
theory Amd_Tests
  imports Amd_Pagetables Amd_Ivrs Amd_Dte Amd_Cmd Amd_Events Amd_Regs
begin

text \<open>
  The unit tests and documentation examples of \<^verbatim>\<open>amd-iommu\<close>, run on the model: each test function is a
  definition with the inputs and assertions of the source, and evaluates to true.  They validate the
  translation on the values the authors of the crate chose.
\<close>

section \<open>Bit extraction\<close>

definition amd_extracts_fields :: bool where
  "amd_extracts_fields \<longleftrightarrow>
     amd_extract_bits_run 0b10100001 7 0 = Inr 0b10100001 \<and> amd_extract_bits_run 0b10100001 7 7 = Inr 1 \<and>
     amd_extract_bits_run 0x0123456789abcdef 63 32 = Inr 0x01234567 \<and>
     amd_extract_bits_run 0x0123456789abcdef 51 12 = Inr (drop_bit 12 0x0123456789abcdef AND 0xffffffffff)"

lemma amd_extracts_fields_passes: amd_extracts_fields
  by code_simp

section \<open>Commands\<close>

definition amd_cmd_example :: bool where
  "amd_cmd_example \<longleftrightarrow>
     (case cmd_words (CompletionWait (cw_with_store 0x12345008 1 cw_new)) of (w0, w1, w2, w3) \<Rightarrow>
        drop_bit 28 w1 AND 0xf = 0x1 \<and> w0 AND 1 = 1 \<and> w2 = 1)"

definition completion_wait_encoding :: bool where
  "completion_wait_encoding \<longleftrightarrow>
     (case cmd_words (CompletionWait (cw_with_store 0x123456008 1 cw_new)) of (w0, w1, w2, w3) \<Rightarrow>
        opcode_from_dword1 w1 = COMPLETION_WAIT \<and> w0 AND 0x7 = 0x1 \<and>
        drop_bit 3 w0 AND 0x1fffffff = ucast (drop_bit 3 (0x123456008 :: u64)) AND 0x1fffffff \<and>
        w1 AND 0xfffff = 0x1 \<and> w2 = 1)"

definition invalidate_pages_encoding :: bool where
  "invalidate_pages_encoding \<longleftrightarrow>
     (case cmd_words (InvalidateIommuPages \<lparr>ip_domain_id = 7, ip_pasid = 0, ip_addr = 0xdeadb000, ip_size = False,
             ip_pde = True, ip_guest_nested = False\<rparr>) of (w0, w1, w2, w3) \<Rightarrow>
        opcode_from_dword1 w1 = INVALIDATE_IOMMU_PAGES \<and> w1 AND 0xffff = 7 \<and> w2 AND 0x7 = 0x2 \<and>
        drop_bit 12 w2 AND 0xfffff = drop_bit 12 0xdeadb000 AND 0xfffff \<and> w3 = 0)"

definition invalidate_iotlb_pages_encoding :: bool where
  "invalidate_iotlb_pages_encoding \<longleftrightarrow>
     (case cmd_words (InvalidateIotlbPages \<lparr>it_device_id = 0x1234, it_queue_id = 0x99, it_pasid = 0x5a5a5,
             it_max_pend = 0x10, it_addr = 0x123456000, it_inv_type = 0, it_size = False,
             it_guest_nested = False\<rparr>) of (w0, w1, w2, w3) \<Rightarrow>
        opcode_from_dword1 w1 = INVALIDATE_IOTLB_PAGES \<and> w0 AND 0xffff = 0x1234 \<and>
        drop_bit 16 w0 AND 0xff = 0xa5 \<and> drop_bit 24 w0 AND 0xff = 0x10 \<and> w1 AND 0xffff = 0x99 \<and>
        drop_bit 16 w1 AND 0xff = 0xa5 \<and> drop_bit 24 w1 AND 0xf = 0x5 \<and> drop_bit 12 w2 AND 0xfffff = 0x23456)"

lemma amd_cmd_tests_pass:
  amd_cmd_example completion_wait_encoding invalidate_pages_encoding invalidate_iotlb_pages_encoding
  by code_simp+

section \<open>Device table entries\<close>

definition amd_crate_example :: bool where
  "amd_crate_example \<longleftrightarrow>
     (let d = with_host_page_table_root 0x12345000 (with_paging_mode PmLevel2_4 (with_translation_valid True
        (with_valid True dte_new))) in
      dte_valid d \<and> host_page_table_root d = 0x12345000)"

definition amd_dte_example :: bool where
  "amd_dte_example \<longleftrightarrow>
     (let d = with_ir True (with_iw True (with_io_coherent True (with_host_page_table_root 0x12345000
        (with_paging_mode PmLevel2_4 (with_translation_valid True (with_valid True dte_new))))));
          d' = with_interrupt_table_ptr 0x00aac000 (with_interrupt_table_len 10 (with_interrupt_map_valid True d)) in
      dte_valid d \<and> translation_valid d \<and> dte_paging_mode d = PmLevel2_4 \<and> host_page_table_root d = 0x12345000 \<and>
      interrupt_table_len d' = 10 \<and> interrupt_table_ptr d' = 0x00aac000)"

definition dte_glx_builder :: bool where
  "dte_glx_builder \<longleftrightarrow>
     (let d = with_glx 0b00 (with_valid True dte_new); d' = with_glx 0b10 d in
      dte_glx d = 0b00 \<and> amd_extract_bits (dte_q0 d) 57 56 = 0b00 \<and> dte_glx d' = 0b10 \<and> dte_valid d')"

definition dte_domain_id_roundtrip :: bool where
  "dte_domain_id_roundtrip \<longleftrightarrow>
     (let d = with_domain_id 0xbeef (with_host_page_table_root 0x12345000 (with_translation_valid True
        (with_valid True dte_new))); raw = dte_into_bytes d in
      dte_domain_id d = 0xbeef \<and> (from_le_bytes [raw ! 16, raw ! 17] :: u16) = 0xbeef \<and>
      host_page_table_root d = 0x12345000)"

definition dte_roundtrip :: bool where
  "dte_roundtrip \<longleftrightarrow>
     (let d = with_ir True (with_guest_translation_valid True (with_ppr_enable True
        (with_host_page_table_root 0x123456789000 (with_paging_mode PmLevel2_5 (with_translation_valid True
        (with_valid True dte_new)))))) in
      dte_valid d \<and> dte_paging_mode d = PmLevel2_5 \<and> host_page_table_root d = 0x123456789000 \<and>
      ppr_enable d \<and> guest_translation_valid d \<and> dte_ir d \<and> dte_q0 d AND 0x3 = 0x3 \<and>
      amd_extract_bits (dte_q0 d) 11 9 = 6)"

definition gcr3_packing :: bool where
  "gcr3_packing \<longleftrightarrow>
     guest_cr3_table (with_guest_cr3_table 0x12345000 (with_guest_translation_valid True dte_new)) = 0x12345000"

definition interrupt_table_fields :: bool where
  "interrupt_table_fields \<longleftrightarrow>
     (let d = with_interrupt_table_ptr 0x00aac000 (with_interrupt_table_len 10
        (with_interrupt_map_valid True dte_new)) in
      interrupt_map_valid d \<and> interrupt_table_len d = 10 \<and> interrupt_table_ptr d = 0x00aac000)"

lemma amd_dte_tests_pass:
  amd_crate_example amd_dte_example dte_glx_builder dte_domain_id_roundtrip dte_roundtrip gcr3_packing
  interrupt_table_fields
  by code_simp+

section \<open>Events and page requests\<close>

definition pf_default :: page_fault_event where
  "pf_default = \<lparr>pf_device_id = 0, pf_domain_id = 0, pf_addr = 0, pf_write = False, pf_permission = False,
     pf_reserved = False, pf_rz = False, pf_nx = False, pf_guest_nested = False, pf_translation = False,
     pf_interrupt = False\<rparr>"

definition ppr_default :: ppr_entry where
  "ppr_default = \<lparr>ppr_device_id = 0, ppr_pasid = 0, ppr_tag = 0, ppr_addr = 0, ppr_gn = False, ppr_rz = False,
     ppr_user = False, ppr_write = False, ppr_read = False, ppr_nx = False\<rparr>"

definition amd_events_example :: bool where
  "amd_events_example \<longleftrightarrow>
     (case event_words (PageFault (pf_default\<lparr>pf_device_id := 0x1234, pf_domain_id := 5, pf_addr := 0xdeadb000,
          pf_write := True\<rparr>)) of (w0, w1, w2, w3) \<Rightarrow>
        drop_bit 28 w1 AND 0xf = 0x2 \<and> w0 AND 0xffff = 0x1234)"

definition page_fault_roundtrip :: bool where
  "page_fault_roundtrip \<longleftrightarrow>
     (let w = event_words (PageFault (pf_default\<lparr>pf_device_id := 0x0bad, pf_domain_id := 0x12,
          pf_addr := 0x123456789000, pf_write := True, pf_permission := True\<rparr>)) in
      event_code_from_dword1 (fst (snd w)) = IO_PAGE_FAULT \<and>
      (case event_from_words w of
         PageFault f \<Rightarrow> pf_device_id f = 0x0bad \<and> pf_domain_id f = 0x12 \<and> pf_addr f = 0x123456789000 \<and>
           (pf_write f \<and> pf_permission f) \<and> \<not> pf_nx f
       | RawEvent _ _ \<Rightarrow> False))"

definition amd_ppr_example :: bool where
  "amd_ppr_example \<longleftrightarrow>
     (case ppr_words (ppr_default\<lparr>ppr_device_id := 0x1234, ppr_pasid := 0x5a, ppr_tag := 0x7,
          ppr_addr := 0x12345000\<rparr>) of (w0, w1, w2, w3) \<Rightarrow>
        drop_bit 28 w1 AND 0xf = ucast (ppr_code_value PAGE_SERVICE_REQUEST) \<and> w0 AND 0xffff = 0x1234 \<and>
        drop_bit 16 w0 = 0x5a)"

definition ppr_roundtrip_test :: bool where
  "ppr_roundtrip_test \<longleftrightarrow>
     (let e = ppr_default\<lparr>ppr_device_id := 0x0bad, ppr_pasid := 0x5a5a5 AND 0xfffff, ppr_tag := 0x1f,
            ppr_addr := 0x12345000, ppr_write := True\<rparr>;
          w = ppr_words e; back = ppr_from_words w in
      ppr_code_from_dword1 (fst (snd w)) = PAGE_SERVICE_REQUEST \<and>
      ppr_device_id back = 0x0bad \<and> ppr_pasid back = ppr_pasid e \<and> ppr_tag back = 0x1f \<and>
      ppr_addr back = 0x12345000 \<and> ppr_write back \<and> \<not> ppr_read back)"

lemma amd_log_tests_pass:
  amd_events_example page_fault_roundtrip amd_ppr_example ppr_roundtrip_test
  by code_simp+

section \<open>Registers and interrupt remapping entries\<close>

definition amd_regs_example :: bool where
  "amd_regs_example \<longleftrightarrow>
     (let b = bb_new 0x12345000 0x9; c = with_iommu_en True (with_cmd_buf_en True (control_new 0)) in
      bb_base b = 0x12345000 \<and> bb_length_order b = 0x9 \<and> bb_size_bytes b = Inr 8192 \<and>
      contains_flags (control_bits c) (flag CONTROL_FLAGS ''CMD_BUF_EN'' OR flag CONTROL_FLAGS ''IOMMU_EN''))"

definition buffer_base_encoding :: bool where
  "buffer_base_encoding \<longleftrightarrow>
     (let b = bb_new 0x12345000 0x9 in
      bb_base b = 0x12345000 \<and> bb_size_bytes b = Inr 8192 \<and> bb_entry_count b = Inr 1024)"

definition control_roundtrip :: bool where
  "control_roundtrip \<longleftrightarrow>
     (let c = with_invalidation_timeout 3 (with_cmd_buf_en True (with_iommu_en True (control_new 0))) in
      contains_flags (control_bits c) (flag CONTROL_FLAGS ''IOMMU_EN'' OR flag CONTROL_FLAGS ''CMD_BUF_EN'') \<and>
      invalidation_timeout c = 3)"

definition amd_irte_example :: bool where
  "amd_irte_example \<longleftrightarrow>
     (case amd_irte_words (amd_irte_with_valid True (amd_irte_with_vector 0x51
          (amd_irte_with_destination 0x01020304 amd_irte_new))) of (w0, w1, w2, w3) \<Rightarrow>
        w0 AND 1 = 0 \<and> w0 AND 0xffff = 0x0304 \<and> w1 AND 0xff = 0x02 \<and>
        w1 AND push_bit 16 1 = push_bit 16 1 \<and> w2 AND 0xff = 0x51)"

definition irte_roundtrip :: bool where
  "irte_roundtrip \<longleftrightarrow>
     (let e = amd_irte_with_vector 0x51 (amd_irte_with_destination 0x00010203 (amd_irte_with_valid True amd_irte_new))
      in amd_irte_valid e \<and> amd_irte_destination e = 0x00010203 \<and> amd_irte_vector e = 0x51 \<and>
        (case amd_irte_words e of (w0, w1, w2, w3) \<Rightarrow>
           w0 AND 0xffff = 0x0203 \<and> w1 AND 0xff = 0x01 \<and> amd_extract_bits (ucast w1) 16 16 = 1))"

lemma amd_register_tests_pass:
  amd_regs_example buffer_base_encoding control_roundtrip amd_irte_example irte_roundtrip
  by code_simp+

section \<open>Page tables and the IVRS table\<close>

definition amd_pagetables_example :: bool where
  "amd_pagetables_example \<longleftrightarrow>
     (case amd_walk V2 4 0x1000 0x123 (\<lambda>paddr.
          if paddr = 0x1000 then 0x2000 OR amd_P_RW OR 1 else if paddr = 0x2000 then 0x3000 OR amd_P_RW OR 1
          else if paddr = 0x3000 then 0x4000 OR amd_P_RW OR 1
          else if paddr = 0x4000 then 0x12345000 OR amd_P_RW OR 1 else 0) of
        Inr (Inr r) \<Rightarrow> amd_physical r = 0x12345000 + 0x123 \<and> amd_level r = 1
      | _ \<Rightarrow> False)"

definition walks_v2_leaf :: bool where
  "walks_v2_leaf \<longleftrightarrow>
     (case amd_walk V2 4 0x1000 0x123 (\<lambda>p.
          if p = 0x1000 then amd_v2_table 0x2000 else if p = 0x2000 then amd_v2_table 0x3000
          else if p = 0x3000 then amd_v2_table 0x4000
          else if p = 0x4000 then amd_v2_page 0x12345000 True False else 0) of
        Inr (Inr r) \<Rightarrow> amd_physical r = 0x12345000 + 0x123 \<and> amd_level r = 1 \<and>
          contains_flags (amd_perms r) (amd_P OR amd_RW)
      | _ \<Rightarrow> False)"

definition walks_v1_huge_page :: bool where
  "walks_v1_huge_page \<longleftrightarrow>
     (case amd_walk V1 2 0x1000 0x123456 (\<lambda>p.
          if p = 0x1000 then amd_v1_page 0x100000000 True True OR amd_PS else 0) of
        Inr (Inr r) \<Rightarrow> amd_level r = 2 \<and> amd_huge r \<and> amd_physical r = 0x100000000 OR (0x123456 AND 0x1fffff)
      | _ \<Rightarrow> False)"

definition amd_not_present_reported :: bool where
  "amd_not_present_reported \<longleftrightarrow>
     (case amd_walk V2 4 0x1000 0 (\<lambda>_. 0) of Inr (Inl (AmdNotPresent l)) \<Rightarrow> l = 4 | _ \<Rightarrow> False)"

definition v2_range_check :: bool where
  "v2_range_check \<longleftrightarrow>
     (case amd_walk V2 4 0x1000 (push_bit 48 1) (\<lambda>_. 0) of Inr (Inl (AmdAddressTooLarge n)) \<Rightarrow> n = 48 | _ \<Rightarrow> False)"

definition ivrs_example :: bool where
  "ivrs_example \<longleftrightarrow>
     (case ivrs_new ivrs_doc of
        Inr t \<Rightarrow>
          (case ivhd_units t of
             Inr (u # _) \<Rightarrow>
               (case ivhd_entry_type u of Inr ty \<Rightarrow> ty = IvhdType10 | Inl _ \<Rightarrow> False) \<and>
               ivhd_base_address u = 0xfed80000
           | _ \<Rightarrow> False)
      | Inl _ \<Rightarrow> False)"

lemma amd_table_tests_pass:
  amd_pagetables_example walks_v2_leaf walks_v1_huge_page amd_not_present_reported v2_range_check
  by (simp_all add: amd_pagetables_example_def walks_v2_leaf_def walks_v1_huge_page_def
      amd_not_present_reported_def v2_range_check_def amd_walk_def amd_walk_loop.simps sub_chk_def
      AMD_LEVEL_SHIFT_def extract_bits_run_def extract_bits_def add_chk_def contains_flags_def amd_P_RW_def
      amd_P_def amd_RW_def amd_US_def amd_IR_def amd_IW_def amd_ACCESSED_def amd_DIRTY_def amd_PS_def
      AMD_PA_MASK_def amd_v2_table_def amd_v2_page_def amd_v1_page_def)

lemma ivrs_example_passes: ivrs_example
  by code_simp

end
