(* ===== verification/Intel_Tests.thy ===== *)
theory Intel_Tests
  imports Intel_Pagetables Intel_Dmar Intel_Context Intel_Qi Intel_Irte Intel_Fault Intel_Regs
begin

text \<open>
  The unit tests and documentation examples of \<^verbatim>\<open>intel-iommu\<close>, run on the model: each test function is
  a definition with the inputs and assertions of the source, and evaluates to true.  Where the code under
  test takes \<^verbatim>\<open>from_bits_truncate\<close> as a parameter, it is the documented function of the \<open>bitflags\<close> crate
  (\<open>intel_trunc\<close>).
\<close>

section \<open>Bit extraction\<close>

definition extracts_single_bits :: bool where
  "extracts_single_bits \<longleftrightarrow>
     extract_bits_run 0b10100001 7 0 = Inr 0b10100001 \<and> extract_bits_run 0b10100001 7 7 = Inr 1 \<and>
     extract_bits_run 0b10100001 6 6 = Inr 0"

definition extracts_wide_fields :: bool where
  "extracts_wide_fields \<longleftrightarrow>
     (let v = 0x0123456789abcdef in
      extract_bits_run v 63 32 = Inr 0x01234567 \<and> extract_bits_run v 31 0 = Inr 0x89abcdef \<and>
      extract_bits_run v 51 12 = Inr (drop_bit 12 v AND 0xffffffffff))"

definition full_width_field :: bool where
  "full_width_field \<longleftrightarrow> extract_bits_run 0xdeadbeefcafebabe 63 0 = Inr 0xdeadbeefcafebabe"

lemma intel_bits_tests_pass: extracts_single_bits extracts_wide_fields full_width_field
  by code_simp+

section \<open>Registers\<close>

definition cap_fields_decode :: bool where
  "cap_fields_decode \<longleftrightarrow>
     (let raw = 0b110 OR push_bit 4 1 OR push_bit 7 1 OR push_bit 8 0b1100 OR push_bit 16 47 OR push_bit 24 1
          OR push_bit 34 0b0011 OR push_bit 39 1 OR push_bit 40 1 OR push_bit 48 9 OR push_bit 56 1
          OR push_bit 59 1 OR push_bit 60 1;
          c = cap_new raw in
      cap_domain_ids c = Inr (push_bit (4 + 2 * 6) 1) \<and> cap_rwbf c \<and> cap_caching_mode c \<and>
      cap_sagaw c = 0b1100 \<and> cap_mgaw c = Inr 48 \<and> cap_fault_rec_offset_raw c = 1 \<and> cap_sslps c = 0b0011 \<and>
      cap_page_selective_inval c \<and> cap_num_fault_regs c = Inr 2 \<and> cap_max_amask_value c = 9 \<and>
      cap_fs_1g_pages c \<and> cap_posted_interrupts c \<and> cap_fs_5level c \<and>
      fault_rec_offset c 0 = 16 \<and> fault_rec_offset c 1 = 32)"

definition ecap_fields_decode :: bool where
  "ecap_fields_decode \<longleftrightarrow>
     (let raw = 1 OR push_bit 1 0b1111 OR push_bit 6 1 OR push_bit 7 1 OR push_bit 8 3 OR push_bit 20 0xf
          OR push_bit 26 1 OR push_bit 35 0b1001 OR push_bit 43 1 OR push_bit 55 1 OR push_bit 61 1
          OR push_bit 62 1;
          e = ecap_new raw in
      ecap_coherent e \<and> ecap_queued_inval e \<and> ecap_dev_tlb e \<and> ecap_intr_remap e \<and>
      ecap_extended_intr_mode e \<and> ecap_pass_through e \<and> ecap_snoop_control e \<and> ecap_iotlb_offset_raw e = 3 \<and>
      ecap_max_handle_mask e = 0xf \<and> ecap_nested e \<and> ecap_scalable_mode e \<and> ecap_host_permission_table e \<and>
      ecap_eim_required e \<and> ecap_ir_required e \<and>
      (case iotlb_offset e of (va, tlb) \<Rightarrow> va = 48 \<and> tlb = 56))"

definition gsts_truncate :: "u32 \<Rightarrow> u32" where
  "gsts_truncate v = v AND foldr (\<lambda>f acc. snd f OR acc) GSTS_FLAGS 0"

definition gcmd_gsts_roundtrip :: bool where
  "gcmd_gsts_roundtrip \<longleftrightarrow>
     flag GCMD_FLAGS ''ENABLE'' OR flag GCMD_FLAGS ''SRTP'' OR flag GCMD_FLAGS ''QIE'' = 0xC4000000 \<and>
     contains_flags (gsts_truncate 0xE4000000) (flag GSTS_FLAGS ''TES'' OR flag GSTS_FLAGS ''RTPS'')"

definition ccmd_encoding :: bool where
  "ccmd_encoding \<longleftrightarrow>
     (let c = ccmd_new CirgDevice 0x1234 0xabcc 0; masked = ccmd_new CirgDevice 0x1234 0xfffc 3;
          c2 = Ccmd (ccmd_raw c OR push_bit 63 1) in
      ccmd_granularity c = CirgDevice \<and> ccmd_did c = 0x1234 \<and> ccmd_sid c = 0xabcc \<and> ccmd_fm c = 0 \<and>
      ccmd_fm masked = 3 \<and> ccmd_sid masked = 0xffff \<and> ccmd_initiate c2)"

definition iqa_irta_iva :: bool where
  "iqa_irta_iva \<longleftrightarrow>
     (let q = iqa_new 0x12345000 True; t = irta_new 0xdead0000 3 True; t0 = irta_new 0xdead0000 0 False;
          v = iva_new 0x1234567000 9 in
      iqa_base q = 0x12345000 \<and> iqa_wide_descriptors q \<and> irta_size_order t = 3 \<and> irta_eime t \<and>
      irta_base t0 = 0xdead0000 \<and> irta_size_order t0 = 0 \<and> \<not> irta_eime t0 \<and>
      iva_addr v = 0x1234567000 \<and> iva_am v = 9)"

definition iotlb_inval_word :: bool where
  "iotlb_inval_word \<longleftrightarrow>
     (let w = iotlb_inval_new IirgPage 0x42 True False in
      iotlb_granularity w = IirgPage \<and> iotlb_did w = 0x42 \<and>
      iotlb_initiate (IotlbInval (iotlb_raw w OR push_bit 63 1)))"

definition version_and_fri :: bool where
  "version_and_fri \<longleftrightarrow>
     ver_major (version_new 0x65) = 6 \<and> ver_minor (version_new 0x65) = 5 \<and> fsts_fri 0x1f00 = 0x1f"

lemma cap_fields_decode_passes: cap_fields_decode
  by (simp add: cap_fields_decode_def cap_new_def cap_domain_ids_def cap_rwbf_def cap_caching_mode_def
      cap_sagaw_def cap_mgaw_def cap_fault_rec_offset_raw_def cap_sslps_def cap_page_selective_inval_def
      cap_num_fault_regs_def cap_max_amask_value_def cap_fs_1g_pages_def cap_posted_interrupts_def
      cap_fs_5level_def fault_rec_offset_def extract_bits_def shl_chk_def add_chk_def bits_of_def)

lemma ecap_fields_decode_passes: ecap_fields_decode
  by (simp add: ecap_fields_decode_def ecap_new_def ecap_coherent_def ecap_queued_inval_def
      ecap_dev_tlb_def ecap_intr_remap_def ecap_extended_intr_mode_def ecap_pass_through_def
      ecap_snoop_control_def ecap_iotlb_offset_raw_def ecap_max_handle_mask_def ecap_nested_def
      ecap_scalable_mode_def ecap_host_permission_table_def ecap_eim_required_def ecap_ir_required_def
      iotlb_offset_def extract_bits_def)

lemma intel_register_tests_pass:
  gcmd_gsts_roundtrip ccmd_encoding iqa_irta_iva iotlb_inval_word
  version_and_fri
  by code_simp+

section \<open>Context and PASID entries\<close>

definition intel_context_example :: bool where
  "intel_context_example \<longleftrightarrow>
     (let e = ce_with_present True (ce_with_translation_type TtSecondStage
        (ce_with_second_stage_ptr 0x12345000 (ce_with_address_width Agaw48 (ce_with_domain_id 5 ce_new)))) in
      ce_present e \<and> ce_domain_id e = 5 \<and> ce_into_bytes e ! 0 AND 1 = 1)"

definition legacy_context_roundtrip :: bool where
  "legacy_context_roundtrip \<longleftrightarrow>
     (let e = ce_with_translation_type TtSecondStage (ce_with_second_stage_ptr 0xdeadbeeff000
        (ce_with_address_width Agaw48 (ce_with_domain_id 0x1234 (ce_with_present True ce_new))));
          raw = ce_into_bytes e in
      ce_present e \<and> ce_domain_id e = 0x1234 \<and> ce_second_stage_ptr e = 0xdeadbeeff000 \<and>
      ce_address_width e = Agaw48 \<and> raw ! 0 AND 1 = 1 \<and>
      (from_le_bytes [raw ! 9, raw ! 10] :: u16) = 0x1234)"

definition pasid_entry_layout :: bool where
  "pasid_entry_layout \<longleftrightarrow>
     (let e = with_supervisor_requests True (with_flpm FiveLevel (pt_with_domain_id 7
        (with_page_table_ptr 0x12345000 (with_pgtt FirstStageOnly (pt_with_present True pt_new))))) in
      pt_present e \<and> pt_pgtt e = FirstStageOnly \<and> page_table_ptr e = 0x12345000 \<and> pt_domain_id e = 7 \<and>
      pt_flpm e = FiveLevel \<and> supervisor_requests e \<and> extract_bits (pt_q0 e) 8 6 = 1 \<and>
      pt_q1 e AND 0xffff = 7)"

definition scalable_context_paside_and_wire :: bool where
  "scalable_context_paside_and_wire \<longleftrightarrow>
     (let e = sc_with_pasid_dir_size 0 (sc_with_pasid_dir_ptr 0xabc000 (sc_with_page_request_enable False
        (sc_with_pasid_enable True (sc_with_present True sc_new)))); raw = sc_into_bytes e in
      sc_pasid_enable e \<and> \<not> sc_page_request_enable e \<and> raw ! 0 AND 1 = 1 \<and> raw ! 0 AND 0x8 = 0x8 \<and>
      raw ! 0 AND 0x10 = 0 \<and> (from_le_bytes (take (32 - 24) (drop 24 raw)) :: u64) = 0)"

definition pasid_entry_first_level_ptr :: bool where
  "pasid_entry_first_level_ptr \<longleftrightarrow>
     (let e = with_first_level_ptr 0x60000000 (with_flpm FourLevel (with_page_table_ptr 0x5000
        (with_pgtt Nested (pt_with_present True pt_new))));
          q2 = (from_le_bytes (take (24 - 16) (drop 16 (pt_into_bytes e))) :: u64) in
      first_level_ptr e = 0x60000000 \<and> page_table_ptr e = 0x5000 \<and> pt_flpm e = FourLevel \<and>
      q2 AND 0x000ffffffffff000 = 0x60000000 \<and> first_level_ptr (with_first_level_ptr 0 e) = 0)"

definition scalable_context_layout :: bool where
  "scalable_context_layout \<longleftrightarrow>
     (let e = sc_with_rid_priv True (sc_with_rid_pasid 0x1234 (sc_with_pasid_dir_size 1
        (sc_with_pasid_dir_ptr 0xabc000 (sc_with_present True sc_new)))) in
      sc_present e \<and> sc_pasid_dir_ptr e = 0xabc000 \<and> sc_pasid_dir_size e = 1 \<and> sc_rid_pasid e = 0x1234 \<and>
      sc_rid_priv e)"

lemma intel_context_tests_pass:
  intel_context_example legacy_context_roundtrip pasid_entry_layout scalable_context_paside_and_wire
  pasid_entry_first_level_ptr scalable_context_layout
  by code_simp+

section \<open>Invalidation descriptors\<close>

definition intel_qi_example :: bool where
  "intel_qi_example \<longleftrightarrow>
     (case qi_words (ContextCache (cc_new GranDomain 7 0x1234 0)) of (w0, w1) \<Rightarrow>
        (drop_bit 5 w0 AND 0x70) OR (w0 AND 0xf) = 1 \<and> drop_bit 16 w0 AND 0xffff = 7)"

definition type_encoding_roundtrip :: bool where
  "type_encoding_roundtrip \<longleftrightarrow>
     list_all (\<lambda>t. qi_type_from_word0 (type_bits t) = QiType t) [1, 2, 3, 4, 5, 6, 7, 8, 9]"

definition cc_descriptor_layout :: bool where
  "cc_descriptor_layout \<longleftrightarrow>
     (case qi_words (ContextCache (cc_new PageOrDevice 0x1234 0xf00d 1)) of (w0, w1) \<Rightarrow>
        qi_type_from_word0 w0 = CONTEXT_CACHE \<and> extract_bits w0 5 4 = 3 \<and>
        drop_bit 16 w0 AND 0xffff = 0x1234 \<and> drop_bit 32 w0 AND 0xffff = 0xf00d \<and>
        extract_bits w0 49 48 = 1 \<and>
        (case qi_from_words w0 w1 of
           Some (ContextCache cc) \<Rightarrow> cc_did cc = 0x1234 \<and> cc_sid cc = 0xf00d
         | _ \<Rightarrow> False))"

definition wait_descriptor_layout :: bool where
  "wait_descriptor_layout \<longleftrightarrow>
     (case wait_to_words (wait_for_status_write 0x1000 1) of (w0, w1) \<Rightarrow>
        qi_type_from_word0 w0 = WAIT \<and> extract_bits w0 5 5 = 1 \<and> drop_bit 32 w0 = 1 \<and>
        w1 AND NOT 0x7 = 0x1000)"

definition iotlb_descriptor_layout :: bool where
  "iotlb_descriptor_layout \<longleftrightarrow>
     (case iotlb_to_words (iotlb_new PageOrDevice 9 0xdeadbeeff000 4) of (w0, w1) \<Rightarrow>
        qi_type_from_word0 w0 = IOTLB \<and> drop_bit 16 w0 AND 0xffff = 9 \<and> w1 AND NOT 0xfff = 0xdeadbeeff000 \<and>
        w1 AND 0x3f = 4)"

lemma intel_qi_tests_pass:
  intel_qi_example type_encoding_roundtrip cc_descriptor_layout wait_descriptor_layout iotlb_descriptor_layout
  by code_simp+

section \<open>Interrupt remapping entries and fault records\<close>

definition intel_irte_example :: bool where
  "intel_irte_example \<longleftrightarrow>
     (let e = irte_with_present True (irte_with_source_id 0x0bad (with_delivery_mode DlmFixed
        (irte_with_vector 0x40 (irte_with_destination 0x12345678 new_remapped)))) in
      irte_mode_of e = Remapped \<and> irte_vector e = 0x40 \<and> irte_destination_id e = 0x12345678 \<and>
      fst (irte_words e) AND 1 = 1)"

definition remapped_roundtrip :: bool where
  "remapped_roundtrip \<longleftrightarrow>
     (case irte_words (with_source_qualifier SqIgnoreFunction (with_source_validation SvVerifyFull
        (irte_with_source_id 0x1234 (with_trigger_mode_level True (with_delivery_mode DlmNmi
        (irte_with_destination 0x12345678 (irte_with_vector 0x51 (irte_with_present True new_remapped))))))))
      of (lo, hi) \<Rightarrow>
        lo AND 1 = 1 \<and> drop_bit 16 lo AND 0xff = 0x51 \<and> drop_bit 32 lo = 0x12345678 \<and>
        extract_bits lo 7 5 = 4 \<and> hi AND 0xffff = 0x1234 \<and> extract_bits hi 19 18 = 3 \<and>
        extract_bits hi 17 16 = 1)"

definition posted_addr_roundtrip :: bool where
  "posted_addr_roundtrip \<longleftrightarrow>
     (let addr = 0x123456789abcdef0 AND NOT 0x3f; e = with_posted_descriptor_addr addr new_posted in
      irte_mode_of e = Posted \<and> posted_descriptor_addr e = addr \<and> posted_addr_low e AND 0x3f = 0)"

definition intel_fault_example :: bool where
  "intel_fault_example \<longleftrightarrow>
     (case fr_words (fr_with_fault True (fr_with_fault_info 0x12345000
        (fr_with_reason FrPagingEntryRsvd (fr_with_source_id 0x0bad fr_new)))) of (w0, w1) \<Rightarrow>
        w1 AND 0xffff = 0x0bad \<and> drop_bit 32 w1 AND 0xff = 0x06 \<and>
        fr_reason (fr_from_words w0 w1) = FrPagingEntryRsvd \<and> fr_fault (fr_from_words w0 w1))"

lemma intel_interrupt_tests_pass:
  intel_irte_example remapped_roundtrip posted_addr_roundtrip intel_fault_example
  by code_simp+

section \<open>Page tables\<close>

definition intel_pagetables_example :: bool where
  "intel_pagetables_example \<longleftrightarrow>
     (case intel_walk intel_trunc Second 4 0x1000 0x123 (\<lambda>paddr.
          if paddr = 0x1000 then 0x2000 OR intel_RW OR 1 else if paddr = 0x2000 then 0x3000 OR intel_RW OR 1
          else if paddr = 0x3000 then 0x4000 OR intel_RW OR 1
          else if paddr = 0x4000 then 0x12345000 OR intel_RW OR 1 else 0) of
        Inr (Inr r) \<Rightarrow> intel_physical r = 0x12345000 + 0x123 \<and> intel_level r = 1 \<and>
          contains_flags (intel_perms r) intel_RW
      | _ \<Rightarrow> False)"

definition map_range_example :: bool where
  "map_range_example \<longleftrightarrow>
     (let ls = map_leaves \<lparr>guest_base = 0x1000, host_base = 0x9000, map_len = 0x3000,
        map_perms = intel_R OR intel_W\<rparr> in
      list_all (\<lambda>l. case l of Inr _ \<Rightarrow> True | Inl _ \<Rightarrow> False) ls \<and> length ls = 3)"

definition walks_huge_pages :: bool where
  "walks_huge_pages \<longleftrightarrow>
     (case intel_walk intel_trunc Second 4 0x1000 0x12345000 (\<lambda>p.
          if p = 0x1000 then 0x2000 OR intel_RW OR 1
          else if p = 0x2000 then 0x100000000 OR intel_RW OR intel_PAGE_SIZE OR 1 else 0) of
        Inr (Inr r) \<Rightarrow> intel_physical r = 0x112345000 \<and> intel_level r = 3 \<and> intel_huge r \<and>
          contains_flags (intel_perms r) intel_RW
      | _ \<Rightarrow> False)"

definition intel_not_present_is_reported :: bool where
  "intel_not_present_is_reported \<longleftrightarrow>
     (case intel_walk intel_trunc Second 4 0x1000 0 (\<lambda>_. 0) of
        Inr (Inl (IntelNotPresent l)) \<Rightarrow> l = 4 | _ \<Rightarrow> False)"

definition address_range_check :: bool where
  "address_range_check \<longleftrightarrow>
     (case intel_walk intel_trunc Second 4 0x1000 (push_bit 48 1) (\<lambda>_. 0) of
        Inr (Inl (IntelAddressTooLarge n)) \<Rightarrow> n = 48 | _ \<Rightarrow> False)"

definition leaf_entries_hold_permissions :: bool where
  "leaf_entries_hold_permissions \<longleftrightarrow>
     (let e = pte_page 0xabc000 (intel_R OR intel_W); huge = pte_huge_page 0x123450000 intel_R in
      pte_present e \<and> pte_frame e = 0xabc000 \<and> contains_flags (pte_perms intel_trunc e) intel_RW \<and>
      pte_bits huge AND intel_PAGE_SIZE \<noteq> 0)"

lemma intel_pagetable_tests_pass:
  intel_pagetables_example map_range_example walks_huge_pages intel_not_present_is_reported
  address_range_check leaf_entries_hold_permissions
  by (simp_all add: intel_pagetables_example_def map_range_example_def walks_huge_pages_def
      intel_not_present_is_reported_def address_range_check_def leaf_entries_hold_permissions_def
      intel_walk_def intel_walk_loop.simps sub_chk_def INTEL_LEVEL_SHIFT_def extract_bits_run_def
      extract_bits_def add_chk_def contains_flags_def intel_trunc_def intel_perm_all_def intel_RW_def
      intel_RWX_def intel_R_def intel_W_def intel_X_def intel_PAGE_SIZE_def intel_ACCESSED_def
      intel_DIRTY_def intel_GLOBAL_def intel_EXECUTE_DISABLE_def map_leaves_def map_leaf_def
      map_page_count_def div_ceil_word_def upt_rec pte_present_def pte_frame_def pte_perms_def pte_page_def
      pte_huge_page_def)

section \<open>The DMAR table\<close>

definition dmar_example :: bool where
  "dmar_example \<longleftrightarrow>
     (case dmar_new dmar_doc of
        Inr t \<Rightarrow>
          host_address_width t = Inr 52 \<and>
          (case dmar_structs t of
             Inr ss \<Rightarrow> list_all (\<lambda>s. case s of RDrhd d \<Rightarrow> register_base d = 0xfed90000 \<and> drhd_segment d = 0 | _ \<Rightarrow> True) ss
           | Inl _ \<Rightarrow> False)
      | Inl _ \<Rightarrow> False)"

definition intel_crate_example :: bool where
  "intel_crate_example \<longleftrightarrow>
     (case dmar_new ([0x44, 0x4d, 0x41, 0x52, 48, 0, 0, 0, 1, 55, 0x4f, 0x45, 0x4d, 0x20, 0x20, 0x20,
          0, 0, 0, 0, 0, 0, 0, 0, 0, 0, 0, 0, 0, 0, 0, 0, 0, 0, 0, 0, 52 - 1, 0,
          0, 0, 0, 0, 0, 0, 0, 0, 0, 0]) of
        Inr t \<Rightarrow>
          host_address_width t = Inr 52 \<and>
          (case dmar_structs t of Inr ss \<Rightarrow> ss = [] | Inl _ \<Rightarrow> False)
      | Inl _ \<Rightarrow> False)"

lemma intel_table_tests_pass: dmar_example intel_crate_example
  by code_simp+

end
