(* ===== verification/Spec2Isabelle.thy ===== *)
theory Spec2Isabelle
  imports
    Translation Devices Intel_Dmar Amd_Ivrs
    Intel_Qi Amd_Cmd Amd_Events Amd_Regs Intel_Irte Intel_Fault Intel_Regs
    Formatting Dmar_Table Ivrs_Table Amd_Tests Intel_Tests
begin

text \<open>
  Verification development for \<^verbatim>\<open>iommu-rs\<close>: the two \<^verbatim>\<open>no_std\<close> crates \<^verbatim>\<open>amd-iommu\<close> and
  \<^verbatim>\<open>intel-iommu\<close>, which define the formats of the memory-resident structures, the register maps
  and the page-table walkers of AMD-Vi and Intel VT-d.

  \<^bold>\<open>The program.\<close>  Both crates are libraries of pure value types.  A driver parses the ACPI table that
  lists the remapping units (\<^verbatim>\<open>dmar.rs\<close>, \<^verbatim>\<open>ivrs.rs\<close>), programs the registers (\<^verbatim>\<open>regs.rs\<close>), builds the
  translation structures (\<^verbatim>\<open>context.rs\<close>, \<^verbatim>\<open>dte.rs\<close>, \<^verbatim>\<open>irte.rs\<close>, \<^verbatim>\<open>pagetables.rs\<close>), queues
  invalidations (\<^verbatim>\<open>qi.rs\<close>, \<^verbatim>\<open>cmd.rs\<close>) and reads the logs (\<^verbatim>\<open>fault.rs\<close>, \<^verbatim>\<open>events.rs\<close>, \<^verbatim>\<open>ppr.rs\<close>); an
  emulator uses the decoders and the walkers of the same modules.  Nothing in the crates keeps global
  state: a builder consumes a value and returns a changed one, an iterator's state is the rest of a byte
  slice, and the walkers read memory through a \<open>fetch\<close> closure of the caller.

  \<^bold>\<open>Conventions.\<close>  A \<^verbatim>\<open>u8\<close> to \<^verbatim>\<open>u64\<close> is a word of that width; a struct is a record or a one-constructor
  datatype, an enum a datatype with its payloads; \<^verbatim>\<open>self.with_x(v)\<close> is a function of \<open>v\<close> and of the
  value.  A \<^verbatim>\<open>usize\<close> that only measures slices is a natural number.  An operation that can panic
  returns \<open>panic + 'a\<close>: indexing, overflowing \<open>+\<close> and \<open>-\<close>, overlong shifts, \<^verbatim>\<open>debug_assert!\<close> and
  \<^verbatim>\<open>unreachable!\<close> are branches, as the debug profile runs them, so a theorem that says \<open>Inr\<close> also says
  that debug and release builds agree.  A \<^verbatim>\<open>Result\<close> is a sum with the source's error type, an
  \<^verbatim>\<open>Option\<close> an option.  A \<^verbatim>\<open>bitflags\<close> value is its bits.  Names that several modules of the source
  share carry a prefix here (\<^verbatim>\<open>Irte::vector\<close> is \<open>irte_vector\<close> or \<open>amd_irte_vector\<close>).

  \<^bold>\<open>The library.\<close>
  \<^item> \<open>Prelude\<close>: machine integers, panics and checked operations, the bit-field algebra (\<open>get_field\<close>,
    \<open>put_field\<close>, the shapes a builder has in the source), little-endian byte strings, slices.
  \<^item> \<open>Interfaces\<close>: the contracts \<open>enum_codec\<close>, \<open>exact_enum_codec\<close>, \<open>field_lens\<close> and
    \<open>record_stream\<close>; \<open>drain\<close> runs an iterator with fuel and \<open>collect\<close> gives it the length of the
    slice, which \<open>record_stream.drain_enough\<close> shows to be enough, since every item consumes a byte.
  \<^item> \<open>Bits\<close>: \<^verbatim>\<open>bits.rs\<close> of both crates.
  \<^item> \<open>Acpi\<close>: what the two ACPI parsers share: \<open>acpi_table\<close> (validation by signature, length and
    checksum) and \<open>tlv_stream\<close> (records that carry their own length), which gives \<open>record_stream\<close>.
  \<^item> \<open>Page_Walk\<close>: the relation \<open>walks\<close>, the meaning of a radix-tree translation, and the contract
    \<open>framed_walk\<close> of a loop that computes it.

  \<^bold>\<open>The components.\<close>
  \<^item> \<open>Amd_Pagetables\<close>, \<open>Intel_Pagetables\<close> (\<^verbatim>\<open>pagetables.rs\<close>): the walk loops are total recursive
    functions on the level; they refine \<open>walks\<close>, panic exactly outside one to five levels or when the address of
    the first entry overflows, wrap the address where the code makes no range check, and find what the entry
    builders stored.  Within a
    superpage the address is injective exactly when the leaf has no bits below the page size.
  \<^item> \<open>Intel_Dmar\<close>, \<open>Amd_Ivrs\<close> (\<^verbatim>\<open>dmar.rs\<close>, \<^verbatim>\<open>ivrs.rs\<close>): validation, iterators and accessors; tables
    and structures built from their parts are accepted and read back, an accepted table is partitioned
    into its records, corruption of a byte is detected, every unit among other records is discovered, and
    the accessors that can panic do so exactly where stated.
  \<^item> \<open>Dmar_Table\<close>, \<open>Ivrs_Table\<close>: the two parsers as one function each.  The crates only parse; the
    writers here (\<open>dmar_image\<close>, \<open>content_image\<close>, \<open>ivrs_image\<close>, \<open>block_image\<close>) put each field
    where its accessor reads it, which is the documented layout except for two comments: that of \<^verbatim>\<open>Rhsa\<close> counts 20
    bytes for fields that take 24, and that of \<^verbatim>\<open>Ivhd::devices\<close> adds the header up to 20 or 24 bytes where the code
    skips 24 or 28, three more than the fields before take; these three bytes are arbitrary here.  What validator, iterators and accessors read from their output, for all record types
    together, is the abstract content (\<open>struct_content\<close>, \<open>block_content\<close>) it was written from.
  \<^item> \<open>Amd_Dte\<close>, \<open>Intel_Context\<close>, \<open>Intel_Irte\<close>, \<open>Intel_Fault\<close>, \<open>Amd_Regs\<close> (\<^verbatim>\<open>dte.rs\<close>,
    \<^verbatim>\<open>context.rs\<close>, \<^verbatim>\<open>irte.rs\<close>, \<^verbatim>\<open>fault.rs\<close>, AMD \<^verbatim>\<open>regs.rs\<close>): each entry has an abstract view with one
    component per accessor of the entry, and any sequence of builders is simulated by updates of the view.  Where
    the code lets one field overwrite another, the view says so, and a theorem gives the exact
    condition under which a value survives.  The predicates \<open>ce_clean\<close> to \<open>amd_irte_clean\<close> say that no
    bit outside the fields (for \<open>irte\<close>, those of both formats) is set, an invariant of all builders.
  \<^item> \<open>Intel_Qi\<close>, \<open>Amd_Cmd\<close>, \<open>Amd_Events\<close> (\<^verbatim>\<open>qi.rs\<close>, \<^verbatim>\<open>cmd.rs\<close>, \<^verbatim>\<open>events.rs\<close>, \<^verbatim>\<open>ppr.rs\<close>):
    descriptors and log entries survive encoding and decoding, with operands cut to their fields, and a
    slot of the invalidation queue is decoded exactly when its type is one of \<open>decodable\<close>.
    The AMD commands have no decoder in the source; \<open>cmd_decode\<close> is written from their documented
    layout.
  \<^item> \<open>Intel_Regs\<close> (\<^verbatim>\<open>regs.rs\<close>): the accessors of the capability registers return the value of every
    field, and none panics; the offset tables agree with the fixed register block, and the registers placed by
    the capabilities do not wrap around the address space and overlap only where stated.
  \<^item> \<open>Formatting\<close> (the \<^verbatim>\<open>fmt::Display\<close> implementations): messages as strings, over the decimal and
    hexadecimal formatting of the standard library; the contract \<open>printer\<close> (distinct values print
    differently) holds for the number formats and for every message type.
  \<^item> \<open>Amd_Tests\<close>, \<open>Intel_Tests\<close>: the unit tests and documentation examples of the crates, evaluated on
    the model.

  \<^bold>\<open>The composition.\<close>
  \<^item> \<open>Translation\<close> puts the two walkers side by side: they are one function (\<open>walk_loops_agree\<close>); a walk
    reads at most one entry per level and its result is well formed; accessed and dirty flags are
    invisible to it (\<open>intel_marked\<close>, \<open>amd_marked\<close>); and storing one entry changes the translation of
    the addresses whose walk reads it, as unmapping and remapping are meant to, and of no others.
  \<^item> \<open>Devices\<close> starts walks from translation structures: their pointers are roots a walker accepts, whatever
    bytes they hold (\<open>walks_from_entries_return\<close>); a device that is configured with the builders, over
    tables built by the entry builders, translates as the mapping request says, in one stage or, through a
    PASID table entry, in two; and when all leaves of its tables (\<open>confined\<close>, over all 512 entries of every
    table) come from a mapping request (\<open>request_leaf\<close>), no address it sends leaves the host range of the
    request.  The depths \<open>agaw_levels\<close>, \<open>mode_levels\<close> and \<open>flpm_levels\<close> are those the documentation of
    \<^verbatim>\<open>AddrWidth\<close>, \<^verbatim>\<open>PagingMode\<close> and \<^verbatim>\<open>Flpm\<close> gives.
  \<^item> This theory holds what spans the entry formats: reserved bits, the byte images of the entries as tables
    in memory (\<open>le_quads\<close> reads one back), the interrupt entries and the register words of both crates.

  \<^bold>\<open>Parameters.\<close>  Third-party code is an argument of the definitions that call it: \<open>trunc\<close> stands for
  \<^verbatim>\<open>Perm::from_bits_truncate\<close> of \<^verbatim>\<open>bitflags\<close> and nothing is assumed of it, \<open>ref_from_bytes\<close> for
  that function of \<^verbatim>\<open>zerocopy\<close>, with its documented behaviour as the hypothesis \<open>overlay_ok\<close>.  The
  caller's memory is the function \<open>fetch\<close>.  \<open>table_fits\<close>, assumed of the root of a walk, says
  that the 4 KiB table does not reach the end of the address space; the tables below the root
  are masked to 52 bits and satisfy it, and so do the pointers of all translation structures.  What happens
  without it is part of the panic condition of \<open>Amd_Pagetables\<close>.  A memory does not change while a walk runs.

  \<^bold>\<open>Not modelled.\<close>  The derived \<^verbatim>\<open>Debug\<close> output and the empty \<^verbatim>\<open>std::error::Error\<close> implementations; the
  volatile accessors that \<^verbatim>\<open>tock-registers\<close> generates and the derives of \<^verbatim>\<open>zerocopy\<close> (third-party code,
  of which the layout table and the overlay functions are modelled); the set operations of \<^verbatim>\<open>bitflags\<close>
  beyond union and \<^verbatim>\<open>contains\<close>; the module declarations of \<^verbatim>\<open>lib.rs\<close>.
\<close>

section \<open>Reserved bits\<close>

lemma fold_keeps: "P s \<Longrightarrow> (\<And>s op. P s \<Longrightarrow> P (f op s)) \<Longrightarrow> P (fold f ops s)"
  by (induction ops arbitrary: s) simp_all

text \<open>C17: Reserved bits stay clear: an entry of any format started from \<open>new\<close> and changed by any sequence
  of builders has no bit set outside the fields of its layout, whatever arguments the builders were given
  (addresses beyond 52 bits and unaligned ones included).\<close>

theorem builders_keep_reserved:
  "ce_clean (fold ce_step ce_ops ce_new) \<and> sc_clean (fold sc_step sc_ops sc_new) \<and>
   pt_clean (fold pt_step pt_ops pt_new) \<and> dte_clean (fold dte_step dte_ops dte_new) \<and>
   irte_clean (fold irte_step irte_ops new_remapped) \<and> irte_clean (fold irte_step irte_ops new_posted) \<and>
   amd_irte_clean (fold amd_irte_step amd_irte_ops amd_irte_new)"
  using fold_keeps [of ce_clean _ ce_step, OF clean_new(1) ce_clean_step] fold_keeps [of sc_clean _ sc_step, OF clean_new(2) sc_clean_step]
    fold_keeps [of pt_clean _ pt_step, OF clean_new(3) pt_clean_step] fold_keeps [of dte_clean _ dte_step, OF dte_clean_new dte_clean_step]
    fold_keeps [of irte_clean _ irte_step, OF irte_clean_new(1) irte_clean_step]
    fold_keeps [of irte_clean _ irte_step, OF irte_clean_new(2) irte_clean_step]
    fold_keeps [of amd_irte_clean _ amd_irte_step, OF amd_irte_clean_new amd_irte_clean_step]
  by simp

section \<open>Entries in memory\<close>

text \<open>The quadwords of a byte string.\<close>

definition le_quads :: "nat \<Rightarrow> bytes \<Rightarrow> u64 list" where
  "le_quads n bs = map (\<lambda>i. from_le_bytes (take 8 (drop (8 * i) bs))) [0..<n]"

lemma le_quads_simps [simp]:
  "le_quads 0 bs = []"
  "le_quads (Suc n) (to_le_bytes q @ bs) = q # le_quads n bs" for q :: u64
proof -
  have "[0..<Suc n] = 0 # map Suc [0..<n]" by (simp add: map_Suc_upt upt_conv_Cons del: upt_Suc)
  then show "le_quads (Suc n) (to_le_bytes q @ bs) = q # le_quads n bs"
    by (simp add: le_quads_def comp_def del: upt_Suc)
qed (simp add: le_quads_def)

lemma le_quads_single: "le_quads (Suc 0) (to_le_bytes q) = [q]" for q :: u64
  using le_quads_simps(2) [of 0 q "[]"] by simp

lemma image_quads:
  "le_quads 2 (ce_into_bytes c) = [ce_q0 c, ce_q1 c]"
  "le_quads 4 (sc_into_bytes s) = [sc_q0 s, sc_q1 s, fst (sc_reserved s), snd (sc_reserved s)]"
  "le_quads 8 (pt_into_bytes p) =
     [pt_q0 p, pt_q1 p, pt_q2 p, pt_q3 p, pt_hpt0 p, pt_hpt1 p, pt_hpt2 p, pt_hpt3 p]"
  "le_quads 4 (dte_into_bytes d) = [dte_q0 d, dte_q1 d, dte_q2 d, dte_q3 d]"
  by (simp_all add: ce_into_bytes_def sc_into_bytes_def pt_into_bytes_def dte_into_bytes_def
      numeral_eq_Suc le_quads_single)

lemma image_length:
  "length (ce_into_bytes c) = 16" "length (sc_into_bytes s) = 32" "length (pt_into_bytes p) = 64"
  "length (dte_into_bytes d) = 32"
  by (simp_all add: ce_into_bytes_def sc_into_bytes_def pt_into_bytes_def dte_into_bytes_def)

text \<open>The slot of an entry in a table of images of equal length.\<close>

lemma table_slot:
  assumes "\<And>e. length (wire e) = n"
  shows "slice_get (concat (map wire (pre @ e # post))) (n * length pre) (n * length pre + n) = Some (wire e)"
proof -
  have "length (concat (map wire pre)) = n * length pre"
    using assms by (induction pre) simp_all
  then show ?thesis by (simp add: assms)
qed

text \<open>A 16-bit field on a byte boundary is two bytes of the image.\<close>

lemma field_bytes:
  fixes q :: u64 and did :: u16
  assumes "k \<le> 6" "get_field (8 * k) 16 q = ucast did" "a = length bs + k" "b = a + 2"
  shows "slice_get (bs @ to_le_bytes q @ bs') a b = Some (to_le_bytes did)"
proof -
  have "take 2 (drop k (to_le_bytes q)) = to_le_bytes did"
  proof (rule nth_equalityI)
    fix i assume "i < length (take 2 (drop k (to_le_bytes q)))"
    then have i: "i < 2" "k + i < 8" using assms(1) by auto
    have "bit q (8 * (k + i) + n) \<longleftrightarrow> bit did (8 * i + n)" if "n < 8" for n
      using arg_cong [OF assms(2), of "\<lambda>w. bit w (8 * i + n)"] that i
      by (auto simp: bit_simps algebra_simps)
    then show "take 2 (drop k (to_le_bytes q)) ! i = to_le_bytes did ! i"
      using i by (auto simp: to_le_bytes_def bit_simps intro!: bit_word_eqI)
  qed (use assms(1) in simp)
  then show ?thesis using assms by (simp add: slice_get_def)
qed

lemma domain_id_bytes:
  "slice_get (ce_into_bytes (ce_with_domain_id did c)) 9 11 = Some (to_le_bytes did)"
  "slice_get (pt_into_bytes (pt_with_domain_id did p)) 8 10 = Some (to_le_bytes did)"
  "slice_get (dte_into_bytes (with_domain_id did d)) 16 18 = Some (to_le_bytes did)"
proof -
  have cut: "take_bit 16 (ucast did :: u64) = ucast did"
    by (rule bit_word_eqI) (auto simp: bit_simps dest: bit_imp_le_length)
  show "slice_get (ce_into_bytes (ce_with_domain_id did c)) 9 11 = Some (to_le_bytes did)"
    using field_bytes [of 1 "ce_q1 (ce_with_domain_id did c)" did 9 "to_le_bytes (ce_q0 c)" 11 "[]"]
    by (simp add: ce_into_bytes_def ce_builders cut)
  show "slice_get (pt_into_bytes (pt_with_domain_id did p)) 8 10 = Some (to_le_bytes did)"
    unfolding pt_into_bytes_def by (rule field_bytes [where k = 0]) (simp_all add: pt_builders cut)
  have "dte_into_bytes e = (to_le_bytes (dte_q0 e) @ to_le_bytes (dte_q1 e)) @ to_le_bytes (dte_q2 e) @ to_le_bytes (dte_q3 e)"
    for e by (simp add: dte_into_bytes_def)
  then show "slice_get (dte_into_bytes (with_domain_id did d)) 16 18 = Some (to_le_bytes did)"
    by (simp only:) (rule field_bytes [where k = 0], simp_all add: dte_builders cut)
qed

text \<open>C26: A table of entries in memory: the entry of index \<open>i\<close> occupies the bytes from \<open>i\<close> times its size, which
  is 16 bytes for context entries, 32 for scalable context and device table entries and 64 for PASID table
  entries; reading its quadwords back, little-endian, gives the words of the entry; and the domain ids
  stand at the bytes the specifications give.\<close>

theorem tables_in_memory:
  "slice_get (concat (map ce_into_bytes (cs @ c # cs'))) (16 * length cs) (16 * length cs + 16) = Some (ce_into_bytes c) \<and>
   slice_get (concat (map sc_into_bytes (ss @ s # ss'))) (32 * length ss) (32 * length ss + 32) = Some (sc_into_bytes s) \<and>
   slice_get (concat (map pt_into_bytes (ps @ p # ps'))) (64 * length ps) (64 * length ps + 64) = Some (pt_into_bytes p) \<and>
   slice_get (concat (map dte_into_bytes (ds @ d # ds'))) (32 * length ds) (32 * length ds + 32) = Some (dte_into_bytes d) \<and>
   le_quads 2 (ce_into_bytes c) = [ce_q0 c, ce_q1 c] \<and>
   le_quads 4 (sc_into_bytes s) = [sc_q0 s, sc_q1 s, fst (sc_reserved s), snd (sc_reserved s)] \<and>
   le_quads 8 (pt_into_bytes p) =
     [pt_q0 p, pt_q1 p, pt_q2 p, pt_q3 p, pt_hpt0 p, pt_hpt1 p, pt_hpt2 p, pt_hpt3 p] \<and>
   le_quads 4 (dte_into_bytes d) = [dte_q0 d, dte_q1 d, dte_q2 d, dte_q3 d] \<and>
   slice_get (ce_into_bytes (ce_with_domain_id did c)) 9 11 = Some (to_le_bytes did) \<and>
   slice_get (pt_into_bytes (pt_with_domain_id did p)) 8 10 = Some (to_le_bytes did) \<and>
   slice_get (dte_into_bytes (with_domain_id did d)) 16 18 = Some (to_le_bytes did)"
  using table_slot [of ce_into_bytes 16, OF image_length(1)] table_slot [of sc_into_bytes 32, OF image_length(2)]
    table_slot [of pt_into_bytes 64, OF image_length(3)] table_slot [of dte_into_bytes 32, OF image_length(4)]
  by (simp only: image_quads domain_id_bytes simp_thms)

section \<open>Interrupt entries and registers\<close>

text \<open>C28: Whatever sequence of builders is applied to an interrupt remapping entry of either crate, its
  accessors return what the builders stored last.  On the Intel side every field of both formats is independent
  of the others, except that the destination id and the low half of the descriptor address share bits 63:38, so
  that each of their builders changes what the accessors of the other format return, and that storing a
  descriptor address, cut to 64 bytes, switches the entry to the posted format for good; a delivery mode comes
  back as the variant of its three-bit code, so \<^verbatim>\<open>Reserved(0)\<close> as \<^verbatim>\<open>Fixed\<close>, and only
  \<^verbatim>\<open>Reserved(3)\<close> and \<^verbatim>\<open>Reserved(6)\<close> survive among the reserved ones.  On the AMD side the destination, documented as 32 bits, is cut to 24.\<close>

theorem interrupt_entries_refine:
  "irte_view_of (fold irte_step ops e) = fold irte_view_step ops (irte_view_of e) \<and>
   amd_irte_view_of (fold amd_irte_step amd_ops a) = fold amd_irte_view_step amd_ops (amd_irte_view_of a)"
  by (simp only: irte_fold_view amd_irte_builders_refine simp_thms)

lemma control_timeout:
  "invalidation_timeout (with_invalidation_timeout t c) = take_bit 3 t"
  "invalidation_timeout (with_iommu_en b c) = invalidation_timeout c"
  "invalidation_timeout (with_cmd_buf_en b c) = invalidation_timeout c"
  "invalidation_timeout (with_evt_log_en b c) = invalidation_timeout c"
  "invalidation_timeout (with_ppr_en b c) = invalidation_timeout c"
  "invalidation_timeout (with_gt_en b c) = invalidation_timeout c"
  by (simp_all add: invalidation_timeout_def control_builders extract_bits_at)

text \<open>C36: Register words and what they read back.  The queue address returns its page and width flag, the
  invalidation address its page and the six bits of its mask, and the IOTLB invalidation its granularity and domain,
  with the two drain flags, which have no accessor, at the bits 49 (reads) and 48 (writes) documented for them
  and the initiate bit left clear for the caller.  A context command returns its granularity and domain, but its
  function mask is stored over the two low bits of the source id, and a remapping table register stores its
  size order over bits 15:14 of the base: these read back as the union of both.  An AMD buffer base returns the
  page and the length order; its size and its entry count are the documented powers of two, and panic exactly for
  orders from 60 and from 63 on.  The control register returns the three low bits of the invalidation timeout,
  which every flag builder keeps.\<close>

theorem register_words:
  "iqa_base (iqa_new b wide) = b AND NOT 0xfff \<and> iqa_wide_descriptors (iqa_new b wide) = wide \<and>
   iva_addr (iva_new b am) = b AND NOT 0xfff \<and> iva_am (iva_new b am) = am AND 0x3f \<and>
   iotlb_granularity (iotlb_inval_new i did dr dw) = i \<and> iotlb_did (iotlb_inval_new i did dr dw) = did \<and>
   \<not> iotlb_initiate (iotlb_inval_new i did dr dw) \<and>
   bit (iotlb_raw (iotlb_inval_new i did dr dw)) 49 = dr \<and> bit (iotlb_raw (iotlb_inval_new i did dr dw)) 48 = dw \<and>
   ccmd_granularity (ccmd_new g did sid fm) = g \<and> ccmd_did (ccmd_new g did sid fm) = did \<and>
   \<not> ccmd_initiate (ccmd_new g did sid fm) \<and>
   ccmd_sid (ccmd_new g did sid fm) = sid OR ucast (fm AND 0x3) \<and>
   ccmd_fm (ccmd_new g did sid fm) = (ucast sid OR fm) AND 0x3 \<and>
   irta_base (irta_new b n x) = (b AND NOT 0xfff) OR push_bit 14 (ucast (n AND 0x3)) \<and>
   irta_size_order (irta_new b n x) = (ucast (drop_bit 14 b) OR n) AND 0x3 \<and>
   irta_eime (irta_new b n x) = x \<and>
   bb_base (bb_new b k) = b AND 0x000ffffffffff000 \<and> bb_length_order (bb_new b k) = k \<and>
   bb_size_bytes (bb_new b k) = (if unat k < 60 then Inr (2 ^ (unat k + 4)) else Inl ShiftOverflow) \<and>
   bb_entry_count (bb_new b k) = (if unat k < 63 then Inr (2 ^ (unat k + 1)) else Inl ShiftOverflow) \<and>
   invalidation_timeout (with_invalidation_timeout t c) = take_bit 3 t \<and>
   invalidation_timeout (with_gt_en v (with_ppr_en v (with_evt_log_en v (with_cmd_buf_en v (with_iommu_en v c)))))
     = invalidation_timeout c"
  using intel_register_words [of b wide am i did dr dw g sid fm n x] bb_roundtrip [of b k]
  by (simp only: control_timeout simp_thms)

end
